theory Spec2Isabelle
  imports Main
begin

section \<open>JavaScript values shared by the scenes\<close>

text \<open>
  Grid coordinates, play time and menu indices are JavaScript numbers that only ever hold
  integers; they are modelled as \<open>int\<close>. Reading an array out of range gives
  \<open>undefined\<close>, which is \<open>None\<close>; writing past the end of an array extends it with holes.
\<close>

definition js_index :: "'a list \<Rightarrow> int \<Rightarrow> 'a option" where
  "js_index xs i = (if 0 \<le> i \<and> i < int (length xs) then Some (xs ! nat i) else None)"

definition js_store :: "'a option list \<Rightarrow> nat \<Rightarrow> 'a \<Rightarrow> 'a option list" where
  "js_store xs i v =
     (if i < length xs then xs[i := Some v]
      else xs @ replicate (i - length xs) None @ [Some v])"

datatype js_error = TypeError

datatype facing = Front | Back | Left | Right

text \<open>
  Hero statistics, inventories, chest states and level-up summaries are owned by other
  subsystems; the scenes only store and forward them.
\<close>

datatype hero_stats = HeroStats nat
datatype chest_state = ChestState nat
datatype inventory_state = DefaultInventory | Inventory nat
datatype level_up = BattleXPSummary nat

type_synonym hero_states = "string \<rightharpoonup> hero_stats"
type_synonym game_flags = "string \<rightharpoonup> bool"
type_synonym chest_states = "string \<rightharpoonup> chest_state"

text \<open>\<open>flags['name']\<close> used as a condition: true only when the entry is present and true.\<close>

definition flag_set :: "game_flags \<Rightarrow> string \<Rightarrow> bool" where
  "flag_set g k = (g k = Some True)"

definition createDefaultInventory :: inventory_state where
  "createDefaultInventory = DefaultInventory"

record save_data =
  sv_slot :: int
  sv_mainHero :: string
  sv_currentMap :: string
  sv_playerPosition :: "int \<times> int"
  sv_playTime :: int
  sv_heroState :: "hero_states option"
  sv_flags :: "game_flags option"
  sv_timestamp :: string
  sv_inventory :: "inventory_state option"
  sv_chests :: "chest_states option"

record save_slot_preview =
  p_slot :: int
  p_isEmpty :: bool
  p_mainHero :: "string option"
  p_heroLevels :: "int list option"
  p_playTime :: "int option"
  p_location :: "string option"

text \<open>The object handed to \<open>scene.start\<close> / \<open>scene.launch\<close> and received by \<open>create\<close>.\<close>

record scene_data =
  d_heroId :: "string option"
  d_heroState :: "hero_states option"
  d_gameFlags :: "game_flags option"
  d_playTime :: "int option"
  d_devMode :: "bool option"
  d_levelUps :: "level_up list option"
  d_inventory :: "inventory_state option"
  d_chests :: "chest_states option"
  d_saveData :: "save_data option"
  d_playerPosition :: "(int \<times> int) option"
  d_returnScene :: "string option"
  d_initialView :: "string option"
  d_battleMap :: "string option"
  d_returnPosition :: "(int \<times> int) option"
  d_exploreMap :: "string option"

definition no_data :: scene_data where
  "no_data = \<lparr> d_heroId = None, d_heroState = None, d_gameFlags = None, d_playTime = None,
     d_devMode = None, d_levelUps = None, d_inventory = None, d_chests = None,
     d_saveData = None, d_playerPosition = None, d_returnScene = None,
     d_initialView = None, d_battleMap = None, d_returnPosition = None,
     d_exploreMap = None \<rparr>"

text \<open>
  What a scene does to the engine and to the save collaborator is recorded, in order, in
  a trace. \<open>TweenAdded x y\<close> is the \<open>tweens.add\<close> of an accepted move towards tile
  \<open>(x, y)\<close>. The trigger checks are recorded too, with the value \<open>isMoving\<close> had and
  the grid position the player had when the check ran; the check of the special triggers
  also with its result. \<open>BlockedWarningStarted i\<close> is the call that hands the warning
  of the blocked location with id \<open>i\<close> to the dialogue renderer.
\<close>

datatype effect =
    SceneStart string scene_data
  | ScenePause
  | SceneLaunch string scene_data
  | TweenAdded int int
  | TriggersChecked bool int int
  | SpecialTriggersChecked bool int int bool
  | LocationProximityChecked bool int int
  | BlockedWarningStarted string
  | SaveManagerSave save_data bool
  | SaveManagerDelete int
  | Thrown js_error

text \<open>
  Modelled from the spec: the DialogueRenderer (src/systems/DialogueRenderer.ts is not
  among the sources). A session holds the lines not yet dismissed and the completion
  callback; \<open>advance\<close> shows the next line if more remain, and otherwise ends the
  session and invokes the callback. The callbacks of each scene are listed as a datatype.
\<close>

record 'cb dialogue_session =
  ds_lines :: "string list"
  ds_speaker :: string
  ds_onComplete :: 'cb

section \<open>IshetarScene2\<close>

record npc =
  npc_id :: string
  npc_name :: string
  gridX :: int
  gridY :: int
  dialogue :: "string list"

datatype dialogue_callback =
    EndDialogue
  | OpenShrineSaveMenu
  | OpenOverwriteMenu
  | OpenHrothgarMenu

datatype choice_callback = ShrineSaveChoice | SaveSlotChoice | OverwriteChoice

datatype timer = LevelUpScreenTimer "level_up list" | HrothgarEndingTimer

text \<open>
  The fields of the class, without the sprites, containers and text objects. The last
  four fields are the collaborators' state: the dialogue renderer's session, the number of
  move tweens the engine has not completed yet, the delayed calls not fired yet, and the
  trace.
\<close>

record scene2 =
  playerGridX :: int
  playerGridY :: int
  playerFacing :: facing
  heroId :: string
  npcs :: "npc list"
  isInDialogue :: bool
  isMoving :: bool
  mapGridWidth :: int
  mapGridHeight :: int
  terrain :: "int option list list"
  heroState :: hero_states
  gameFlags :: game_flags
  playTime :: int
  sessionStartTime :: int
  inventory :: inventory_state
  chestStates :: chest_states
  pendingHrothgarDialogue :: bool
  choiceMenuVisible :: bool
  choiceMenuOptions :: "string list"
  choiceMenuSelectedIndex :: int
  choiceMenuCallback :: "choice_callback option"
  devMode :: bool
  selectedSaveSlot :: int
  saveSlotPreviews :: "save_slot_preview list"
  levelUpOverlay :: "level_up list option"
  dialogueRenderer :: "dialogue_callback dialogue_session option"
  pendingTweens :: nat
  pendingTimers :: "timer list"
  trace :: "effect list"

text \<open>
  One call of \<open>update\<close> reads the keyboard and may call the collaborators; what they
  answer during that frame is part of the frame.
\<close>

record frame =
  escJustDown :: bool
  enterJustDown :: bool
  upJustDown :: bool
  downJustDown :: bool
  leftIsDown :: bool
  rightIsDown :: bool
  upIsDown :: bool
  downIsDown :: bool
  overlayWaiting :: bool
  overlayCompletes :: bool
  dateNow :: int
  isoTimestamp :: string
  saveSucceeds :: bool
  allSlotPreviews :: "save_slot_preview list"
  restoreAllResources :: "hero_states \<Rightarrow> hero_states"

subsection \<open>Grid movement\<close>

definition terrainAt :: "int option list list \<Rightarrow> int \<Rightarrow> int \<Rightarrow> int option" where
  "terrainAt t gx gy =
     (case js_index t gy of
        None \<Rightarrow> None
      | Some row \<Rightarrow> (case js_index row gx of None \<Rightarrow> None | Some c \<Rightarrow> c))"

definition isPassable :: "scene2 \<Rightarrow> int \<Rightarrow> int \<Rightarrow> bool" where
  "isPassable s gx gy =
     (if gx < 0 \<or> gx \<ge> mapGridWidth s then False
      else if gy < 0 \<or> gy \<ge> mapGridHeight s then False
      else if terrainAt (terrain s) gx gy = Some 2 then False
      else if list_ex (\<lambda>n. gridX n = gx \<and> gridY n = gy) (npcs s) then False
      else True)"

definition northGateTiles :: "(int \<times> int) list" where
  "northGateTiles = [(13, 2), (14, 2)]"

definition goToTravelMap :: "scene2 \<Rightarrow> scene2" where
  "goToTravelMap s =
     s\<lparr>trace := trace s @ [SceneStart ''TravelScene''
        (no_data\<lparr>d_heroId := Some (heroId s), d_heroState := Some (heroState s),
          d_gameFlags := Some (gameFlags s), d_playTime := Some (playTime s),
          d_inventory := Some (inventory s), d_chests := Some (chestStates s),
          d_devMode := Some (devMode s)\<rparr>)]\<rparr>"

definition checkTriggers :: "scene2 \<Rightarrow> scene2" where
  "checkTriggers s0 =
     (let s = s0\<lparr>trace := trace s0 @
                [TriggersChecked (isMoving s0) (playerGridX s0) (playerGridY s0)]\<rparr>;
          onNorthGate =
            list_ex (\<lambda>(x, y). x = playerGridX s \<and> y = playerGridY s) northGateTiles
      in if onNorthGate then goToTravelMap s else s)"

definition movePlayer :: "int \<Rightarrow> int \<Rightarrow> scene2 \<Rightarrow> scene2" where
  "movePlayer dx dy s =
     (if isMoving s \<or> isInDialogue s then s
      else
        let newGridX = playerGridX s + dx;
            newGridY = playerGridY s + dy;
            s1 = s\<lparr>playerFacing :=
                    (if dx > 0 then Right
                     else if dx < 0 then Left
                     else if dy > 0 then Front
                     else if dy < 0 then Back
                     else playerFacing s)\<rparr>
        in if \<not> isPassable s1 newGridX newGridY then s1
           else s1\<lparr>isMoving := True,
                   playerGridX := newGridX,
                   playerGridY := newGridY,
                   pendingTweens := Suc (pendingTweens s1),
                   trace := trace s1 @ [TweenAdded newGridX newGridY]\<rparr>)"

text \<open>The \<open>onComplete\<close> of the move tween, and the engine completing one pending tween.\<close>

definition moveTweenOnComplete :: "scene2 \<Rightarrow> scene2" where
  "moveTweenOnComplete s = checkTriggers (s\<lparr>isMoving := False\<rparr>)"

definition completeMoveTween :: "scene2 \<Rightarrow> scene2" where
  "completeMoveTween s =
     (if pendingTweens s = 0 then s
      else moveTweenOnComplete (s\<lparr>pendingTweens := pendingTweens s - 1\<rparr>))"

subsection \<open>Choice menu\<close>

definition showChoiceMenu :: "string list \<Rightarrow> choice_callback \<Rightarrow> scene2 \<Rightarrow> scene2" where
  "showChoiceMenu options callback s =
     s\<lparr>choiceMenuOptions := options,
       choiceMenuCallback := Some callback,
       choiceMenuSelectedIndex := 0,
       choiceMenuVisible := True\<rparr>"

definition hideChoiceMenu :: "scene2 \<Rightarrow> scene2" where
  "hideChoiceMenu s = s\<lparr>choiceMenuVisible := False, isInDialogue := False\<rparr>"

subsection \<open>Dialogue renderer\<close>

text \<open>
  Modelled from the spec: \<open>startDialogue\<close> and \<open>isDialogueActive\<close> of the
  DialogueRenderer, which is not among the sources.
\<close>

definition startDialogue ::
  "string list \<Rightarrow> string \<Rightarrow> dialogue_callback \<Rightarrow> scene2 \<Rightarrow> scene2" where
  "startDialogue ls name cb s =
     s\<lparr>dialogueRenderer := Some \<lparr>ds_lines = ls, ds_speaker = name, ds_onComplete = cb\<rparr>\<rparr>"

definition isDialogueActive :: "scene2 \<Rightarrow> bool" where
  "isDialogueActive s = (dialogueRenderer s \<noteq> None)"

subsection \<open>Shrine save system\<close>

text \<open>
  Decimal numerals, as a template literal prints an integer of magnitude below
  \<open>10\<^sup>2\<^sup>1\<close>; from there on JavaScript prints the exponent form, which is outside
  this model.
\<close>

fun digits :: "nat \<Rightarrow> string" where
  "digits n =
     (if n < 10 then [''0123456789'' ! n]
      else digits (n div 10) @ [''0123456789'' ! (n mod 10)])"

declare digits.simps [simp del]

definition show_int :: "int \<Rightarrow> string" where
  "show_int i = (if i < 0 then CHR ''-'' # digits (nat (- i)) else digits (nat i))"

definition is_digit :: "char \<Rightarrow> bool" where
  "is_digit c = (c \<in> set ''0123456789'')"

definition digit_value :: "char \<Rightarrow> int" where
  "digit_value c = int (length (takeWhile (\<lambda>d. d \<noteq> c) ''0123456789''))"

text \<open>
  \<open>parseInt(ds, 10)\<close> on a string of decimal digits. The result is exact here;
  JavaScript rounds it to a double, which differs only from \<open>2\<^sup>5\<^sup>3\<close> on.
\<close>

definition parseInt :: "string \<Rightarrow> int" where
  "parseInt ds = foldl (\<lambda>acc c. 10 * acc + digit_value c) 0 ds"

text \<open>The remainder operator \<open>%\<close> takes the sign of the dividend.\<close>

definition js_rem :: "int \<Rightarrow> int \<Rightarrow> int" where
  "js_rem a b = sgn a * (\<bar>a\<bar> mod \<bar>b\<bar>)"

definition formatPlayTime :: "int \<Rightarrow> string" where
  "formatPlayTime seconds =
     (let hours = seconds div 3600;
          minutes = js_rem seconds 3600 div 60
      in if hours > 0 then show_int hours @ ''h '' @ show_int minutes @ ''m''
         else show_int minutes @ ''m'')"

text \<open>
  \<open>names[heroId] || heroId\<close> on the object literal with the three hero ids as its own
  keys. An id that names a member every plain object inherits (such as \<open>constructor\<close>
  or \<open>toString\<close>) finds that member instead; such ids are outside this model, which
  returns the id for them.
\<close>

definition getHeroDisplayName :: "string \<Rightarrow> string" where
  "getHeroDisplayName h =
     (if h = ''vicas'' then ''Vicas''
      else if h = ''azrael'' then ''Azrael''
      else if h = ''thump'' then ''Thump''
      else h)"

text \<open>\<open>x || d\<close> on an optional string and on an optional number.\<close>

definition or_string :: "string option \<Rightarrow> string \<Rightarrow> string" where
  "or_string x d = (case x of None \<Rightarrow> d | Some v \<Rightarrow> if v = [] then d else v)"

definition or_number :: "int option \<Rightarrow> int \<Rightarrow> int" where
  "or_number x d = (case x of None \<Rightarrow> d | Some v \<Rightarrow> if v = 0 then d else v)"

definition slotLabel :: "save_slot_preview \<Rightarrow> string" where
  "slotLabel preview =
     (if p_isEmpty preview then ''Slot '' @ show_int (p_slot preview) @ '': [Empty]''
      else
        let heroName = getHeroDisplayName (or_string (p_mainHero preview) ''unknown'');
            level = or_number (case p_heroLevels preview of
                                 None \<Rightarrow> None | Some ls \<Rightarrow> js_index ls 0) 1;
            time = formatPlayTime (or_number (p_playTime preview) 0)
        in ''Slot '' @ show_int (p_slot preview) @ '': '' @ heroName @ '' Lv'' @
           show_int level @ '' '' @ time)"

text \<open>\<open>choice.match(/^Slot (\d+):/)\<close>: the digits captured, if the label matches.\<close>

definition slotMatch :: "string \<Rightarrow> string option" where
  "slotMatch choice =
     (if take 5 choice = ''Slot '' then
        (let rest = drop 5 choice;
             ds = takeWhile is_digit rest;
             after = dropWhile is_digit rest
         in if ds \<noteq> [] \<and> take 1 after = '':'' then Some ds else None)
      else None)"

definition saveGame :: "frame \<Rightarrow> int \<Rightarrow> scene2 \<Rightarrow> scene2" where
  "saveGame f slot s =
     (let sessionSeconds = (dateNow f - sessionStartTime s) div 1000;
          totalPlayTime = playTime s + sessionSeconds;
          saveData = \<lparr> sv_slot = slot,
                       sv_mainHero = heroId s,
                       sv_currentMap = ''ishetar_town_post_battle'',
                       sv_playerPosition = (playerGridX s, playerGridY s),
                       sv_playTime = totalPlayTime,
                       sv_heroState = Some (heroState s),
                       sv_flags = Some ((gameFlags s)(''south_gate_battle_complete'' \<mapsto> True)),
                       sv_timestamp = isoTimestamp f,
                       sv_inventory = Some (inventory s),
                       sv_chests = Some (chestStates s) \<rparr>;
          success = saveSucceeds f;
          s1 = s\<lparr>trace := trace s @ [SaveManagerSave saveData success]\<rparr>
      in if success then
           startDialogue [''*Your progress has been recorded by the bards.*''] ''Shrine''
             EndDialogue
             (s1\<lparr>playTime := totalPlayTime, sessionStartTime := dateNow f,
                 isInDialogue := True\<rparr>)
         else
           startDialogue
             [''*The bards seem distracted. Your progress could not be recorded.*'']
             ''Shrine'' EndDialogue (s1\<lparr>isInDialogue := True\<rparr>))"

definition showOverwriteConfirmation :: "scene2 \<Rightarrow> scene2" where
  "showOverwriteConfirmation s =
     (let preview = find (\<lambda>p. p_slot p = selectedSaveSlot s) (saveSlotPreviews s);
          heroName = getHeroDisplayName
            (or_string (case preview of None \<Rightarrow> None | Some p \<Rightarrow> p_mainHero p) ''unknown'')
      in startDialogue
           [''Overwrite '' @ heroName @ [CHR 0x27] @ ''s tale in Slot '' @
              show_int (selectedSaveSlot s) @ ''?'']
           ''Shrine'' OpenOverwriteMenu (s\<lparr>isInDialogue := True\<rparr>))"

definition showSaveSlotSelection :: "frame \<Rightarrow> scene2 \<Rightarrow> scene2" where
  "showSaveSlotSelection f s0 =
     (let s = s0\<lparr>saveSlotPreviews := allSlotPreviews f\<rparr>;
          options = map slotLabel (saveSlotPreviews s) @ [''Cancel'']
      in showChoiceMenu options SaveSlotChoice s)"

definition showShrineSaveMenu :: "scene2 \<Rightarrow> scene2" where
  "showShrineSaveMenu s = showChoiceMenu [''Yes'', ''No''] ShrineSaveChoice s"

text \<open>
  The three callbacks given to \<open>showChoiceMenu\<close>. The chosen label is \<open>undefined\<close>
  (\<open>None\<close>) when the selected index is outside the option list; \<open>choice.match\<close>
  then throws.
\<close>

definition runChoiceCallback ::
  "frame \<Rightarrow> choice_callback \<Rightarrow> string option \<Rightarrow> scene2 \<Rightarrow> scene2" where
  "runChoiceCallback f cb choice s =
     (case cb of
        ShrineSaveChoice \<Rightarrow>
          if choice = Some ''Yes'' then showSaveSlotSelection f s else s
      | SaveSlotChoice \<Rightarrow>
          if choice = Some ''Cancel'' then s
          else
            (case choice of
               None \<Rightarrow> s\<lparr>trace := trace s @ [Thrown TypeError]\<rparr>
             | Some c \<Rightarrow>
                 (case slotMatch c of
                    None \<Rightarrow> s
                  | Some ds \<Rightarrow>
                      let s1 = s\<lparr>selectedSaveSlot := parseInt ds\<rparr>;
                          preview = find (\<lambda>p. p_slot p = selectedSaveSlot s1)
                                      (saveSlotPreviews s1)
                      in (case preview of
                            None \<Rightarrow> saveGame f (selectedSaveSlot s1) s1
                          | Some p \<Rightarrow>
                              if \<not> p_isEmpty p then showOverwriteConfirmation s1
                              else saveGame f (selectedSaveSlot s1) s1)))
      | OverwriteChoice \<Rightarrow>
          if choice = Some ''Yes'' then saveGame f (selectedSaveSlot s) s else s)"

definition selectChoiceMenuOption :: "frame \<Rightarrow> scene2 \<Rightarrow> scene2" where
  "selectChoiceMenuOption f s =
     (let selectedOption = js_index (choiceMenuOptions s) (choiceMenuSelectedIndex s);
          s1 = hideChoiceMenu s
      in case choiceMenuCallback s1 of
           None \<Rightarrow> s1
         | Some cb \<Rightarrow> runChoiceCallback f cb selectedOption s1)"

subsection \<open>Dialogue callbacks and interaction\<close>

definition menuSceneData :: "scene2 \<Rightarrow> scene_data" where
  "menuSceneData s =
     no_data\<lparr>d_heroState := Some (heroState s), d_returnScene := Some ''IshetarScene2'',
       d_inventory := Some (inventory s)\<rparr>"

definition runDialogueCallback :: "dialogue_callback \<Rightarrow> scene2 \<Rightarrow> scene2" where
  "runDialogueCallback cb s =
     (case cb of
        EndDialogue \<Rightarrow> s\<lparr>isInDialogue := False\<rparr>
      | OpenShrineSaveMenu \<Rightarrow> showShrineSaveMenu s
      | OpenOverwriteMenu \<Rightarrow> showChoiceMenu [''Yes'', ''No''] OverwriteChoice s
      | OpenHrothgarMenu \<Rightarrow>
          s\<lparr>isInDialogue := False, pendingHrothgarDialogue := True,
            trace := trace s @ [ScenePause, SceneLaunch ''MenuScene''
              ((menuSceneData s)\<lparr>d_initialView := Some ''hrothgar''\<rparr>)]\<rparr>)"

text \<open>
  Modelled from the spec: \<open>advance\<close> of the DialogueRenderer. With more lines left it
  shows the next one; on the last line it ends the session and then invokes the
  completion callback. Without a session it does nothing.
\<close>

definition advance :: "scene2 \<Rightarrow> scene2" where
  "advance s =
     (case dialogueRenderer s of
        None \<Rightarrow> s
      | Some d \<Rightarrow>
          if length (ds_lines d) > 1
          then s\<lparr>dialogueRenderer := Some (d\<lparr>ds_lines := tl (ds_lines d)\<rparr>)\<rparr>
          else runDialogueCallback (ds_onComplete d) (s\<lparr>dialogueRenderer := None\<rparr>))"

definition handleShrineInteraction :: "frame \<Rightarrow> npc \<Rightarrow> scene2 \<Rightarrow> scene2" where
  "handleShrineInteraction f n s =
     startDialogue
       (dialogue n @ [''Would you like to record your progress for the bards?''])
       (npc_name n) OpenShrineSaveMenu
       (s\<lparr>heroState := restoreAllResources f (heroState s)\<rparr>)"

definition startNPCDialogue :: "frame \<Rightarrow> npc \<Rightarrow> scene2 \<Rightarrow> scene2" where
  "startNPCDialogue f n s0 =
     (let s = s0\<lparr>isInDialogue := True\<rparr>
      in if npc_id n = ''pelor'' then handleShrineInteraction f n s
         else if npc_id n = ''hrothgar''
         then startDialogue (dialogue n) (npc_name n) OpenHrothgarMenu s
         else startDialogue (dialogue n) (npc_name n) EndDialogue s)"

definition facingOffsets :: "facing \<Rightarrow> int \<times> int" where
  "facingOffsets d =
     (case d of Front \<Rightarrow> (0, 1) | Back \<Rightarrow> (0, - 1) | Left \<Rightarrow> (- 1, 0) | Right \<Rightarrow> (1, 0))"

definition tryInteract :: "frame \<Rightarrow> scene2 \<Rightarrow> scene2" where
  "tryInteract f s =
     (if isInDialogue s then (if isDialogueActive s then advance s else s)
      else
        let targetX = playerGridX s + fst (facingOffsets (playerFacing s));
            targetY = playerGridY s + snd (facingOffsets (playerFacing s))
        in case find (\<lambda>n. gridX n = targetX \<and> gridY n = targetY) (npcs s) of
             None \<Rightarrow> s
           | Some n \<Rightarrow> startNPCDialogue f n s)"

definition showHrothgarEndingDialogue :: "scene2 \<Rightarrow> scene2" where
  "showHrothgarEndingDialogue s =
     startDialogue [''Now get out there and show those demons what ya got!'']
       ''Hrothgar'' EndDialogue (s\<lparr>isInDialogue := True\<rparr>)"

definition showLevelUpScreen :: "level_up list \<Rightarrow> scene2 \<Rightarrow> scene2" where
  "showLevelUpScreen levelUps s = s\<lparr>isInDialogue := True, levelUpOverlay := Some levelUps\<rparr>"

text \<open>
  \<open>LevelUpOverlay.handleInput\<close> belongs to a component that is not among the sources;
  the frame says whether this call finishes the overlay, which runs its \<open>onComplete\<close>.
\<close>

definition overlayHandleInput :: "frame \<Rightarrow> scene2 \<Rightarrow> scene2" where
  "overlayHandleInput f s =
     (if overlayCompletes f then s\<lparr>levelUpOverlay := None, isInDialogue := False\<rparr> else s)"

subsection \<open>The frame update\<close>

definition update :: "frame \<Rightarrow> scene2 \<Rightarrow> scene2" where
  "update f s =
     (if levelUpOverlay s \<noteq> None \<and> overlayWaiting f then
        (if enterJustDown f then overlayHandleInput f s else s)
      else if escJustDown f then
        s\<lparr>trace := trace s @ [ScenePause, SceneLaunch ''MenuScene'' (menuSceneData s)]\<rparr>
      else if choiceMenuVisible s then
        (if upJustDown f then
           s\<lparr>choiceMenuSelectedIndex := max 0 (choiceMenuSelectedIndex s - 1)\<rparr>
         else if downJustDown f then
           s\<lparr>choiceMenuSelectedIndex :=
               min (int (length (choiceMenuOptions s)) - 1) (choiceMenuSelectedIndex s + 1)\<rparr>
         else if enterJustDown f then selectChoiceMenuOption f s
         else s)
      else
        (let s1 = (if enterJustDown f then tryInteract f s else s)
         in if \<not> isInDialogue s1 \<and> \<not> isMoving s1 then
              (if leftIsDown f then movePlayer (- 1) 0 s1
               else if rightIsDown f then movePlayer 1 0 s1
               else if upIsDown f then movePlayer 0 (- 1) s1
               else if downIsDown f then movePlayer 0 1 s1
               else s1)
            else s1))"

subsection \<open>Scene creation\<close>

definition mkNpc :: "string \<Rightarrow> string \<Rightarrow> int \<Rightarrow> int \<Rightarrow> string list \<Rightarrow> npc" where
  "mkNpc i n x y d = \<lparr> npc_id = i, npc_name = n, gridX = x, gridY = y, dialogue = d \<rparr>"

definition npcData :: "npc list" where
  "npcData =
   [ mkNpc ''meris'' ''Meris'' 22 5
       [''I was so foolish to come alone. But I had to find help for my family.'',
        ''My husband took my two oldest to pay respects at Old Quetzi's Shrine.'',
        ''But they should have been home two days ago...''],
     mkNpc ''rowena'' ''Lady Rowena'' 21 5
       [''Ishetar is a safe haven for everyone. We have to help poor Meris and her family.'',
        ''Please, travel to the North Gate and see what you can do.'',
        ''Don't forget to burn an offering, and talk to Hrothgar if you need combat advice.''],
     mkNpc ''guard_north'' ''Town Guard'' 14 3
       [''Lady Rowena said you'd be going on a rescue mission. You're so brave!'',
        ''I recommend taking the old hunting paths. The cliffs are full of harpies this time of year!'',
        ''Steer clear of the Red Vale though. It's much too dangerous!''],
     mkNpc ''guard_east'' ''Town Guard'' 25 11
       [''The south gate is secure again, thanks to you.'',
        ''But I wonder... where did those creatures come from?''],
     mkNpc ''pelor'' ''Shrine'' 8 4
       [''*You burn your offering at the shrine. You find yourself fully rested.*''],
     mkNpc ''villager_male'' ''Baker'' 9 9
       [''He may be surly, but Vicas is the best medic I've ever seen.'',
        ''We're so lucky he chose to make Ishetar home.''],
     mkNpc ''villager_female'' ''Gertrude'' 9 15
       [''Oh, what a terrible fright! And that young lady had a little one with her!'',
        ''She'll be in need of one of Miss Lyra's special cups of tea!''],
     mkNpc ''child_male'' ''Young Boy'' 15 18
       [''Did you really fight those monsters?! Wow!'',
        ''I bet Azrael got em all by himself! I hear their daggers are invisible!''],
     mkNpc ''child_female'' ''Young Girl'' 22 15
       [''When I grow up, I want to learn magic!'',
        ''But maybe not from Rooker... he's kind of scary!''],
     mkNpc ''hrothgar'' ''Hrothgar'' 12 15
       [''I may be an old veteran, but I can still help you learn combat tactics!'',
        ''And be sure to bring me any equipment you find. I can help you attune to it.''],
     mkNpc ''sombra'' ''Sombra'' 20 3
       [''Devils. At the gate. I admit to being curious, but not this close...''] ]"

definition heroDialogues :: "string \<Rightarrow> string list" where
  "heroDialogues h =
     (if h = ''vicas'' then [''We were lucky. That young lady and her baby could have been killed.'']
      else if h = ''rooker'' then [''Fascinating creatures...I wonder what drew them here.'']
      else if h = ''lyra'' then [''Light can heal or it can blind. Those devils learned the difference.'']
      else if h = ''azrael'' then [''Heh. That was a good warm-up. When's the real fight?'']
      else if h = ''thump'' then [''The spirits are uneasy. Something feels very wrong...'']
      else [''...''])"

definition heroNames :: "string \<Rightarrow> string" where
  "heroNames h =
     (if h = ''vicas'' then ''Vicas'' else if h = ''rooker'' then ''Rooker''
      else if h = ''lyra'' then ''Lyra'' else if h = ''azrael'' then ''Azrael''
      else if h = ''thump'' then ''Thump'' else [])"

definition heroPositions :: "(int \<times> int) list" where
  "heroPositions = [(17, 10), (19, 10), (17, 12), (19, 12)]"

definition allHeroes :: "string list" where
  "allHeroes = [''vicas'', ''azrael'', ''lyra'', ''thump'', ''rooker'']"

text \<open>
  \<open>zip\<close> stops at the shorter list, as the \<open>forEach\<close> skips every party hero whose index
  is past the last hero position.
\<close>

definition placeNPCs :: "scene2 \<Rightarrow> scene2" where
  "placeNPCs s =
     (let partyHeroes = filter (\<lambda>h. h \<noteq> heroId s) allHeroes
      in s\<lparr>npcs := npcs s @ npcData @
            map (\<lambda>(h, pos). mkNpc h (heroNames h) (fst pos) (snd pos) (heroDialogues h))
              (zip partyHeroes heroPositions)\<rparr>)"

record ishetar_map =
  md_terrain :: "int list list"
  md_gridWidth :: int
  md_gridHeight :: int

text \<open>\<open>this.terrain[r][c] = 0\<close> throws when row \<open>r\<close> does not exist.\<close>

definition storeWalkable ::
  "nat \<Rightarrow> nat \<Rightarrow> int option list list \<Rightarrow> js_error + int option list list" where
  "storeWalkable r c t =
     (if r < length t then Inr (t[r := js_store (t ! r) c 0]) else Inl TypeError)"

definition openNorthGate :: "int option list list \<Rightarrow> js_error + int option list list" where
  "openNorthGate t0 =
     (case storeWalkable 1 13 t0 of Inl e \<Rightarrow> Inl e | Inr t1 \<Rightarrow>
       (case storeWalkable 1 14 t1 of Inl e \<Rightarrow> Inl e | Inr t2 \<Rightarrow>
         (case storeWalkable 2 13 t2 of Inl e \<Rightarrow> Inl e | Inr t3 \<Rightarrow>
            storeWalkable 2 14 t3)))"

text \<open>
  \<open>create\<close> runs on the scene object as the previous run left it (the constructor's
  field initialisers run once only), with the data of the transition, the cached map
  (absent when the cache has none) and the clock. Shutting the previous run down removed
  its tweens and delayed calls.
\<close>

definition loadState :: "scene_data \<Rightarrow> int \<Rightarrow> scene2 \<Rightarrow> scene2" where
  "loadState data now s0 =
     (let s1 = s0\<lparr>isInDialogue := False, isMoving := False, choiceMenuVisible := False,
                  npcs := [], pendingTweens := 0, pendingTimers := []\<rparr>;
          s2 = s1\<lparr>heroId := or_string (d_heroId data) ''vicas'',
                  heroState := (case d_heroState data of None \<Rightarrow> Map.empty | Some h \<Rightarrow> h),
                  gameFlags := (case d_gameFlags data of None \<Rightarrow> Map.empty | Some g \<Rightarrow> g),
                  playTime := or_number (d_playTime data) 0,
                  sessionStartTime := now,
                  devMode := (case d_devMode data of None \<Rightarrow> False | Some b \<Rightarrow> b)\<rparr>
      in case d_saveData data of
           Some sv \<Rightarrow>
             s2\<lparr>inventory := (case sv_inventory sv of None \<Rightarrow> createDefaultInventory | Some i \<Rightarrow> i),
                chestStates := (case sv_chests sv of None \<Rightarrow> Map.empty | Some c \<Rightarrow> c),
                heroState := (case (d_heroState data, sv_heroState sv) of
                                (None, Some h) \<Rightarrow> h | _ \<Rightarrow> heroState s2),
                gameFlags := (case (d_gameFlags data, sv_flags sv) of
                                (None, Some g) \<Rightarrow> g | _ \<Rightarrow> gameFlags s2),
                playTime := (if or_number (d_playTime data) 0 = 0 \<and> sv_playTime sv \<noteq> 0
                             then sv_playTime sv else playTime s2)\<rparr>
         | None \<Rightarrow>
             s2\<lparr>inventory := (case d_inventory data of None \<Rightarrow> createDefaultInventory | Some i \<Rightarrow> i),
                chestStates := (case d_chests data of None \<Rightarrow> Map.empty | Some c \<Rightarrow> c)\<rparr>)"

definition loadTerrain :: "ishetar_map option \<Rightarrow> scene2 \<Rightarrow> js_error + scene2" where
  "loadTerrain mapData s =
     (case mapData of
        None \<Rightarrow> Inr s
      | Some m \<Rightarrow>
          (case openNorthGate (map (map Some) (md_terrain m)) of
             Inl e \<Rightarrow> Inl e
           | Inr t \<Rightarrow> Inr (s\<lparr>terrain := t, mapGridWidth := md_gridWidth m,
                             mapGridHeight := md_gridHeight m\<rparr>)))"

definition create ::
  "scene_data \<Rightarrow> ishetar_map option \<Rightarrow> int \<Rightarrow> scene2 \<Rightarrow> js_error + scene2" where
  "create data mapData now s0 =
     (case loadTerrain mapData (loadState data now s0) of
        Inl e \<Rightarrow> Inl e
      | Inr s \<Rightarrow>
          (let s1 = (placeNPCs s)\<lparr>dialogueRenderer := None\<rparr>
           in case d_levelUps data of
                None \<Rightarrow> Inr s1
              | Some ls \<Rightarrow>
                  if length ls > 0
                  then Inr (s1\<lparr>pendingTimers := pendingTimers s1 @ [LevelUpScreenTimer ls]\<rparr>)
                  else Inr s1))"

text \<open>The scene object as the constructor leaves it.\<close>

definition newIshetarScene2 :: scene2 where
  "newIshetarScene2 =
     \<lparr> playerGridX = 20, playerGridY = 18, playerFacing = Back, heroId = ''vicas'',
       npcs = [], isInDialogue = False, isMoving = False,
       mapGridWidth = 32, mapGridHeight = 32, terrain = [],
       heroState = Map.empty, gameFlags = Map.empty, playTime = 0, sessionStartTime = 0,
       inventory = createDefaultInventory, chestStates = Map.empty,
       pendingHrothgarDialogue = False,
       choiceMenuVisible = False, choiceMenuOptions = [], choiceMenuSelectedIndex = 0,
       choiceMenuCallback = None, devMode = False, selectedSaveSlot = 1,
       saveSlotPreviews = [], levelUpOverlay = None,
       dialogueRenderer = None, pendingTweens = 0, pendingTimers = [], trace = [] \<rparr>"

subsection \<open>What can happen to a running scene\<close>

text \<open>
  The engine calls \<open>update\<close> once per frame, completes a pending move tween, emits
  \<open>resume\<close> when the menu scene returns, and fires a delayed call. \<open>MovePlayerCall\<close>
  is a call of \<open>movePlayer\<close> on its own, with any arguments.
\<close>

datatype event =
    Frame frame
  | MoveTweenDone
  | Resumed
  | TimerFired nat
  | MovePlayerCall int int

definition onResume :: "scene2 \<Rightarrow> scene2" where
  "onResume s =
     (if pendingHrothgarDialogue s
      then s\<lparr>pendingHrothgarDialogue := False,
             pendingTimers := pendingTimers s @ [HrothgarEndingTimer]\<rparr>
      else s)"

definition fireTimer :: "nat \<Rightarrow> scene2 \<Rightarrow> scene2" where
  "fireTimer i s =
     (if i < length (pendingTimers s) then
        (let s1 = s\<lparr>pendingTimers := take i (pendingTimers s) @ drop (Suc i) (pendingTimers s)\<rparr>
         in case pendingTimers s ! i of
              LevelUpScreenTimer ls \<Rightarrow> showLevelUpScreen ls s1
            | HrothgarEndingTimer \<Rightarrow> showHrothgarEndingDialogue s1)
      else s)"

definition step :: "event \<Rightarrow> scene2 \<Rightarrow> scene2" where
  "step e s =
     (case e of
        Frame f \<Rightarrow> update f s
      | MoveTweenDone \<Rightarrow> completeMoveTween s
      | Resumed \<Rightarrow> onResume s
      | TimerFired i \<Rightarrow> fireTimer i s
      | MovePlayerCall dx dy \<Rightarrow> movePlayer dx dy s)"

fun run :: "scene2 \<Rightarrow> event list \<Rightarrow> scene2" where
  "run s [] = s"
| "run s (e # es) = run (step e s) es"

section \<open>TravelScene\<close>

record location_bounds =
  lb_x1 :: int
  lb_y1 :: int
  lb_x2 :: int
  lb_y2 :: int

datatype location_type = Town | Battle | Blocked | Explore

text \<open>A location of the map data; the marker of the scene adds only its sprite.\<close>

record location_marker =
  loc_id :: string
  loc_name :: string
  bounds :: location_bounds
  markerPosition :: "int \<times> int"
  description :: "string list"
  loc_type :: location_type
  battleMap :: "string option"
  exploreMap :: "string option"
  targetScene :: "string option"

record travel_map =
  tm_id :: string
  tm_displayName :: string
  tm_gridWidth :: int
  tm_gridHeight :: int
  tm_terrain :: "int list list"
  tm_playerStart :: "int \<times> int"
  tm_locations :: "location_marker list"

datatype travel_callback =
    TvEndDialogue
  | StartHellhoundBattle
  | TravelTo location_marker

text \<open>
  The fields of the class, prefixed with \<open>tv_\<close>. \<open>choiceMenuCallback\<close> is left out:
  this scene never assigns it. The last four fields are the collaborators' state, as in
  IshetarScene2.
\<close>

record travel =
  tv_playerGridX :: int
  tv_playerGridY :: int
  tv_playerFacing :: facing
  tv_heroId :: string
  tv_locations :: "location_marker list"
  tv_isInDialogue :: bool
  tv_shownBlockedDialogue :: "string set"
  tv_choiceMenuVisible :: bool
  tv_choiceMenuOptions :: "string list"
  tv_choiceMenuSelectedIndex :: int
  tv_isMoving :: bool
  tv_terrain :: "int list list"
  tv_mapGridWidth :: int
  tv_mapGridHeight :: int
  tv_heroState :: hero_states
  tv_gameFlags :: game_flags
  tv_playTime :: int
  tv_inventory :: inventory_state
  tv_chestStates :: chest_states
  tv_devMode :: bool
  tv_levelUpOverlay :: "level_up list option"
  tv_dialogueRenderer :: "travel_callback dialogue_session option"
  tv_pendingTweens :: nat
  tv_pendingTimers :: "level_up list list"
  tv_trace :: "effect list"

subsection \<open>Locations and passability\<close>

definition isWithinBounds :: "int \<Rightarrow> int \<Rightarrow> location_bounds \<Rightarrow> bool" where
  "isWithinBounds gx gy b =
     (gx \<ge> lb_x1 b \<and> gx \<le> lb_x2 b \<and> gy \<ge> lb_y1 b \<and> gy \<le> lb_y2 b)"

definition getLocationAtPosition :: "travel \<Rightarrow> int \<Rightarrow> int \<Rightarrow> location_marker option" where
  "getLocationAtPosition s gx gy =
     find (\<lambda>loc. isWithinBounds gx gy (bounds loc)) (tv_locations s)"

definition tv_terrainAt :: "int list list \<Rightarrow> int \<Rightarrow> int \<Rightarrow> int option" where
  "tv_terrainAt t gx gy =
     (case js_index t gy of None \<Rightarrow> None | Some row \<Rightarrow> js_index row gx)"

definition tv_isPassable :: "travel \<Rightarrow> int \<Rightarrow> int \<Rightarrow> bool" where
  "tv_isPassable s gx gy =
     (if gx < 0 \<or> gx \<ge> tv_mapGridWidth s then False
      else if gy < 0 \<or> gy \<ge> tv_mapGridHeight s then False
      else if tv_terrainAt (tv_terrain s) gx gy = Some 2 then False
      else True)"

definition tv_startDialogue ::
  "string list \<Rightarrow> string \<Rightarrow> travel_callback \<Rightarrow> travel \<Rightarrow> travel" where
  "tv_startDialogue ls name cb s =
     s\<lparr>tv_dialogueRenderer := Some \<lparr>ds_lines = ls, ds_speaker = name, ds_onComplete = cb\<rparr>\<rparr>"

subsection \<open>Triggers\<close>

definition battleSceneData :: "string \<Rightarrow> travel \<Rightarrow> scene_data" where
  "battleSceneData bm s =
     no_data\<lparr>d_battleMap := Some bm, d_heroId := Some (tv_heroId s),
       d_heroState := Some (tv_heroState s), d_gameFlags := Some (tv_gameFlags s),
       d_playTime := Some (tv_playTime s), d_returnScene := Some ''TravelScene'',
       d_returnPosition := Some (tv_playerGridX s, tv_playerGridY s),
       d_inventory := Some (tv_inventory s), d_chests := Some (tv_chestStates s),
       d_devMode := Some (tv_devMode s)\<rparr>"

definition transitionData :: "travel \<Rightarrow> scene_data" where
  "transitionData s =
     no_data\<lparr>d_heroId := Some (tv_heroId s), d_heroState := Some (tv_heroState s),
       d_gameFlags := Some (tv_gameFlags s), d_playTime := Some (tv_playTime s),
       d_inventory := Some (tv_inventory s), d_chests := Some (tv_chestStates s),
       d_devMode := Some (tv_devMode s)\<rparr>"

definition triggerHellhoundAmbush :: "travel \<Rightarrow> travel" where
  "triggerHellhoundAmbush s =
     tv_startDialogue [''...growl...'', ''Something large is hunting you. No, somethings!'']
       ''Wilderness'' StartHellhoundBattle
       (s\<lparr>tv_gameFlags := (tv_gameFlags s)(''hellhound_ambush_triggered'' \<mapsto> True),
          tv_isInDialogue := True\<rparr>)"

text \<open>
  The result says whether the ambush was triggered. The trace entry holds the value of
  \<open>isMoving\<close>, the grid position, and that result.
\<close>

definition checkSpecialTriggers :: "travel \<Rightarrow> bool \<times> travel" where
  "checkSpecialTriggers s =
     (if flag_set (tv_gameFlags s) ''quetzi_shrine_battle_complete'' \<and>
         \<not> flag_set (tv_gameFlags s) ''hellhound_ambush_triggered'' \<and>
         tv_playerGridY s = 19
      then (True, triggerHellhoundAmbush
              (s\<lparr>tv_trace := tv_trace s @
                 [SpecialTriggersChecked (tv_isMoving s) (tv_playerGridX s) (tv_playerGridY s)
                    True]\<rparr>))
      else (False, s\<lparr>tv_trace := tv_trace s @
                 [SpecialTriggersChecked (tv_isMoving s) (tv_playerGridX s) (tv_playerGridY s)
                    False]\<rparr>))"

definition travelToLocation :: "location_marker \<Rightarrow> travel \<Rightarrow> travel" where
  "travelToLocation location s =
     (if loc_type location = Town \<and> or_string (targetScene location) [] \<noteq> [] then
        (let target = (if flag_set (tv_gameFlags s) ''hellhound_cave_battle_complete''
                       then ''IshetarScene3'' else ''IshetarScene2'')
         in s\<lparr>tv_trace := tv_trace s @ [SceneStart target (transitionData s)]\<rparr>)
      else if loc_type location = Battle \<and> or_string (battleMap location) [] \<noteq> [] then
        s\<lparr>tv_trace := tv_trace s @
            [SceneStart ''BattleScene'' (battleSceneData (or_string (battleMap location) []) s)]\<rparr>
      else if loc_type location = Explore \<and> or_string (exploreMap location) [] \<noteq> [] then
        s\<lparr>tv_trace := tv_trace s @
            [SceneStart ''ExploreScene''
               ((transitionData s)\<lparr>d_exploreMap := exploreMap location\<rparr>)]\<rparr>
      else s)"

definition promptLocationInteraction :: "location_marker \<Rightarrow> travel \<Rightarrow> travel" where
  "promptLocationInteraction location s0 =
     (let s = s0\<lparr>tv_isInDialogue := True\<rparr>
      in if loc_id location = ''hunting_paths'' \<and>
            flag_set (tv_gameFlags s) ''quetzi_shrine_battle_complete''
         then tv_startDialogue [''The path is now safe, thanks to you!''] (loc_name location)
                TvEndDialogue s
         else if loc_id location = ''quetzi_shrine'' \<and>
                 flag_set (tv_gameFlags s) ''quetzi_shrine_battle_complete''
         then tv_startDialogue [''The Shrine has been cleansed, thanks to you.'']
                (loc_name location) TvEndDialogue s
         else tv_startDialogue (description location) (loc_name location)
                (TravelTo location) s)"

definition checkLocationProximity :: "travel \<Rightarrow> travel" where
  "checkLocationProximity s0 =
     (let s = s0\<lparr>tv_trace := tv_trace s0 @
                  [LocationProximityChecked (tv_isMoving s0) (tv_playerGridX s0) (tv_playerGridY s0)]\<rparr>
      in case getLocationAtPosition s (tv_playerGridX s) (tv_playerGridY s) of
           None \<Rightarrow> s
         | Some location \<Rightarrow>
             if loc_type location \<noteq> Blocked then promptLocationInteraction location s else s)"

subsection \<open>Movement\<close>

definition tv_startMove :: "int \<Rightarrow> int \<Rightarrow> travel \<Rightarrow> travel" where
  "tv_startMove newGridX newGridY s =
     s\<lparr>tv_isMoving := True,
       tv_playerGridX := newGridX,
       tv_playerGridY := newGridY,
       tv_pendingTweens := Suc (tv_pendingTweens s),
       tv_trace := tv_trace s @ [TweenAdded newGridX newGridY]\<rparr>"

definition tv_movePlayer :: "int \<Rightarrow> int \<Rightarrow> travel \<Rightarrow> travel" where
  "tv_movePlayer dx dy s =
     (if tv_isMoving s \<or> tv_isInDialogue s then s
      else
        let newGridX = tv_playerGridX s + dx;
            newGridY = tv_playerGridY s + dy;
            s1 = s\<lparr>tv_playerFacing :=
                    (if dx > 0 then Right
                     else if dx < 0 then Left
                     else if dy > 0 then Front
                     else if dy < 0 then Back
                     else tv_playerFacing s)\<rparr>
        in if \<not> tv_isPassable s1 newGridX newGridY then s1
           else
             (case getLocationAtPosition s1 newGridX newGridY of
                None \<Rightarrow> tv_startMove newGridX newGridY s1
              | Some targetLocation \<Rightarrow>
                  if loc_type targetLocation = Blocked then
                    (if loc_id targetLocation \<notin> tv_shownBlockedDialogue s1 then
                       tv_startDialogue (description targetLocation) (loc_name targetLocation)
                         TvEndDialogue
                         (s1\<lparr>tv_shownBlockedDialogue :=
                               insert (loc_id targetLocation) (tv_shownBlockedDialogue s1),
                             tv_isInDialogue := True,
                             tv_trace := tv_trace s1 @
                               [BlockedWarningStarted (loc_id targetLocation)]\<rparr>)
                     else s1)
                  else tv_startMove newGridX newGridY s1))"

definition tv_moveTweenOnComplete :: "travel \<Rightarrow> travel" where
  "tv_moveTweenOnComplete s =
     (case checkSpecialTriggers (s\<lparr>tv_isMoving := False\<rparr>) of
        (fired, s1) \<Rightarrow> if fired then s1 else checkLocationProximity s1)"

definition tv_completeMoveTween :: "travel \<Rightarrow> travel" where
  "tv_completeMoveTween s =
     (if tv_pendingTweens s = 0 then s
      else tv_moveTweenOnComplete (s\<lparr>tv_pendingTweens := tv_pendingTweens s - 1\<rparr>))"

subsection \<open>Dialogue, interaction and the frame update\<close>

definition tv_runDialogueCallback :: "travel_callback \<Rightarrow> travel \<Rightarrow> travel" where
  "tv_runDialogueCallback cb s =
     (case cb of
        TvEndDialogue \<Rightarrow> s\<lparr>tv_isInDialogue := False\<rparr>
      | StartHellhoundBattle \<Rightarrow>
          s\<lparr>tv_trace := tv_trace s @
              [SceneStart ''BattleScene'' (battleSceneData ''hellhound_cave'' s)]\<rparr>
      | TravelTo location \<Rightarrow> travelToLocation location s)"

text \<open>Modelled from the spec: \<open>advance\<close> of the DialogueRenderer, as in IshetarScene2.\<close>

definition tv_advance :: "travel \<Rightarrow> travel" where
  "tv_advance s =
     (case tv_dialogueRenderer s of
        None \<Rightarrow> s
      | Some d \<Rightarrow>
          if length (ds_lines d) > 1
          then s\<lparr>tv_dialogueRenderer := Some (d\<lparr>ds_lines := tl (ds_lines d)\<rparr>)\<rparr>
          else tv_runDialogueCallback (ds_onComplete d) (s\<lparr>tv_dialogueRenderer := None\<rparr>))"

definition tv_tryInteract :: "travel \<Rightarrow> travel" where
  "tv_tryInteract s =
     (if tv_isInDialogue s then tv_advance s
      else
        (case getLocationAtPosition s (tv_playerGridX s) (tv_playerGridY s) of
           None \<Rightarrow> s
         | Some location \<Rightarrow>
             if loc_type location \<noteq> Blocked then promptLocationInteraction location s else s))"

definition tv_selectChoiceMenuOption :: "travel \<Rightarrow> travel" where
  "tv_selectChoiceMenuOption s = s\<lparr>tv_choiceMenuVisible := False, tv_isInDialogue := False\<rparr>"

definition tv_update :: "frame \<Rightarrow> travel \<Rightarrow> travel" where
  "tv_update f s =
     (if tv_levelUpOverlay s \<noteq> None \<and> overlayWaiting f then
        (if enterJustDown f then
           (if overlayCompletes f
            then s\<lparr>tv_levelUpOverlay := None, tv_isInDialogue := False\<rparr> else s)
         else s)
      else if escJustDown f then
        s\<lparr>tv_trace := tv_trace s @ [ScenePause, SceneLaunch ''MenuScene''
            (no_data\<lparr>d_heroState := Some (tv_heroState s),
               d_returnScene := Some ''TravelScene'',
               d_inventory := Some (tv_inventory s)\<rparr>)]\<rparr>
      else if tv_choiceMenuVisible s then
        (if upJustDown f then
           s\<lparr>tv_choiceMenuSelectedIndex := max 0 (tv_choiceMenuSelectedIndex s - 1)\<rparr>
         else if downJustDown f then
           s\<lparr>tv_choiceMenuSelectedIndex :=
               min (int (length (tv_choiceMenuOptions s)) - 1)
                   (tv_choiceMenuSelectedIndex s + 1)\<rparr>
         else if enterJustDown f then tv_selectChoiceMenuOption s
         else s)
      else
        (let s1 = (if enterJustDown f then tv_tryInteract s else s)
         in if \<not> tv_isInDialogue s1 \<and> \<not> tv_isMoving s1 then
              (if leftIsDown f then tv_movePlayer (- 1) 0 s1
               else if rightIsDown f then tv_movePlayer 1 0 s1
               else if upIsDown f then tv_movePlayer 0 (- 1) s1
               else if downIsDown f then tv_movePlayer 0 1 s1
               else s1)
            else s1))"

subsection \<open>Scene creation and events\<close>

text \<open>
  \<open>create\<close> on the scene object as the previous run left it. Reading the terrain of a
  map that the cache does not hold throws.
\<close>

definition tv_create :: "scene_data \<Rightarrow> travel_map option \<Rightarrow> travel \<Rightarrow> js_error + travel" where
  "tv_create data mapData s0 =
     (let s1 = s0\<lparr>tv_heroId := or_string (d_heroId data) ''vicas'',
                  tv_heroState := (case d_heroState data of None \<Rightarrow> Map.empty | Some h \<Rightarrow> h),
                  tv_gameFlags := (case d_gameFlags data of None \<Rightarrow> Map.empty | Some g \<Rightarrow> g),
                  tv_playTime := or_number (d_playTime data) 0,
                  tv_inventory := (case d_inventory data of
                                     None \<Rightarrow> createDefaultInventory | Some i \<Rightarrow> i),
                  tv_chestStates := (case d_chests data of None \<Rightarrow> Map.empty | Some c \<Rightarrow> c),
                  tv_devMode := (case d_devMode data of None \<Rightarrow> False | Some b \<Rightarrow> b),
                  tv_shownBlockedDialogue := {},
                  tv_locations := [],
                  tv_isInDialogue := False,
                  tv_isMoving := False,
                  tv_choiceMenuVisible := False,
                  tv_pendingTweens := 0,
                  tv_pendingTimers := []\<rparr>
      in case mapData of
           None \<Rightarrow> Inl TypeError
         | Some m \<Rightarrow>
             (let s2 = s1\<lparr>tv_terrain := tm_terrain m,
                          tv_mapGridWidth := tm_gridWidth m,
                          tv_mapGridHeight := tm_gridHeight m\<rparr>;
                  start = (case d_playerPosition data of
                             None \<Rightarrow> tm_playerStart m | Some p \<Rightarrow> p);
                  s3 = s2\<lparr>tv_playerGridX := fst start, tv_playerGridY := snd start,
                          tv_locations := tv_locations s2 @ tm_locations m,
                          tv_dialogueRenderer := None\<rparr>
              in case d_levelUps data of
                   None \<Rightarrow> Inr s3
                 | Some ls \<Rightarrow>
                     if length ls > 0
                     then Inr (s3\<lparr>tv_pendingTimers := tv_pendingTimers s3 @ [ls]\<rparr>)
                     else Inr s3))"

definition newTravelScene :: travel where
  "newTravelScene =
     \<lparr> tv_playerGridX = 10, tv_playerGridY = 10, tv_playerFacing = Front,
       tv_heroId = ''vicas'', tv_locations = [], tv_isInDialogue = False,
       tv_shownBlockedDialogue = {}, tv_choiceMenuVisible = False,
       tv_choiceMenuOptions = [], tv_choiceMenuSelectedIndex = 0, tv_isMoving = False,
       tv_terrain = [], tv_mapGridWidth = 20, tv_mapGridHeight = 20,
       tv_heroState = Map.empty, tv_gameFlags = Map.empty, tv_playTime = 0,
       tv_inventory = createDefaultInventory, tv_chestStates = Map.empty,
       tv_devMode = False, tv_levelUpOverlay = None, tv_dialogueRenderer = None,
       tv_pendingTweens = 0, tv_pendingTimers = [], tv_trace = [] \<rparr>"

datatype tv_event =
    TvFrame frame
  | TvMoveTweenDone
  | TvTimerFired nat
  | TvMovePlayerCall int int

definition tv_fireTimer :: "nat \<Rightarrow> travel \<Rightarrow> travel" where
  "tv_fireTimer i s =
     (if i < length (tv_pendingTimers s) then
        s\<lparr>tv_pendingTimers := take i (tv_pendingTimers s) @ drop (Suc i) (tv_pendingTimers s),
          tv_isInDialogue := True,
          tv_levelUpOverlay := Some (tv_pendingTimers s ! i)\<rparr>
      else s)"

definition tv_step :: "tv_event \<Rightarrow> travel \<Rightarrow> travel" where
  "tv_step e s =
     (case e of
        TvFrame f \<Rightarrow> tv_update f s
      | TvMoveTweenDone \<Rightarrow> tv_completeMoveTween s
      | TvTimerFired i \<Rightarrow> tv_fireTimer i s
      | TvMovePlayerCall dx dy \<Rightarrow> tv_movePlayer dx dy s)"

fun tv_run :: "travel \<Rightarrow> tv_event list \<Rightarrow> travel" where
  "tv_run s [] = s"
| "tv_run s (e # es) = tv_run (tv_step e s) es"

section \<open>NarratorScene: deleting a save\<close>

text \<open>
  The part of the scene that the save-slot list and its delete confirmation use. A text
  object is its string and its colour; the texts of the slot list itself, the menus of
  the other phases and the portraits are not modelled. \<open>nr_staticDialogue\<close> is the line
  and speaker last given to \<open>dialogueRenderer.showStatic\<close>.
\<close>

datatype phase =
    ModeSelect | Intro | Menu | HeroSelect | Opening | SaveSelect | DeleteConfirm
  | DevSceneSelect

record narrator =
  nr_currentPhase :: phase
  nr_menuSelection :: int
  nr_saveSlotPreviews :: "save_slot_preview list"
  nr_saveSlotSelection :: int
  nr_saveSlotContainerVisible :: bool
  nr_deleteConfirmTexts :: "(string \<times> string) list"
  nr_deleteConfirmSelection :: int
  nr_slotToDelete :: int
  nr_staticDialogue :: "(string \<times> string) option"
  nr_trace :: "effect list"

text \<open>The keys polled in the \<open>delete_confirm\<close> phase, and what the SaveManager answers.\<close>

record narrator_frame =
  nf_leftJustDown :: bool
  nf_rightJustDown :: bool
  nf_enterJustDown :: bool
  nf_escJustDown :: bool
  nf_allSlotPreviews :: "save_slot_preview list"

definition updateDeleteConfirmSelection :: "narrator \<Rightarrow> narrator" where
  "updateDeleteConfirmSelection s =
     s\<lparr>nr_deleteConfirmTexts :=
         map (\<lambda>(index, text). (fst text,
                if int index = nr_deleteConfirmSelection s then ''#ffff00'' else ''#ffffff''))
           (enumerate 0 (nr_deleteConfirmTexts s))\<rparr>"

definition showMainMenu :: "narrator \<Rightarrow> narrator" where
  "showMainMenu s =
     s\<lparr>nr_currentPhase := Menu, nr_menuSelection := 0,
       nr_staticDialogue :=
         Some (''Tell me, have I sent you on a quest already?'', ''Miss Tibbets'')\<rparr>"

definition nr_showSaveSlotSelection :: "narrator \<Rightarrow> narrator" where
  "nr_showSaveSlotSelection s =
     s\<lparr>nr_currentPhase := SaveSelect, nr_saveSlotSelection := 0,
       nr_staticDialogue :=
         Some (''Which tale shall we continue? (Backspace to delete, ESC to go back)'',
               ''Miss Tibbets''),
       nr_saveSlotContainerVisible := True\<rparr>"

text \<open>Reading \<open>isEmpty\<close> of a preview that does not exist throws.\<close>

definition showDeleteConfirmation :: "narrator \<Rightarrow> narrator" where
  "showDeleteConfirmation s =
     (case js_index (nr_saveSlotPreviews s) (nr_saveSlotSelection s) of
        None \<Rightarrow> s\<lparr>nr_trace := nr_trace s @ [Thrown TypeError]\<rparr>
      | Some selectedPreview \<Rightarrow>
          if p_isEmpty selectedPreview then s
          else
            updateDeleteConfirmSelection
              (s\<lparr>nr_slotToDelete := p_slot selectedPreview,
                 nr_currentPhase := DeleteConfirm,
                 nr_deleteConfirmSelection := 1,
                 nr_staticDialogue :=
                   Some (''Delete Slot '' @ show_int (p_slot selectedPreview) @
                         ''? This cannot be undone.'', ''Miss Tibbets''),
                 nr_deleteConfirmTexts := [(''No'', ''#ffff00''), (''Yes'', ''#ffffff'')]\<rparr>))"

definition confirmDelete :: "narrator_frame \<Rightarrow> narrator \<Rightarrow> narrator" where
  "confirmDelete f s0 =
     (let s1 = (if nr_deleteConfirmSelection s0 = 1
                then s0\<lparr>nr_trace := nr_trace s0 @ [SaveManagerDelete (nr_slotToDelete s0)]\<rparr>
                else s0);
          s2 = s1\<lparr>nr_deleteConfirmTexts := [], nr_saveSlotPreviews := nf_allSlotPreviews f\<rparr>;
          hasSaves = list_ex (\<lambda>p. \<not> p_isEmpty p) (nr_saveSlotPreviews s2)
      in if \<not> hasSaves then showMainMenu (s2\<lparr>nr_saveSlotContainerVisible := False\<rparr>)
         else nr_showSaveSlotSelection s2)"

text \<open>
  The branch of \<open>update\<close> for the phase \<open>delete_confirm\<close>: four tests in a row, none
  of them excluding the next.
\<close>

definition updateDeleteConfirm :: "narrator_frame \<Rightarrow> narrator \<Rightarrow> narrator" where
  "updateDeleteConfirm f s0 =
     (let s1 = (if nf_leftJustDown f
                then updateDeleteConfirmSelection (s0\<lparr>nr_deleteConfirmSelection := 0\<rparr>)
                else s0);
          s2 = (if nf_rightJustDown f
                then updateDeleteConfirmSelection (s1\<lparr>nr_deleteConfirmSelection := 1\<rparr>)
                else s1);
          s3 = (if nf_enterJustDown f then confirmDelete f s2 else s2)
      in if nf_escJustDown f
         then nr_showSaveSlotSelection (s3\<lparr>nr_deleteConfirmTexts := []\<rparr>)
         else s3)"

section \<open>Properties of IshetarScene2\<close>

subsection \<open>The player stays on passable tiles\<close>

text \<open>
  \<open>grid\<close> collects what \<open>isPassable\<close> and the position of the player consist of.
  \<open>onPassableTile\<close> says that the tile the player is on passes \<open>isPassable\<close>.
\<close>

definition grid :: "scene2 \<Rightarrow> int \<times> int \<times> int \<times> int \<times> int option list list \<times> npc list" where
  "grid s = (playerGridX s, playerGridY s, mapGridWidth s, mapGridHeight s, terrain s, npcs s)"

definition onPassableTile :: "scene2 \<Rightarrow> bool" where
  "onPassableTile s = isPassable s (playerGridX s) (playerGridY s)"

lemma isPassable_cong:
  "mapGridWidth s' = mapGridWidth s \<Longrightarrow> mapGridHeight s' = mapGridHeight s \<Longrightarrow>
   terrain s' = terrain s \<Longrightarrow> npcs s' = npcs s \<Longrightarrow> isPassable s' x y = isPassable s x y"
  by (simp add: isPassable_def)

lemma onPassableTile_grid:
  assumes "onPassableTile s" and "grid s' = grid s"
  shows "onPassableTile s'"
proof -
  have "isPassable s' (playerGridX s') (playerGridY s') =
        isPassable s (playerGridX s') (playerGridY s')"
    by (rule isPassable_cong) (use assms(2) in \<open>simp_all add: grid_def\<close>)
  then show ?thesis
    using assms by (simp add: onPassableTile_def grid_def)
qed

lemma movePlayer_guard: "isMoving s \<or> isInDialogue s \<Longrightarrow> movePlayer dx dy s = s"
  by (simp add: movePlayer_def)

lemma movePlayer_shape:
  "movePlayer dx dy s =
     (if isMoving s \<or> isInDialogue s then s
      else if \<not> isPassable s (playerGridX s + dx) (playerGridY s + dy)
      then s\<lparr>playerFacing := (if dx > 0 then Right else if dx < 0 then Left
                else if dy > 0 then Front else if dy < 0 then Back else playerFacing s)\<rparr>
      else s\<lparr>playerFacing := (if dx > 0 then Right else if dx < 0 then Left
                else if dy > 0 then Front else if dy < 0 then Back else playerFacing s),
             isMoving := True,
             playerGridX := playerGridX s + dx, playerGridY := playerGridY s + dy,
             pendingTweens := Suc (pendingTweens s),
             trace := trace s @ [TweenAdded (playerGridX s + dx) (playerGridY s + dy)]\<rparr>)"
proof -
  define fc where "fc = (if dx > 0 then Right else if dx < 0 then Left
                else if dy > 0 then Front else if dy < 0 then Back else playerFacing s)"
  have p: "isPassable (s\<lparr>playerFacing := fc\<rparr>) (playerGridX s + dx) (playerGridY s + dy)
             = isPassable s (playerGridX s + dx) (playerGridY s + dy)"
    by (rule isPassable_cong) simp_all
  show ?thesis
    unfolding movePlayer_def Let_def fc_def[symmetric] by (simp only: p) simp
qed

lemma movePlayer_rejected_grid:
  "\<not> isPassable s (playerGridX s + dx) (playerGridY s + dy) \<Longrightarrow> grid (movePlayer dx dy s) = grid s"
  by (simp add: movePlayer_shape grid_def)

lemma movePlayer_onPassableTile:
  assumes "onPassableTile s"
  shows "onPassableTile (movePlayer dx dy s)"
proof -
  consider (guard) "isMoving s \<or> isInDialogue s"
    | (rej) "\<not> isPassable s (playerGridX s + dx) (playerGridY s + dy)"
    | (acc) "\<not> (isMoving s \<or> isInDialogue s)" "isPassable s (playerGridX s + dx) (playerGridY s + dy)"
    by blast
  then show ?thesis
  proof cases
    case guard
    then show ?thesis using assms by (simp add: movePlayer_guard)
  next
    case rej
    then show ?thesis using assms movePlayer_rejected_grid onPassableTile_grid by blast
  next
    case acc
    have "isPassable (movePlayer dx dy s) (playerGridX s + dx) (playerGridY s + dy)
          = isPassable s (playerGridX s + dx) (playerGridY s + dy)"
      by (rule isPassable_cong) (simp_all add: movePlayer_shape)
    moreover have "playerGridX (movePlayer dx dy s) = playerGridX s + dx"
      "playerGridY (movePlayer dx dy s) = playerGridY s + dy"
      using acc by (simp_all add: movePlayer_shape)
    ultimately show ?thesis using acc by (simp add: onPassableTile_def)
  qed
qed

lemma grid_goToTravelMap [simp]: "grid (goToTravelMap s) = grid s"
  by (simp add: grid_def goToTravelMap_def)

lemma grid_checkTriggers [simp]: "grid (checkTriggers s) = grid s"
  by (simp add: checkTriggers_def Let_def) (simp add: grid_def)

lemma grid_completeMoveTween [simp]: "grid (completeMoveTween s) = grid s"
  by (simp add: completeMoveTween_def moveTweenOnComplete_def) (simp add: grid_def)

lemma grid_showChoiceMenu [simp]: "grid (showChoiceMenu os cb s) = grid s"
  by (simp add: grid_def showChoiceMenu_def)

lemma grid_hideChoiceMenu [simp]: "grid (hideChoiceMenu s) = grid s"
  by (simp add: grid_def hideChoiceMenu_def)

lemma grid_startDialogue [simp]: "grid (startDialogue ls n cb s) = grid s"
  by (simp add: grid_def startDialogue_def)

lemma grid_saveGame [simp]: "grid (saveGame f slot s) = grid s"
  by (simp add: saveGame_def Let_def) (simp add: grid_def)

lemma grid_showOverwriteConfirmation [simp]: "grid (showOverwriteConfirmation s) = grid s"
  by (simp add: showOverwriteConfirmation_def Let_def) (simp add: grid_def)

lemma grid_showSaveSlotSelection [simp]: "grid (showSaveSlotSelection f s) = grid s"
  by (simp add: showSaveSlotSelection_def Let_def) (simp add: grid_def)

lemma grid_runChoiceCallback [simp]: "grid (runChoiceCallback f cb c s) = grid s"
  by (simp add: runChoiceCallback_def showShrineSaveMenu_def Let_def
      split: choice_callback.splits option.splits) (simp add: grid_def)

lemma grid_selectChoiceMenuOption [simp]: "grid (selectChoiceMenuOption f s) = grid s"
  by (simp add: selectChoiceMenuOption_def Let_def split: option.splits)

lemma grid_runDialogueCallback [simp]: "grid (runDialogueCallback cb s) = grid s"
  by (simp add: runDialogueCallback_def showShrineSaveMenu_def split: dialogue_callback.splits)
     (simp add: grid_def)

lemma grid_advance [simp]: "grid (advance s) = grid s"
  by (simp add: advance_def split: option.splits) (simp add: grid_def)

lemma grid_startNPCDialogue [simp]: "grid (startNPCDialogue f n s) = grid s"
  by (simp add: startNPCDialogue_def handleShrineInteraction_def Let_def) (simp add: grid_def)

lemma grid_tryInteract [simp]: "grid (tryInteract f s) = grid s"
  by (simp add: tryInteract_def Let_def split: option.splits)

lemma grid_overlayHandleInput [simp]: "grid (overlayHandleInput f s) = grid s"
  by (simp add: overlayHandleInput_def grid_def)

lemma grid_fireTimer [simp]: "grid (fireTimer i s) = grid s"
  by (simp add: fireTimer_def Let_def showLevelUpScreen_def showHrothgarEndingDialogue_def
      split: timer.splits) (simp add: grid_def)

lemma grid_onResume [simp]: "grid (onResume s) = grid s"
  by (simp add: onResume_def grid_def)

lemma grid_index_update [simp]: "grid (s\<lparr>choiceMenuSelectedIndex := i\<rparr>) = grid s"
  by (simp add: grid_def)

lemma grid_trace_update [simp]: "grid (s\<lparr>trace := t\<rparr>) = grid s"
  by (simp add: grid_def)

text \<open>The four branches of \<open>update\<close>, each under the tests that lead to it.\<close>

lemma update_overlay:
  assumes "levelUpOverlay s \<noteq> None \<and> overlayWaiting f"
  shows "update f s = (if enterJustDown f then overlayHandleInput f s else s)"
  by (simp only: update_def if_P[OF assms])

lemma update_esc:
  assumes "\<not> (levelUpOverlay s \<noteq> None \<and> overlayWaiting f)" and "escJustDown f"
  shows "update f s =
     s\<lparr>trace := trace s @ [ScenePause, SceneLaunch ''MenuScene'' (menuSceneData s)]\<rparr>"
  by (simp only: update_def if_not_P[OF assms(1)] if_P[OF assms(2)])

lemma update_menu:
  assumes "\<not> (levelUpOverlay s \<noteq> None \<and> overlayWaiting f)" and "\<not> escJustDown f"
    and "choiceMenuVisible s"
  shows "update f s =
     (if upJustDown f then
        s\<lparr>choiceMenuSelectedIndex := max 0 (choiceMenuSelectedIndex s - 1)\<rparr>
      else if downJustDown f then
        s\<lparr>choiceMenuSelectedIndex :=
            min (int (length (choiceMenuOptions s)) - 1) (choiceMenuSelectedIndex s + 1)\<rparr>
      else if enterJustDown f then selectChoiceMenuOption f s
      else s)"
  by (simp only: update_def if_not_P[OF assms(1)] if_not_P[OF assms(2)] if_P[OF assms(3)])

lemma update_world:
  assumes "\<not> (levelUpOverlay s \<noteq> None \<and> overlayWaiting f)" and "\<not> escJustDown f"
    and "\<not> choiceMenuVisible s"
    and "s1 = (if enterJustDown f then tryInteract f s else s)"
  shows "update f s =
     (if \<not> isInDialogue s1 \<and> \<not> isMoving s1 then
        (if leftIsDown f then movePlayer (- 1) 0 s1
         else if rightIsDown f then movePlayer 1 0 s1
         else if upIsDown f then movePlayer 0 (- 1) s1
         else if downIsDown f then movePlayer 0 1 s1
         else s1)
      else s1)"
  by (simp only: update_def Let_def assms(4) if_not_P[OF assms(1)] if_not_P[OF assms(2)]
      if_not_P[OF assms(3)])

lemma update_branches:
  obtains (overlay) "levelUpOverlay s \<noteq> None \<and> overlayWaiting f"
    | (esc) "\<not> (levelUpOverlay s \<noteq> None \<and> overlayWaiting f)" "escJustDown f"
    | (menu) "\<not> (levelUpOverlay s \<noteq> None \<and> overlayWaiting f)" "\<not> escJustDown f"
        "choiceMenuVisible s"
    | (world) "\<not> (levelUpOverlay s \<noteq> None \<and> overlayWaiting f)" "\<not> escJustDown f"
        "\<not> choiceMenuVisible s"
  by blast

lemma update_onPassableTile:
  assumes inv: "onPassableTile s"
  shows "onPassableTile (update f s)"
proof -
  define s1 where "s1 = (if enterJustDown f then tryInteract f s else s)"
  have "grid s1 = grid s" by (simp add: s1_def)
  then have p1: "onPassableTile s1" using inv onPassableTile_grid by blast
  have pm: "\<And>dx dy. onPassableTile (movePlayer dx dy s1)"
    using p1 by (rule movePlayer_onPassableTile)
  show ?thesis
  proof (cases rule: update_branches[of s f])
    case overlay
    then have "grid (update f s) = grid s" by (simp add: update_overlay)
    then show ?thesis using inv onPassableTile_grid by blast
  next
    case esc
    then have "grid (update f s) = grid s" by (simp add: update_esc)
    then show ?thesis using inv onPassableTile_grid by blast
  next
    case menu
    then have "grid (update f s) = grid s" by (simp add: update_menu)
    then show ?thesis using inv onPassableTile_grid by blast
  next
    case world
    show ?thesis
      unfolding update_world[OF world s1_def] by (simp add: p1 pm)
  qed
qed

lemma step_onPassableTile: "onPassableTile s \<Longrightarrow> onPassableTile (step e s)"
proof (cases e)
  case (Frame f)
  assume "onPassableTile s"
  then show ?thesis using Frame by (simp add: step_def update_onPassableTile)
next
  case MoveTweenDone
  assume "onPassableTile s"
  then show ?thesis using MoveTweenDone onPassableTile_grid[of s "completeMoveTween s"]
    by (simp add: step_def)
next
  case Resumed
  assume "onPassableTile s"
  then show ?thesis using Resumed onPassableTile_grid[of s "onResume s"]
    by (simp add: step_def)
next
  case (TimerFired i)
  assume "onPassableTile s"
  then show ?thesis using TimerFired onPassableTile_grid[of s "fireTimer i s"]
    by (simp add: step_def)
next
  case (MovePlayerCall dx dy)
  assume "onPassableTile s"
  then show ?thesis using MovePlayerCall by (simp add: step_def movePlayer_onPassableTile)
qed

lemma run_onPassableTile: "onPassableTile s \<Longrightarrow> onPassableTile (run s es)"
  by (induction es arbitrary: s) (simp_all add: step_onPassableTile)

subsection \<open>What the choice menu leaves alone\<close>

definition avatar :: "scene2 \<Rightarrow> facing \<times> bool \<times> nat" where
  "avatar s = (playerFacing s, isMoving s, pendingTweens s)"

lemma avatar_saveGame [simp]: "avatar (saveGame f slot s) = avatar s"
  by (simp add: saveGame_def Let_def startDialogue_def) (simp add: avatar_def)

lemma avatar_showOverwriteConfirmation [simp]: "avatar (showOverwriteConfirmation s) = avatar s"
  by (simp add: showOverwriteConfirmation_def Let_def startDialogue_def avatar_def)

lemma avatar_showSaveSlotSelection [simp]: "avatar (showSaveSlotSelection f s) = avatar s"
  by (simp add: showSaveSlotSelection_def Let_def showChoiceMenu_def avatar_def)

lemma avatar_trace_update [simp]: "avatar (s\<lparr>trace := t\<rparr>) = avatar s"
  by (simp add: avatar_def)

lemma avatar_slot_update [simp]: "avatar (s\<lparr>selectedSaveSlot := t\<rparr>) = avatar s"
  by (simp add: avatar_def)

lemma avatar_index_update [simp]: "avatar (s\<lparr>choiceMenuSelectedIndex := t\<rparr>) = avatar s"
  by (simp add: avatar_def)

lemma avatar_hideChoiceMenu [simp]: "avatar (hideChoiceMenu s) = avatar s"
  by (simp add: hideChoiceMenu_def avatar_def)

lemma avatar_runChoiceCallback [simp]: "avatar (runChoiceCallback f cb c s) = avatar s"
  by (simp add: runChoiceCallback_def Let_def split: choice_callback.splits option.splits)

lemma avatar_selectChoiceMenuOption [simp]: "avatar (selectChoiceMenuOption f s) = avatar s"
  by (simp add: selectChoiceMenuOption_def Let_def split: option.splits)

lemma update_menu_avatar:
  assumes "choiceMenuVisible s"
  shows "avatar (update f s) = avatar s \<and> grid (update f s) = grid s"
proof (cases rule: update_branches[of s f])
  case overlay
  then show ?thesis by (simp add: update_overlay overlayHandleInput_def avatar_def grid_def)
next
  case esc
  then show ?thesis by (simp add: update_esc)
next
  case menu
  then show ?thesis by (simp add: update_menu)
next
  case world
  then show ?thesis using assms by simp
qed

subsection \<open>An example town\<close>

text \<open>
  A small map with a wall around it, a difficult tile at \<open>(2, 3)\<close> and the north gate
  still blocked, and the scene \<open>create\<close> makes of it with the player at a given tile.
\<close>

definition demoMap :: ishetar_map where
  "demoMap =
     \<lparr> md_terrain =
         [[2, 2, 2, 2, 2, 2, 2, 2, 2, 2, 2, 2, 2, 2, 2, 2],
          [2, 0, 0, 0, 0, 0, 0, 0, 0, 0, 0, 0, 0, 2, 2, 2],
          [2, 0, 0, 0, 0, 0, 0, 0, 0, 0, 0, 0, 0, 2, 2, 2],
          [2, 0, 1, 0, 0, 0, 0, 0, 0, 0, 0, 0, 0, 0, 0, 2],
          [2, 2, 2, 2, 2, 2, 2, 2, 2, 2, 2, 2, 2, 2, 2, 2]],
       md_gridWidth = 16, md_gridHeight = 5 \<rparr>"

definition demoTownAt :: "int \<Rightarrow> int \<Rightarrow> scene2" where
  "demoTownAt x y =
     (case create no_data (Some demoMap) 0 (newIshetarScene2\<lparr>playerGridX := x, playerGridY := y\<rparr>) of
        Inr s \<Rightarrow> s | Inl e \<Rightarrow> newIshetarScene2)"

text \<open>A frame in which no key is down and the save collaborator has no slots.\<close>

definition idleFrame :: frame where
  "idleFrame =
     \<lparr> escJustDown = False, enterJustDown = False, upJustDown = False, downJustDown = False,
       leftIsDown = False, rightIsDown = False, upIsDown = False, downIsDown = False,
       overlayWaiting = False, overlayCompletes = False, dateNow = 0, isoTimestamp = [],
       saveSucceeds = True, allSlotPreviews = [], restoreAllResources = (\<lambda>h. h) \<rparr>"

lemma demo_terrain: "terrain (demoTownAt x y) = 
      map (map Some) [[2, 2, 2, 2, 2, 2, 2, 2, 2, 2, 2, 2, 2, 2, 2, 2],
          [2, 0, 0, 0, 0, 0, 0, 0, 0, 0, 0, 0, 0, 0, 0, 2],
          [2, 0, 0, 0, 0, 0, 0, 0, 0, 0, 0, 0, 0, 0, 0, 2],
          [2, 0, 1, 0, 0, 0, 0, 0, 0, 0, 0, 0, 0, 0, 0, 2],
          [2, 2, 2, 2, 2, 2, 2, 2, 2, 2, 2, 2, 2, 2, 2, 2]]"
  by (simp add: demoTownAt_def create_def loadTerrain_def loadState_def demoMap_def no_data_def
      openNorthGate_def storeWalkable_def js_store_def placeNPCs_def newIshetarScene2_def
      or_string_def or_number_def Let_def)

lemma demo_flags: "isMoving (demoTownAt x y) = False" "isInDialogue (demoTownAt x y) = False"
  "playerGridX (demoTownAt x y) = x" "playerGridY (demoTownAt x y) = y"
  "mapGridWidth (demoTownAt x y) = 16" "mapGridHeight (demoTownAt x y) = 5"
  "trace (demoTownAt x y) = []" "pendingTweens (demoTownAt x y) = 0"
  "choiceMenuVisible (demoTownAt x y) = False"
  by (simp_all add: demoTownAt_def create_def loadTerrain_def loadState_def demoMap_def no_data_def
      openNorthGate_def storeWalkable_def js_store_def placeNPCs_def newIshetarScene2_def
      or_string_def or_number_def Let_def)

lemma demo_npcs: "map (\<lambda>n. (gridX n, gridY n)) (npcs (demoTownAt x y)) =
   [(22, 5), (21, 5), (14, 3), (25, 11), (8, 4), (9, 9), (9, 15), (15, 18), (22, 15), (12, 15),
    (20, 3), (17, 10), (19, 10), (17, 12), (19, 12)]"
  by (simp add: demoTownAt_def create_def loadTerrain_def loadState_def demoMap_def no_data_def
      openNorthGate_def storeWalkable_def js_store_def placeNPCs_def newIshetarScene2_def
      or_string_def or_number_def Let_def npcData_def mkNpc_def allHeroes_def heroPositions_def)


lemma isPassable_facing [simp]:
  "isPassable (s\<lparr>playerFacing := fc\<rparr>) x y = isPassable s x y"
  by (rule isPassable_cong) simp_all

lemma list_ex_npc_positions:
  "list_ex (\<lambda>n. gridX n = x \<and> gridY n = y) ns = ((x, y) \<in> set (map (\<lambda>n. (gridX n, gridY n)) ns))"
  by (induction ns) auto

lemma demo_npc_at:
  "list_ex (\<lambda>n. gridX n = a \<and> gridY n = b) (npcs (demoTownAt x y)) =
   ((a, b) \<in> set [(22, 5), (21, 5), (14, 3), (25, 11), (8, 4), (9, 9), (9, 15), (15, 18),
      (22, 15), (12, 15), (20, 3), (17, 10), (19, 10), (17, 12), (19, 12)])"
  by (simp only: list_ex_npc_positions demo_npcs)

lemma demo_isPassable:
  "isPassable (demoTownAt x y) 13 3" "isPassable (demoTownAt x y) 13 2"
  "\<not> isPassable (demoTownAt x y) 14 3" "\<not> isPassable (demoTownAt x y) 13 4"
  "isPassable (demoTownAt x y) 2 3" "isPassable (demoTownAt x y) 13 1"
  by (simp_all add: isPassable_def demo_flags demo_terrain demo_npc_at terrainAt_def js_index_def)

text \<open>
  Claim C1. From any scene state whose player tile passes \<open>isPassable\<close>, after any
  sequence of \<open>movePlayer\<close> calls, frame updates, tween completions, resumes and
  delayed calls the player's tile still passes \<open>isPassable\<close>: its terrain value is not
  2 and no NPC stands on it. A call of \<open>movePlayer\<close> changes the grid position only to
  the target tile, and only when \<open>isPassable\<close> holds for the target.
\<close>

theorem player_never_rests_on_blocked_tile:
  assumes "isPassable s (playerGridX s) (playerGridY s)"
  shows "isPassable (run s es) (playerGridX (run s es)) (playerGridY (run s es)) \<and>
         terrainAt (terrain (run s es)) (playerGridX (run s es)) (playerGridY (run s es)) \<noteq> Some 2 \<and>
         \<not> list_ex (\<lambda>n. gridX n = playerGridX (run s es) \<and> gridY n = playerGridY (run s es))
             (npcs (run s es)) \<and>
         ((playerGridX (movePlayer dx dy s), playerGridY (movePlayer dx dy s)) \<noteq>
            (playerGridX s, playerGridY s) \<longrightarrow>
          isPassable s (playerGridX s + dx) (playerGridY s + dy) \<and>
          playerGridX (movePlayer dx dy s) = playerGridX s + dx \<and>
          playerGridY (movePlayer dx dy s) = playerGridY s + dy)"
proof -
  have "onPassableTile (run s es)"
    using assms run_onPassableTile[of s es] by (simp add: onPassableTile_def)
  then have p: "isPassable (run s es) (playerGridX (run s es)) (playerGridY (run s es))"
    by (simp add: onPassableTile_def)
  then have "terrainAt (terrain (run s es)) (playerGridX (run s es)) (playerGridY (run s es)) \<noteq> Some 2"
    and "\<not> list_ex (\<lambda>n. gridX n = playerGridX (run s es) \<and> gridY n = playerGridY (run s es))
             (npcs (run s es))"
    by (simp_all add: isPassable_def split: if_splits)
  moreover have "(playerGridX (movePlayer dx dy s), playerGridY (movePlayer dx dy s)) \<noteq>
            (playerGridX s, playerGridY s) \<longrightarrow>
          isPassable s (playerGridX s + dx) (playerGridY s + dy) \<and>
          playerGridX (movePlayer dx dy s) = playerGridX s + dx \<and>
          playerGridY (movePlayer dx dy s) = playerGridY s + dy"
    by (simp add: movePlayer_shape)
  ultimately show ?thesis using p by blast
qed

theorem player_never_rests_on_blocked_tile_witness:
  "isPassable (demoTownAt 13 3) (playerGridX (demoTownAt 13 3)) (playerGridY (demoTownAt 13 3)) \<and>
   playerGridX (run (demoTownAt 13 3)
      [MovePlayerCall 1 0, MovePlayerCall 0 1, MovePlayerCall 0 (- 1), MoveTweenDone]) = 13 \<and>
   playerGridY (run (demoTownAt 13 3)
      [MovePlayerCall 1 0, MovePlayerCall 0 1, MovePlayerCall 0 (- 1), MoveTweenDone]) = 2 \<and>
   isPassable (run (demoTownAt 13 3)
      [MovePlayerCall 1 0, MovePlayerCall 0 1, MovePlayerCall 0 (- 1), MoveTweenDone]) 13 2"
proof -
  let ?es = "[MovePlayerCall 1 0, MovePlayerCall 0 1, MovePlayerCall 0 (- 1), MoveTweenDone]"
  have h: "isPassable (demoTownAt 13 3) (playerGridX (demoTownAt 13 3)) (playerGridY (demoTownAt 13 3))"
    by (simp add: demo_flags demo_isPassable)
  have x: "playerGridX (run (demoTownAt 13 3) ?es) = 13"
    and y: "playerGridY (run (demoTownAt 13 3) ?es) = 2"
    by (simp_all add: step_def movePlayer_shape demo_flags demo_isPassable
        completeMoveTween_def moveTweenOnComplete_def checkTriggers_def goToTravelMap_def
        northGateTiles_def Let_def)
  show ?thesis
    using h x y player_never_rests_on_blocked_tile[OF h, of ?es 0 0] by simp
qed

subsection \<open>Accepting and rejecting a move\<close>

lemma isPassable_iff:
  "isPassable s x y \<longleftrightarrow>
     \<not> (x < 0 \<or> x \<ge> mapGridWidth s \<or> y < 0 \<or> y \<ge> mapGridHeight s \<or>
        terrainAt (terrain s) x y = Some 2 \<or>
        list_ex (\<lambda>n. gridX n = x \<and> gridY n = y) (npcs s))"
  by (simp add: isPassable_def)

lemma tv_isPassable_iff:
  "tv_isPassable t x y \<longleftrightarrow>
     \<not> (x < 0 \<or> x \<ge> tv_mapGridWidth t \<or> y < 0 \<or> y \<ge> tv_mapGridHeight t \<or>
        tv_terrainAt (tv_terrain t) x y = Some 2)"
  by (simp add: tv_isPassable_def)

text \<open>
  Claim C3. When no move animation runs and no dialogue is open, \<open>movePlayer\<close> rejects
  the move (the grid position stays, \<open>isMoving\<close> stays false, no tween is added)
  exactly when the target tile is outside the grid, has terrain value 2, or holds an NPC.
  A target inside the grid with terrain value 1 and no NPC is accepted: the position is
  committed, \<open>isMoving\<close> is set and one tween towards the target is added. The
  \<open>isPassable\<close> of the travel map has the same bounds and terrain tests and no NPC
  test.
\<close>

theorem move_rejected_iff_blocked:
  assumes "\<not> isMoving s" and "\<not> isInDialogue s"
  shows
    "((playerGridX (movePlayer dx dy s) = playerGridX s \<and>
       playerGridY (movePlayer dx dy s) = playerGridY s \<and>
       \<not> isMoving (movePlayer dx dy s) \<and>
       pendingTweens (movePlayer dx dy s) = pendingTweens s \<and>
       trace (movePlayer dx dy s) = trace s)
      \<longleftrightarrow>
      (playerGridX s + dx < 0 \<or> playerGridX s + dx \<ge> mapGridWidth s \<or>
       playerGridY s + dy < 0 \<or> playerGridY s + dy \<ge> mapGridHeight s \<or>
       terrainAt (terrain s) (playerGridX s + dx) (playerGridY s + dy) = Some 2 \<or>
       list_ex (\<lambda>n. gridX n = playerGridX s + dx \<and> gridY n = playerGridY s + dy) (npcs s)))
     \<and>
     (0 \<le> playerGridX s + dx \<and> playerGridX s + dx < mapGridWidth s \<and>
      0 \<le> playerGridY s + dy \<and> playerGridY s + dy < mapGridHeight s \<and>
      terrainAt (terrain s) (playerGridX s + dx) (playerGridY s + dy) = Some 1 \<and>
      \<not> list_ex (\<lambda>n. gridX n = playerGridX s + dx \<and> gridY n = playerGridY s + dy) (npcs s)
      \<longrightarrow>
      playerGridX (movePlayer dx dy s) = playerGridX s + dx \<and>
      playerGridY (movePlayer dx dy s) = playerGridY s + dy \<and>
      isMoving (movePlayer dx dy s) \<and>
      pendingTweens (movePlayer dx dy s) = Suc (pendingTweens s) \<and>
      trace (movePlayer dx dy s) =
        trace s @ [TweenAdded (playerGridX s + dx) (playerGridY s + dy)])
     \<and>
     (tv_isPassable t x y \<longleftrightarrow>
        \<not> (x < 0 \<or> x \<ge> tv_mapGridWidth t \<or> y < 0 \<or> y \<ge> tv_mapGridHeight t \<or>
           tv_terrainAt (tv_terrain t) x y = Some 2))"
proof (cases "isPassable s (playerGridX s + dx) (playerGridY s + dy)")
  case True
  then have m: "movePlayer dx dy s = 
      s\<lparr>playerFacing := (if dx > 0 then Right else if dx < 0 then Left
                else if dy > 0 then Front else if dy < 0 then Back else playerFacing s),
             isMoving := True,
             playerGridX := playerGridX s + dx, playerGridY := playerGridY s + dy,
             pendingTweens := Suc (pendingTweens s),
             trace := trace s @ [TweenAdded (playerGridX s + dx) (playerGridY s + dy)]\<rparr>"
    using assms by (simp add: movePlayer_shape)
  show ?thesis
    using True unfolding m isPassable_iff tv_isPassable_iff by simp
next
  case False
  then have m: "movePlayer dx dy s = 
      s\<lparr>playerFacing := (if dx > 0 then Right else if dx < 0 then Left
                else if dy > 0 then Front else if dy < 0 then Back else playerFacing s)\<rparr>"
    using assms by (simp add: movePlayer_shape)
  show ?thesis
    using False assms unfolding m isPassable_iff tv_isPassable_iff by auto
qed

theorem move_rejected_iff_blocked_witness:
  "\<not> isMoving (demoTownAt 3 3) \<and> \<not> isInDialogue (demoTownAt 3 3) \<and>
   terrainAt (terrain (demoTownAt 3 3)) 2 3 = Some 1 \<and>
   playerGridX (movePlayer (- 1) 0 (demoTownAt 3 3)) = 2 \<and>
   playerGridY (movePlayer (- 1) 0 (demoTownAt 3 3)) = 3 \<and>
   isMoving (movePlayer (- 1) 0 (demoTownAt 3 3)) \<and>
   trace (movePlayer (- 1) 0 (demoTownAt 3 3)) = [TweenAdded 2 3] \<and>
   terrainAt (terrain (demoTownAt 3 3)) 3 4 = Some 2 \<and>
   playerGridX (movePlayer 0 1 (demoTownAt 3 3)) = 3 \<and>
   playerGridY (movePlayer 0 1 (demoTownAt 3 3)) = 3 \<and>
   \<not> isMoving (movePlayer 0 1 (demoTownAt 3 3)) \<and>
   trace (movePlayer 0 1 (demoTownAt 3 3)) = []"
proof -
  have h1: "\<not> isMoving (demoTownAt 3 3)" and h2: "\<not> isInDialogue (demoTownAt 3 3)"
    by (simp_all add: demo_flags)
  have t: "terrainAt (terrain (demoTownAt 3 3)) 2 3 = Some 1"
     "terrainAt (terrain (demoTownAt 3 3)) 3 4 = Some 2"
    by (simp_all add: demo_terrain terrainAt_def js_index_def)
  have n: "\<not> list_ex (\<lambda>n. gridX n = 2 \<and> gridY n = 3) (npcs (demoTownAt 3 3))"
    by (simp add: demo_npc_at)
  show ?thesis
    using h1 h2 t n
      move_rejected_iff_blocked[OF h1 h2, of "- 1" 0]
      move_rejected_iff_blocked[OF h1 h2, of 0 1]
    by (simp add: demo_flags)
qed

text \<open>
  The example town with the player at \<open>(8, 3)\<close>, after five frames: the down key turns
  the player towards the shrine at \<open>(8, 4)\<close>, and four presses of the confirm key open
  the shrine's dialogue, show its second line, open the \<open>['Yes', 'No']\<close> menu, and choose
  \<open>'Yes'\<close>, which opens the save-slot menu.
\<close>

definition slotMenuTown :: scene2 where
  "slotMenuTown =
     run (demoTownAt 8 3)
       [Frame (idleFrame\<lparr>downIsDown := True\<rparr>),
        Frame (idleFrame\<lparr>enterJustDown := True\<rparr>),
        Frame (idleFrame\<lparr>enterJustDown := True\<rparr>),
        Frame (idleFrame\<lparr>enterJustDown := True\<rparr>),
        Frame (idleFrame\<lparr>enterJustDown := True\<rparr>)]"

lemma demo_shrine:
  "levelUpOverlay (demoTownAt x y) = None" "dialogueRenderer (demoTownAt x y) = None"
  "playerFacing (demoTownAt x y) = Back"
  "find (\<lambda>n. gridX n = 8 \<and> gridY n = 4) (npcs (demoTownAt x y)) =
     Some (mkNpc ''pelor'' ''Shrine'' 8 4
       [''*You burn your offering at the shrine. You find yourself fully rested.*''])"
  by (simp_all add: demoTownAt_def create_def loadTerrain_def loadState_def demoMap_def no_data_def
      openNorthGate_def storeWalkable_def js_store_def placeNPCs_def newIshetarScene2_def
      or_string_def or_number_def Let_def npcData_def mkNpc_def allHeroes_def heroPositions_def)

lemma demo_shrine_tiles:
  "\<not> isPassable (demoTownAt x y) 8 4" "isPassable (demoTownAt x y) 9 3"
  by (simp_all add: isPassable_def demo_flags demo_terrain demo_npc_at terrainAt_def js_index_def)

lemma slotMenuTown_eq:
  "slotMenuTown =
     (demoTownAt 8 3)\<lparr>playerFacing := Front, isInDialogue := False,
        heroState := heroState (demoTownAt 8 3), dialogueRenderer := None,
        saveSlotPreviews := [],
        choiceMenuOptions := [''Cancel''], choiceMenuCallback := Some SaveSlotChoice,
        choiceMenuSelectedIndex := 0, choiceMenuVisible := True\<rparr>"
  by (simp add: slotMenuTown_def step_def update_def Let_def idleFrame_def demo_flags demo_shrine
      demo_shrine_tiles movePlayer_shape tryInteract_def facingOffsets_def startNPCDialogue_def
      handleShrineInteraction_def startDialogue_def mkNpc_def isDialogueActive_def advance_def
      runDialogueCallback_def showShrineSaveMenu_def showChoiceMenu_def selectChoiceMenuOption_def
      hideChoiceMenu_def js_index_def runChoiceCallback_def showSaveSlotSelection_def)

text \<open>
  Claim C4 as stated fails while the save-slot menu is shown: \<open>hideChoiceMenu\<close> has
  cleared \<open>isInDialogue\<close> before the menu opened, so with the menu visible a call of
  \<open>movePlayer\<close> is no no-op: it turns the player and starts the move to \<open>(9, 3)\<close>.
\<close>

theorem movePlayer_acts_behind_slot_menu_counterexample:
  "choiceMenuVisible slotMenuTown \<and> choiceMenuOptions slotMenuTown = [''Cancel''] \<and>
   \<not> isMoving slotMenuTown \<and> \<not> isInDialogue slotMenuTown \<and>
   playerGridX slotMenuTown = 8 \<and> playerGridY slotMenuTown = 3 \<and>
   playerFacing slotMenuTown = Front \<and>
   playerFacing (movePlayer 1 0 slotMenuTown) = Right \<and>
   playerGridX (movePlayer 1 0 slotMenuTown) = 9 \<and>
   playerGridY (movePlayer 1 0 slotMenuTown) = 3 \<and>
   isMoving (movePlayer 1 0 slotMenuTown) \<and>
   trace (movePlayer 1 0 slotMenuTown) = [TweenAdded 9 3]"
proof -
  have p: "isPassable slotMenuTown 9 3"
    unfolding slotMenuTown_eq
    by (rule isPassable_cong[THEN iffD2, OF _ _ _ _ demo_shrine_tiles(2)[of 8 3]]) simp_all
  show ?thesis
    using p by (simp add: movePlayer_shape) (simp add: slotMenuTown_eq demo_flags)
qed

text \<open>
  Claim C4, amended. When \<open>isMoving\<close> and \<open>isInDialogue\<close> are false, \<open>movePlayer\<close>
  with a unit vector sets the facing direction from the sign of \<open>dx\<close>, then of
  \<open>dy\<close>, whether or not the move is then rejected. When a move animation runs or
  \<open>isInDialogue\<close> is set the call returns the state as it was. A visible choice menu
  does not make the call a no-op; it is \<open>update\<close> that calls \<open>movePlayer\<close> on no
  frame on which the choice menu is visible, so that such a frame update changes neither
  facing nor position and starts no move.
\<close>

theorem facing_follows_every_attempt:
  "(\<not> isMoving s \<and> \<not> isInDialogue s \<and> (dx, dy) \<in> {(1, 0), (- 1, 0), (0, 1), (0, - 1)} \<longrightarrow>
      playerFacing (movePlayer dx dy s) =
        (if dx > 0 then Right else if dx < 0 then Left else if dy > 0 then Front else Back))
   \<and> (isMoving s \<or> isInDialogue s \<longrightarrow> movePlayer dx dy s = s)
   \<and> (choiceMenuVisible s \<longrightarrow>
        playerFacing (update f s) = playerFacing s \<and>
        playerGridX (update f s) = playerGridX s \<and>
        playerGridY (update f s) = playerGridY s \<and>
        isMoving (update f s) = isMoving s \<and>
        pendingTweens (update f s) = pendingTweens s)"
proof -
  have a: "\<not> isMoving s \<and> \<not> isInDialogue s \<and> (dx, dy) \<in> {(1, 0), (- 1, 0), (0, 1), (0, - 1)} \<longrightarrow>
      playerFacing (movePlayer dx dy s) =
        (if dx > 0 then Right else if dx < 0 then Left else if dy > 0 then Front else Back)"
    by (auto simp: movePlayer_shape)
  have b: "isMoving s \<or> isInDialogue s \<longrightarrow> movePlayer dx dy s = s"
    using movePlayer_guard by blast
  have c: "choiceMenuVisible s \<longrightarrow>
        playerFacing (update f s) = playerFacing s \<and>
        playerGridX (update f s) = playerGridX s \<and>
        playerGridY (update f s) = playerGridY s \<and>
        isMoving (update f s) = isMoving s \<and>
        pendingTweens (update f s) = pendingTweens s"
    using update_menu_avatar[of s f] by (simp add: avatar_def grid_def)
  show ?thesis using a b c by blast
qed

theorem facing_follows_every_attempt_witness:
  "\<not> isMoving (demoTownAt 13 3) \<and> \<not> isInDialogue (demoTownAt 13 3) \<and>
   \<not> isPassable (demoTownAt 13 3) 14 3 \<and>
   playerFacing (demoTownAt 13 3) = Back \<and>
   playerFacing (movePlayer 1 0 (demoTownAt 13 3)) = Right \<and>
   playerGridX (movePlayer 1 0 (demoTownAt 13 3)) = 13 \<and>
   movePlayer 1 0 ((demoTownAt 13 3)\<lparr>isInDialogue := True\<rparr>) = (demoTownAt 13 3)\<lparr>isInDialogue := True\<rparr> \<and>
   movePlayer 1 0 ((demoTownAt 13 3)\<lparr>isMoving := True\<rparr>) = (demoTownAt 13 3)\<lparr>isMoving := True\<rparr> \<and>
   playerFacing (update \<lparr>escJustDown = False, enterJustDown = False, upJustDown = False,
         downJustDown = False, leftIsDown = False, rightIsDown = True, upIsDown = False,
         downIsDown = False, overlayWaiting = False, overlayCompletes = False, dateNow = 0,
         isoTimestamp = [], saveSucceeds = True, allSlotPreviews = [],
         restoreAllResources = (\<lambda>h. h)\<rparr>
       (showShrineSaveMenu (demoTownAt 13 3))) = Back"
proof -
  let ?s = "demoTownAt 13 3"
  let ?f = "\<lparr>escJustDown = False, enterJustDown = False, upJustDown = False,
         downJustDown = False, leftIsDown = False, rightIsDown = True, upIsDown = False,
         downIsDown = False, overlayWaiting = False, overlayCompletes = False, dateNow = 0,
         isoTimestamp = [], saveSucceeds = True, allSlotPreviews = [],
         restoreAllResources = (\<lambda>h. h)\<rparr>"
  have h: "\<not> isMoving ?s" "\<not> isInDialogue ?s" "\<not> isPassable ?s 14 3"
    by (simp_all add: demo_flags demo_isPassable)
  have fc: "playerFacing ?s = Back"
    by (simp add: demoTownAt_def create_def loadTerrain_def loadState_def demoMap_def no_data_def
      openNorthGate_def storeWalkable_def js_store_def placeNPCs_def newIshetarScene2_def
      or_string_def or_number_def Let_def)
  have v: "choiceMenuVisible (showShrineSaveMenu ?s)"
    "playerFacing (showShrineSaveMenu ?s) = playerFacing ?s"
    by (simp_all add: showShrineSaveMenu_def showChoiceMenu_def)
  have x: "playerGridX (movePlayer 1 0 ?s) = 13"
    using h by (simp add: movePlayer_shape demo_flags)
  show ?thesis
    using h fc v x
      facing_follows_every_attempt[of ?s 1 0 ?f]
      facing_follows_every_attempt[of "?s\<lparr>isInDialogue := True\<rparr>" 1 0 ?f]
      facing_follows_every_attempt[of "?s\<lparr>isMoving := True\<rparr>" 1 0 ?f]
      facing_follows_every_attempt[of "showShrineSaveMenu ?s" 1 0 ?f]
    by simp
qed

subsection \<open>Counting accepted moves and trigger evaluations\<close>

text \<open>
  In a trace, an accepted move is a \<open>TweenAdded\<close> entry and a trigger evaluation is a
  \<open>TriggersChecked\<close> entry (IshetarScene2) or a \<open>SpecialTriggersChecked\<close> entry
  (TravelScene, whose evaluation goes on to \<open>checkLocationProximity\<close> when no special
  trigger fired). \<open>ranWhileMoving\<close> reads the value \<open>isMoving\<close> had at a check.
  \<open>tally\<close> collects what the counting looks at; a scene is \<open>settled\<close> when every
  accepted move either still has its tween pending or has had one trigger evaluation, and
  no check ran while \<open>isMoving\<close> was true.
\<close>

fun isTweenAdded :: "effect \<Rightarrow> bool" where
  "isTweenAdded (TweenAdded x y) = True"
| "isTweenAdded e = False"

fun isTriggerEvaluation :: "effect \<Rightarrow> bool" where
  "isTriggerEvaluation (TriggersChecked m x y) = True"
| "isTriggerEvaluation (SpecialTriggersChecked m x y r) = True"
| "isTriggerEvaluation e = False"

fun ranWhileMoving :: "effect \<Rightarrow> bool" where
  "ranWhileMoving (TriggersChecked m x y) = m"
| "ranWhileMoving (SpecialTriggersChecked m x y r) = m"
| "ranWhileMoving (LocationProximityChecked m x y) = m"
| "ranWhileMoving e = False"

definition acceptedMoves :: "effect list \<Rightarrow> nat" where
  "acceptedMoves tr = length (filter isTweenAdded tr)"

definition triggerEvaluations :: "effect list \<Rightarrow> nat" where
  "triggerEvaluations tr = length (filter isTriggerEvaluation tr)"

definition tally :: "scene2 \<Rightarrow> nat \<times> nat \<times> nat \<times> bool" where
  "tally s = (pendingTweens s, acceptedMoves (trace s), triggerEvaluations (trace s),
              list_ex ranWhileMoving (trace s))"

lemma tally_eq:
  "pendingTweens s' = pendingTweens s \<Longrightarrow> filter isTweenAdded (trace s') = filter isTweenAdded (trace s) \<Longrightarrow>
   filter isTriggerEvaluation (trace s') = filter isTriggerEvaluation (trace s) \<Longrightarrow>
   list_ex ranWhileMoving (trace s') = list_ex ranWhileMoving (trace s) \<Longrightarrow> tally s' = tally s"
  by (simp add: tally_def acceptedMoves_def triggerEvaluations_def)

lemma tally_startDialogue [simp]: "tally (startDialogue ls n cb s) = tally s"
  by (simp add: tally_def startDialogue_def)

lemma tally_showChoiceMenu [simp]: "tally (showChoiceMenu os cb s) = tally s"
  by (simp add: tally_def showChoiceMenu_def)

lemma tally_hideChoiceMenu [simp]: "tally (hideChoiceMenu s) = tally s"
  by (simp add: tally_def hideChoiceMenu_def)

lemma tally_saveGame [simp]: "tally (saveGame f slot s) = tally s"
  by (rule tally_eq) (simp_all add: saveGame_def Let_def startDialogue_def)

lemma tally_showOverwriteConfirmation [simp]: "tally (showOverwriteConfirmation s) = tally s"
  by (rule tally_eq) (simp_all add: showOverwriteConfirmation_def Let_def startDialogue_def)

lemma tally_showSaveSlotSelection [simp]: "tally (showSaveSlotSelection f s) = tally s"
  by (rule tally_eq) (simp_all add: showSaveSlotSelection_def Let_def showChoiceMenu_def)

lemma tally_thrown [simp]: "tally (s\<lparr>trace := trace s @ [Thrown e]\<rparr>) = tally s"
  by (rule tally_eq) simp_all

lemma tally_slot_update [simp]: "tally (s\<lparr>selectedSaveSlot := t\<rparr>) = tally s"
  by (simp add: tally_def)

lemma tally_index_update [simp]: "tally (s\<lparr>choiceMenuSelectedIndex := t\<rparr>) = tally s"
  by (simp add: tally_def)

lemma tally_dialogue_update [simp]: "tally (s\<lparr>isInDialogue := t\<rparr>) = tally s"
  by (simp add: tally_def)

lemma tally_renderer_update [simp]: "tally (s\<lparr>dialogueRenderer := t\<rparr>) = tally s"
  by (simp add: tally_def)

lemma tally_runChoiceCallback [simp]: "tally (runChoiceCallback f cb c s) = tally s"
  by (simp add: runChoiceCallback_def Let_def split: choice_callback.splits option.splits)

lemma tally_selectChoiceMenuOption [simp]: "tally (selectChoiceMenuOption f s) = tally s"
  by (simp add: selectChoiceMenuOption_def Let_def split: option.splits)

lemma tally_runDialogueCallback [simp]: "tally (runDialogueCallback cb s) = tally s"
proof (cases cb)
  case OpenHrothgarMenu
  then show ?thesis by (simp add: runDialogueCallback_def tally_def acceptedMoves_def
        triggerEvaluations_def)
qed (simp_all add: runDialogueCallback_def showShrineSaveMenu_def)

lemma tally_advance [simp]: "tally (advance s) = tally s"
  by (simp add: advance_def split: option.splits)

lemma tally_startNPCDialogue [simp]: "tally (startNPCDialogue f n s) = tally s"
  by (simp add: startNPCDialogue_def handleShrineInteraction_def Let_def) (simp add: tally_def)

lemma tally_tryInteract [simp]: "tally (tryInteract f s) = tally s"
  by (simp add: tryInteract_def Let_def split: option.splits)

lemma tally_overlayHandleInput [simp]: "tally (overlayHandleInput f s) = tally s"
  by (simp add: overlayHandleInput_def tally_def)

lemma tally_fireTimer [simp]: "tally (fireTimer i s) = tally s"
  by (simp add: fireTimer_def Let_def showLevelUpScreen_def showHrothgarEndingDialogue_def
      split: timer.splits) (simp add: tally_def)

lemma tally_onResume [simp]: "tally (onResume s) = tally s"
  by (simp add: onResume_def tally_def)

lemma tally_esc [simp]:
  "tally (s\<lparr>trace := trace s @ [ScenePause, SceneLaunch n d]\<rparr>) = tally s"
  by (rule tally_eq) simp_all

definition settled :: "scene2 \<Rightarrow> bool" where
  "settled s =
     (triggerEvaluations (trace s) + pendingTweens s = acceptedMoves (trace s) \<and>
      \<not> list_ex ranWhileMoving (trace s))"

lemma settled_tally: "settled s \<Longrightarrow> tally s' = tally s \<Longrightarrow> settled s'"
  by (simp add: settled_def tally_def)

lemma movePlayer_settled: "settled s \<Longrightarrow> settled (movePlayer dx dy s)"
  by (simp add: movePlayer_shape settled_def acceptedMoves_def triggerEvaluations_def)

lemma checkTriggers_trace:
  "trace (checkTriggers s) =
     trace s @ TriggersChecked (isMoving s) (playerGridX s) (playerGridY s) #
       (if list_ex (\<lambda>(x, y). x = playerGridX s \<and> y = playerGridY s) northGateTiles
        then [SceneStart ''TravelScene''
          (no_data\<lparr>d_heroId := Some (heroId s), d_heroState := Some (heroState s),
            d_gameFlags := Some (gameFlags s), d_playTime := Some (playTime s),
            d_inventory := Some (inventory s), d_chests := Some (chestStates s),
            d_devMode := Some (devMode s)\<rparr>)]
        else [])"
  by (simp add: checkTriggers_def goToTravelMap_def Let_def)

lemma checkTriggers_other [simp]:
  "pendingTweens (checkTriggers s) = pendingTweens s"
  "isMoving (checkTriggers s) = isMoving s"
  "playerGridX (checkTriggers s) = playerGridX s"
  "playerGridY (checkTriggers s) = playerGridY s"
  by (simp_all add: checkTriggers_def goToTravelMap_def Let_def)

lemma completeMoveTween_settled: "settled s \<Longrightarrow> settled (completeMoveTween s)"
  by (cases "pendingTweens s")
     (auto simp: completeMoveTween_def moveTweenOnComplete_def settled_def acceptedMoves_def
        triggerEvaluations_def checkTriggers_trace)

lemma update_settled:
  assumes inv: "settled s"
  shows "settled (update f s)"
proof -
  define s1 where "s1 = (if enterJustDown f then tryInteract f s else s)"
  have "tally s1 = tally s" by (simp add: s1_def)
  then have p1: "settled s1" using inv settled_tally by blast
  have pm: "\<And>dx dy. settled (movePlayer dx dy s1)"
    using p1 by (rule movePlayer_settled)
  show ?thesis
  proof (cases rule: update_branches[of s f])
    case overlay
    then have "tally (update f s) = tally s" by (simp add: update_overlay)
    then show ?thesis using inv settled_tally by blast
  next
    case esc
    then have "tally (update f s) = tally s" by (simp add: update_esc)
    then show ?thesis using inv settled_tally by blast
  next
    case menu
    then have "tally (update f s) = tally s" by (simp add: update_menu)
    then show ?thesis using inv settled_tally by blast
  next
    case world
    show ?thesis
      unfolding update_world[OF world s1_def] by (simp add: p1 pm)
  qed
qed

lemma step_settled: "settled s \<Longrightarrow> settled (step e s)"
proof (cases e)
  case (Frame f)
  assume "settled s"
  then show ?thesis using Frame by (simp add: step_def update_settled)
next
  case MoveTweenDone
  assume "settled s"
  then show ?thesis using MoveTweenDone by (simp add: step_def completeMoveTween_settled)
next
  case Resumed
  assume "settled s"
  then show ?thesis using Resumed settled_tally[of s "onResume s"] by (simp add: step_def)
next
  case (TimerFired i)
  assume "settled s"
  then show ?thesis using TimerFired settled_tally[of s "fireTimer i s"] by (simp add: step_def)
next
  case (MovePlayerCall dx dy)
  assume "settled s"
  then show ?thesis using MovePlayerCall by (simp add: step_def movePlayer_settled)
qed

lemma run_settled: "settled s \<Longrightarrow> settled (run s es)"
  by (induction es arbitrary: s) (simp_all add: step_settled)

lemma accepted_move_then_completion:
  assumes "\<not> isMoving s" and "\<not> isInDialogue s"
    and "isPassable s (playerGridX s + dx) (playerGridY s + dy)"
  shows "trace (movePlayer dx dy s) = trace s @ [TweenAdded (playerGridX s + dx) (playerGridY s + dy)]"
    and "isMoving (movePlayer dx dy s)"
    and "pendingTweens (movePlayer dx dy s) = Suc (pendingTweens s)"
    and "\<exists>rest. trace (completeMoveTween (movePlayer dx dy s)) =
            trace s @ [TweenAdded (playerGridX s + dx) (playerGridY s + dy),
                       TriggersChecked False (playerGridX s + dx) (playerGridY s + dy)] @ rest \<and>
            \<not> list_ex isTriggerEvaluation rest"
    and "\<not> isMoving (completeMoveTween (movePlayer dx dy s))"
    and "pendingTweens (completeMoveTween (movePlayer dx dy s)) = pendingTweens s"
    and "playerGridX (completeMoveTween (movePlayer dx dy s)) = playerGridX s + dx"
    and "playerGridY (completeMoveTween (movePlayer dx dy s)) = playerGridY s + dy"
  using assms
  by (simp_all add: movePlayer_shape completeMoveTween_def moveTweenOnComplete_def
      checkTriggers_trace)

section \<open>Properties of TravelScene\<close>

subsection \<open>Counting accepted moves and trigger evaluations\<close>

fun isProximityCheck :: "effect \<Rightarrow> bool" where
  "isProximityCheck (LocationProximityChecked m x y) = True"
| "isProximityCheck e = False"

fun isQuietSpecialCheck :: "effect \<Rightarrow> bool" where
  "isQuietSpecialCheck (SpecialTriggersChecked m x y r) = (\<not> r)"
| "isQuietSpecialCheck e = False"

fun isAmbush :: "effect \<Rightarrow> bool" where
  "isAmbush (SpecialTriggersChecked m x y r) = r"
| "isAmbush e = False"

definition tv_tally :: "travel \<Rightarrow> nat \<times> effect list \<times> effect list \<times> effect list \<times> effect list \<times> effect list \<times> bool" where
  "tv_tally s = (tv_pendingTweens s, filter isTweenAdded (tv_trace s),
                 filter isTriggerEvaluation (tv_trace s),
                 filter isProximityCheck (tv_trace s),
                 filter isQuietSpecialCheck (tv_trace s),
                 filter isAmbush (tv_trace s),
                 list_ex ranWhileMoving (tv_trace s))"

definition tv_settled :: "travel \<Rightarrow> bool" where
  "tv_settled s =
     (triggerEvaluations (tv_trace s) + tv_pendingTweens s = acceptedMoves (tv_trace s) \<and>
      length (filter isProximityCheck (tv_trace s)) =
        length (filter isQuietSpecialCheck (tv_trace s)) \<and>
      \<not> list_ex ranWhileMoving (tv_trace s))"

lemma tv_settled_tally: "tv_settled s \<Longrightarrow> tv_tally s' = tv_tally s \<Longrightarrow> tv_settled s'"
  by (simp add: tv_settled_def tv_tally_def acceptedMoves_def triggerEvaluations_def)

lemma tv_isPassable_cong:
  "tv_mapGridWidth s' = tv_mapGridWidth s \<Longrightarrow> tv_mapGridHeight s' = tv_mapGridHeight s \<Longrightarrow>
   tv_terrain s' = tv_terrain s \<Longrightarrow> tv_isPassable s' x y = tv_isPassable s x y"
  by (simp add: tv_isPassable_def)

lemma tv_isPassable_facing [simp]:
  "tv_isPassable (s\<lparr>tv_playerFacing := fc\<rparr>) x y = tv_isPassable s x y"
  by (rule tv_isPassable_cong) simp_all

lemma getLocationAtPosition_facing [simp]:
  "getLocationAtPosition (s\<lparr>tv_playerFacing := fc\<rparr>) x y = getLocationAtPosition s x y"
  by (simp add: getLocationAtPosition_def)

text \<open>\<open>tv_movePlayer\<close> by cases, with the new facing direction named once.\<close>

definition facingAfter :: "int \<Rightarrow> int \<Rightarrow> facing \<Rightarrow> facing" where
  "facingAfter dx dy fc =
     (if dx > 0 then Right else if dx < 0 then Left
      else if dy > 0 then Front else if dy < 0 then Back else fc)"

lemma tv_movePlayer_shape:
  "tv_movePlayer dx dy s =
     (if tv_isMoving s \<or> tv_isInDialogue s then s
      else if \<not> tv_isPassable s (tv_playerGridX s + dx) (tv_playerGridY s + dy)
      then s\<lparr>tv_playerFacing := facingAfter dx dy (tv_playerFacing s)\<rparr>
      else
        (case getLocationAtPosition s (tv_playerGridX s + dx) (tv_playerGridY s + dy) of
           None \<Rightarrow> tv_startMove (tv_playerGridX s + dx) (tv_playerGridY s + dy)
                     (s\<lparr>tv_playerFacing := facingAfter dx dy (tv_playerFacing s)\<rparr>)
         | Some l \<Rightarrow>
             if loc_type l = Blocked then
               (if loc_id l \<notin> tv_shownBlockedDialogue s then
                  tv_startDialogue (description l) (loc_name l) TvEndDialogue
                    (s\<lparr>tv_playerFacing := facingAfter dx dy (tv_playerFacing s),
                       tv_shownBlockedDialogue := insert (loc_id l) (tv_shownBlockedDialogue s),
                       tv_isInDialogue := True,
                       tv_trace := tv_trace s @ [BlockedWarningStarted (loc_id l)]\<rparr>)
                else s\<lparr>tv_playerFacing := facingAfter dx dy (tv_playerFacing s)\<rparr>)
             else tv_startMove (tv_playerGridX s + dx) (tv_playerGridY s + dy)
                    (s\<lparr>tv_playerFacing := facingAfter dx dy (tv_playerFacing s)\<rparr>)))"
  unfolding tv_movePlayer_def Let_def facingAfter_def[symmetric]
  by (simp split: option.splits)

lemma tv_tally_startDialogue [simp]: "tv_tally (tv_startDialogue ls n cb s) = tv_tally s"
  by (simp add: tv_tally_def tv_startDialogue_def)

lemma tv_tally_updates [simp]:
  "tv_tally (s\<lparr>tv_playerFacing := a\<rparr>) = tv_tally s"
  "tv_tally (s\<lparr>tv_isInDialogue := b\<rparr>) = tv_tally s"
  "tv_tally (s\<lparr>tv_shownBlockedDialogue := c\<rparr>) = tv_tally s"
  "tv_tally (s\<lparr>tv_dialogueRenderer := d\<rparr>) = tv_tally s"
  "tv_tally (s\<lparr>tv_choiceMenuSelectedIndex := e\<rparr>) = tv_tally s"
  "tv_tally (s\<lparr>tv_choiceMenuVisible := g\<rparr>) = tv_tally s"
  "tv_tally (s\<lparr>tv_levelUpOverlay := h\<rparr>) = tv_tally s"
  "tv_tally (s\<lparr>tv_gameFlags := i\<rparr>) = tv_tally s"
  "tv_tally (s\<lparr>tv_pendingTimers := j\<rparr>) = tv_tally s"
  "tv_tally (s\<lparr>tv_trace := tv_trace s @ [SceneStart n p]\<rparr>) = tv_tally s"
  "tv_tally (s\<lparr>tv_trace := tv_trace s @ [ScenePause, SceneLaunch n p]\<rparr>) = tv_tally s"
  "tv_tally (s\<lparr>tv_trace := tv_trace s @ [BlockedWarningStarted k]\<rparr>) = tv_tally s"
  by (simp_all add: tv_tally_def)

lemma tv_tally_travelToLocation [simp]: "tv_tally (travelToLocation l s) = tv_tally s"
  by (simp add: travelToLocation_def Let_def)

lemma tv_tally_promptLocationInteraction [simp]:
  "tv_tally (promptLocationInteraction l s) = tv_tally s"
  by (simp add: promptLocationInteraction_def Let_def)

lemma tv_tally_runDialogueCallback [simp]: "tv_tally (tv_runDialogueCallback cb s) = tv_tally s"
  by (cases cb) (simp_all add: tv_runDialogueCallback_def)

lemma tv_tally_advance [simp]: "tv_tally (tv_advance s) = tv_tally s"
  by (simp add: tv_advance_def split: option.splits)

lemma tv_tally_tryInteract [simp]: "tv_tally (tv_tryInteract s) = tv_tally s"
  by (simp add: tv_tryInteract_def split: option.splits)

lemma tv_tally_fireTimer [simp]: "tv_tally (tv_fireTimer i s) = tv_tally s"
  by (simp add: tv_fireTimer_def tv_tally_def)

lemma tv_startMove_settled: "tv_settled s \<Longrightarrow> tv_settled (tv_startMove x y s)"
  by (simp add: tv_startMove_def tv_settled_def acceptedMoves_def triggerEvaluations_def)

lemma tv_movePlayer_settled:
  assumes "tv_settled s"
  shows "tv_settled (tv_movePlayer dx dy s)"
proof -
  have f: "\<And>fc. tv_settled (s\<lparr>tv_playerFacing := fc\<rparr>)"
    using assms by (rule tv_settled_tally) simp
  have d: "\<And>fc l. tv_settled (tv_startDialogue (description l) (loc_name l) TvEndDialogue
                    (s\<lparr>tv_playerFacing := fc,
                       tv_shownBlockedDialogue := insert (loc_id l) (tv_shownBlockedDialogue s),
                       tv_isInDialogue := True,
                       tv_trace := tv_trace s @ [BlockedWarningStarted (loc_id l)]\<rparr>))"
    using assms by (rule tv_settled_tally) (simp add: tv_tally_def tv_startDialogue_def)
  show ?thesis
    unfolding tv_movePlayer_shape
    by (simp add: assms f d tv_startMove_settled split: option.splits)
qed

lemma checkSpecialTriggers_trace:
  "tv_trace (snd (checkSpecialTriggers s)) =
     tv_trace s @ [SpecialTriggersChecked (tv_isMoving s) (tv_playerGridX s) (tv_playerGridY s)
                     (fst (checkSpecialTriggers s))]"
  by (simp add: checkSpecialTriggers_def triggerHellhoundAmbush_def tv_startDialogue_def)

lemma checkSpecialTriggers_other [simp]:
  "tv_pendingTweens (snd (checkSpecialTriggers s)) = tv_pendingTweens s"
  "tv_isMoving (snd (checkSpecialTriggers s)) = tv_isMoving s"
  "tv_playerGridX (snd (checkSpecialTriggers s)) = tv_playerGridX s"
  "tv_playerGridY (snd (checkSpecialTriggers s)) = tv_playerGridY s"
  by (simp_all add: checkSpecialTriggers_def triggerHellhoundAmbush_def tv_startDialogue_def)

lemma checkLocationProximity_trace:
  "tv_trace (checkLocationProximity s) =
     tv_trace s @ [LocationProximityChecked (tv_isMoving s) (tv_playerGridX s) (tv_playerGridY s)]"
  by (simp add: checkLocationProximity_def Let_def promptLocationInteraction_def
      tv_startDialogue_def split: option.splits)

lemma checkLocationProximity_other [simp]:
  "tv_pendingTweens (checkLocationProximity s) = tv_pendingTweens s"
  "tv_isMoving (checkLocationProximity s) = tv_isMoving s"
  "tv_playerGridX (checkLocationProximity s) = tv_playerGridX s"
  "tv_playerGridY (checkLocationProximity s) = tv_playerGridY s"
  by (simp_all add: checkLocationProximity_def Let_def promptLocationInteraction_def
      tv_startDialogue_def split: option.splits)

lemma tv_moveTweenOnComplete_trace:
  "tv_trace (tv_moveTweenOnComplete s) =
     tv_trace s @
       (if fst (checkSpecialTriggers (s\<lparr>tv_isMoving := False\<rparr>))
        then [SpecialTriggersChecked False (tv_playerGridX s) (tv_playerGridY s) True]
        else [SpecialTriggersChecked False (tv_playerGridX s) (tv_playerGridY s) False,
              LocationProximityChecked False (tv_playerGridX s) (tv_playerGridY s)])"
proof -
  obtain fired s1 where c: "checkSpecialTriggers (s\<lparr>tv_isMoving := False\<rparr>) = (fired, s1)"
    by (cases "checkSpecialTriggers (s\<lparr>tv_isMoving := False\<rparr>)")
  have t: "tv_trace s1 = tv_trace s @ [SpecialTriggersChecked False (tv_playerGridX s)
              (tv_playerGridY s) fired]"
    and m: "tv_isMoving s1 = False" "tv_playerGridX s1 = tv_playerGridX s"
      "tv_playerGridY s1 = tv_playerGridY s"
    using checkSpecialTriggers_trace[of "s\<lparr>tv_isMoving := False\<rparr>"]
      checkSpecialTriggers_other[of "s\<lparr>tv_isMoving := False\<rparr>"]
    by (simp_all add: c)
  show ?thesis
    by (simp add: tv_moveTweenOnComplete_def c t m checkLocationProximity_trace)
qed

lemma tv_moveTweenOnComplete_other [simp]:
  "tv_pendingTweens (tv_moveTweenOnComplete s) = tv_pendingTweens s"
  "tv_isMoving (tv_moveTweenOnComplete s) = False"
  "tv_playerGridX (tv_moveTweenOnComplete s) = tv_playerGridX s"
  "tv_playerGridY (tv_moveTweenOnComplete s) = tv_playerGridY s"
proof -
  obtain fired s1 where c: "checkSpecialTriggers (s\<lparr>tv_isMoving := False\<rparr>) = (fired, s1)"
    by (cases "checkSpecialTriggers (s\<lparr>tv_isMoving := False\<rparr>)")
  have m: "tv_isMoving s1 = False" "tv_playerGridX s1 = tv_playerGridX s"
      "tv_playerGridY s1 = tv_playerGridY s" "tv_pendingTweens s1 = tv_pendingTweens s"
    using checkSpecialTriggers_other[of "s\<lparr>tv_isMoving := False\<rparr>"]
    by (simp_all add: c)
  show "tv_pendingTweens (tv_moveTweenOnComplete s) = tv_pendingTweens s"
    "tv_isMoving (tv_moveTweenOnComplete s) = False"
    "tv_playerGridX (tv_moveTweenOnComplete s) = tv_playerGridX s"
    "tv_playerGridY (tv_moveTweenOnComplete s) = tv_playerGridY s"
    by (simp_all add: tv_moveTweenOnComplete_def c m)
qed

lemma tv_completeMoveTween_settled: "tv_settled s \<Longrightarrow> tv_settled (tv_completeMoveTween s)"
  by (cases "tv_pendingTweens s")
     (auto simp: tv_completeMoveTween_def tv_settled_def acceptedMoves_def
        triggerEvaluations_def tv_moveTweenOnComplete_trace)

lemma tv_update_branches:
  obtains (overlay) "tv_levelUpOverlay s \<noteq> None \<and> overlayWaiting f"
    | (esc) "\<not> (tv_levelUpOverlay s \<noteq> None \<and> overlayWaiting f)" "escJustDown f"
    | (menu) "\<not> (tv_levelUpOverlay s \<noteq> None \<and> overlayWaiting f)" "\<not> escJustDown f"
        "tv_choiceMenuVisible s"
    | (world) "\<not> (tv_levelUpOverlay s \<noteq> None \<and> overlayWaiting f)" "\<not> escJustDown f"
        "\<not> tv_choiceMenuVisible s"
  by blast

lemma tv_update_overlay:
  assumes "tv_levelUpOverlay s \<noteq> None \<and> overlayWaiting f"
  shows "tv_update f s =
     (if enterJustDown f then
        (if overlayCompletes f
         then s\<lparr>tv_levelUpOverlay := None, tv_isInDialogue := False\<rparr> else s)
      else s)"
  by (simp only: tv_update_def if_P[OF assms])

lemma tv_update_esc:
  assumes "\<not> (tv_levelUpOverlay s \<noteq> None \<and> overlayWaiting f)" and "escJustDown f"
  shows "tv_update f s =
     s\<lparr>tv_trace := tv_trace s @ [ScenePause, SceneLaunch ''MenuScene''
            (no_data\<lparr>d_heroState := Some (tv_heroState s),
               d_returnScene := Some ''TravelScene'',
               d_inventory := Some (tv_inventory s)\<rparr>)]\<rparr>"
  by (simp only: tv_update_def if_not_P[OF assms(1)] if_P[OF assms(2)])

lemma tv_update_menu:
  assumes "\<not> (tv_levelUpOverlay s \<noteq> None \<and> overlayWaiting f)" and "\<not> escJustDown f"
    and "tv_choiceMenuVisible s"
  shows "tv_update f s =
     (if upJustDown f then
        s\<lparr>tv_choiceMenuSelectedIndex := max 0 (tv_choiceMenuSelectedIndex s - 1)\<rparr>
      else if downJustDown f then
        s\<lparr>tv_choiceMenuSelectedIndex :=
            min (int (length (tv_choiceMenuOptions s)) - 1)
                (tv_choiceMenuSelectedIndex s + 1)\<rparr>
      else if enterJustDown f then tv_selectChoiceMenuOption s
      else s)"
  by (simp only: tv_update_def if_not_P[OF assms(1)] if_not_P[OF assms(2)] if_P[OF assms(3)])

lemma tv_update_world:
  assumes "\<not> (tv_levelUpOverlay s \<noteq> None \<and> overlayWaiting f)" and "\<not> escJustDown f"
    and "\<not> tv_choiceMenuVisible s"
    and "s1 = (if enterJustDown f then tv_tryInteract s else s)"
  shows "tv_update f s =
     (if \<not> tv_isInDialogue s1 \<and> \<not> tv_isMoving s1 then
        (if leftIsDown f then tv_movePlayer (- 1) 0 s1
         else if rightIsDown f then tv_movePlayer 1 0 s1
         else if upIsDown f then tv_movePlayer 0 (- 1) s1
         else if downIsDown f then tv_movePlayer 0 1 s1
         else s1)
      else s1)"
  by (simp only: tv_update_def Let_def assms(4) if_not_P[OF assms(1)] if_not_P[OF assms(2)]
      if_not_P[OF assms(3)])

lemma tv_update_settled:
  assumes inv: "tv_settled s"
  shows "tv_settled (tv_update f s)"
proof -
  define s1 where "s1 = (if enterJustDown f then tv_tryInteract s else s)"
  have "tv_tally s1 = tv_tally s" by (simp add: s1_def)
  then have p1: "tv_settled s1" using inv tv_settled_tally by blast
  have pm: "\<And>dx dy. tv_settled (tv_movePlayer dx dy s1)"
    using p1 by (rule tv_movePlayer_settled)
  show ?thesis
  proof (cases rule: tv_update_branches[of s f])
    case overlay
    then have "tv_tally (tv_update f s) = tv_tally s" by (simp add: tv_update_overlay)
    then show ?thesis using inv tv_settled_tally by blast
  next
    case esc
    then have "tv_tally (tv_update f s) = tv_tally s" by (simp add: tv_update_esc)
    then show ?thesis using inv tv_settled_tally by blast
  next
    case menu
    then have "tv_tally (tv_update f s) = tv_tally s"
      by (simp add: tv_update_menu tv_selectChoiceMenuOption_def)
    then show ?thesis using inv tv_settled_tally by blast
  next
    case world
    show ?thesis
      unfolding tv_update_world[OF world s1_def] by (simp add: p1 pm)
  qed
qed

lemma tv_step_settled: "tv_settled s \<Longrightarrow> tv_settled (tv_step e s)"
proof (cases e)
  case (TvFrame f)
  assume "tv_settled s"
  then show ?thesis using TvFrame by (simp add: tv_step_def tv_update_settled)
next
  case TvMoveTweenDone
  assume "tv_settled s"
  then show ?thesis using TvMoveTweenDone by (simp add: tv_step_def tv_completeMoveTween_settled)
next
  case (TvTimerFired i)
  assume "tv_settled s"
  then show ?thesis using TvTimerFired tv_settled_tally[of s "tv_fireTimer i s"]
    by (simp add: tv_step_def)
next
  case (TvMovePlayerCall dx dy)
  assume "tv_settled s"
  then show ?thesis using TvMovePlayerCall by (simp add: tv_step_def tv_movePlayer_settled)
qed

lemma tv_run_settled: "tv_settled s \<Longrightarrow> tv_settled (tv_run s es)"
  by (induction es arbitrary: s) (simp_all add: tv_step_settled)

subsection \<open>An example travel map\<close>

text \<open>
  \<open>enteringBlocked\<close> is the test \<open>movePlayer\<close> makes on the target tile: the first
  location whose bounds hold the tile is of type blocked. The example map has a town, a
  blocked location and an impassable last column; the shrine battle is already won.
\<close>

definition enteringBlocked :: "travel \<Rightarrow> int \<Rightarrow> int \<Rightarrow> bool" where
  "enteringBlocked s x y =
     (case getLocationAtPosition s x y of None \<Rightarrow> False | Some l \<Rightarrow> loc_type l = Blocked)"

definition mkLocation ::
  "string \<Rightarrow> location_type \<Rightarrow> int \<times> int \<Rightarrow> int \<times> int \<Rightarrow> string list \<Rightarrow> location_marker" where
  "mkLocation i ty lo hi d =
     \<lparr> loc_id = i, loc_name = i,
       bounds = \<lparr> lb_x1 = fst lo, lb_y1 = snd lo, lb_x2 = fst hi, lb_y2 = snd hi \<rparr>,
       markerPosition = lo, description = d, loc_type = ty,
       battleMap = None, exploreMap = None,
       targetScene = (if ty = Town then Some ''IshetarScene2'' else None) \<rparr>"

definition demoTravelMap :: travel_map where
  "demoTravelMap =
     \<lparr> tm_id = ''travel'', tm_displayName = ''Ekkorai'',
       tm_gridWidth = 8, tm_gridHeight = 21,
       tm_terrain = replicate 21 [0, 0, 0, 0, 0, 0, 0, 2],
       tm_playerStart = (2, 18),
       tm_locations =
         [mkLocation ''ishetar'' Town (0, 0) (1, 1) [''The town of Ishetar.''],
          mkLocation ''red_vale'' Blocked (4, 17) (6, 18) [''The Red Vale is too dangerous.'']] \<rparr>"

definition demoTravel :: travel where
  "demoTravel =
     (case tv_create (no_data\<lparr>d_gameFlags := Some [''quetzi_shrine_battle_complete'' \<mapsto> True]\<rparr>)
             (Some demoTravelMap) newTravelScene of
        Inr s \<Rightarrow> s | Inl e \<Rightarrow> newTravelScene)"

lemma demoTravel_fields:
  "tv_isMoving demoTravel = False" "tv_isInDialogue demoTravel = False"
  "tv_playerGridX demoTravel = 2" "tv_playerGridY demoTravel = 18"
  "tv_mapGridWidth demoTravel = 8" "tv_mapGridHeight demoTravel = 21"
  "tv_trace demoTravel = []" "tv_pendingTweens demoTravel = 0"
  "tv_choiceMenuVisible demoTravel = False" "tv_shownBlockedDialogue demoTravel = {}"
  "tv_terrain demoTravel = replicate 21 [0, 0, 0, 0, 0, 0, 0, 2]"
  "tv_gameFlags demoTravel = [''quetzi_shrine_battle_complete'' \<mapsto> True]"
  "tv_locations demoTravel =
     [mkLocation ''ishetar'' Town (0, 0) (1, 1) [''The town of Ishetar.''],
      mkLocation ''red_vale'' Blocked (4, 17) (6, 18) [''The Red Vale is too dangerous.'']]"
  "tv_levelUpOverlay demoTravel = None" "tv_dialogueRenderer demoTravel = None"
  by (simp_all add: demoTravel_def tv_create_def demoTravelMap_def no_data_def
      newTravelScene_def or_string_def or_number_def Let_def)

lemma tv_accepted_move:
  assumes "\<not> tv_isMoving s" and "\<not> tv_isInDialogue s"
    and "tv_isPassable s (tv_playerGridX s + dx) (tv_playerGridY s + dy)"
    and "\<not> enteringBlocked s (tv_playerGridX s + dx) (tv_playerGridY s + dy)"
  shows "tv_movePlayer dx dy s =
     tv_startMove (tv_playerGridX s + dx) (tv_playerGridY s + dy)
        (s\<lparr>tv_playerFacing := facingAfter dx dy (tv_playerFacing s)\<rparr>)"
proof (cases "getLocationAtPosition s (tv_playerGridX s + dx) (tv_playerGridY s + dy)")
  case None
  then show ?thesis using assms by (simp add: tv_movePlayer_shape)
next
  case (Some l)
  then have "loc_type l \<noteq> Blocked" using assms(4) by (simp add: enteringBlocked_def)
  then show ?thesis using assms Some by (simp add: tv_movePlayer_shape)
qed

subsection \<open>Trigger evaluation after a move\<close>

text \<open>
  Claim C2. In IshetarScene2 and in TravelScene, over every sequence of events, each
  accepted move has had exactly one trigger evaluation once its tween has completed
  (evaluations plus pending tweens equal accepted moves), and no trigger check ever ran
  while \<open>isMoving\<close> was true. An accepted move commits the position, sets
  \<open>isMoving\<close> and adds one tween without evaluating triggers; the completion of that
  tween clears \<open>isMoving\<close> and then evaluates the triggers once, at the committed
  position: \<open>checkTriggers\<close> in IshetarScene2, \<open>checkSpecialTriggers\<close> followed,
  when no special trigger fired, by \<open>checkLocationProximity\<close> in TravelScene.
\<close>

theorem trigger_evaluation_once_after_commit:
  "(settled s \<longrightarrow> settled (run s es)) \<and>
   (tv_settled t \<longrightarrow> tv_settled (tv_run t tes)) \<and>
   (\<not> isMoving s \<and> \<not> isInDialogue s \<and>
    isPassable s (playerGridX s + dx) (playerGridY s + dy) \<longrightarrow>
      trace (movePlayer dx dy s) =
        trace s @ [TweenAdded (playerGridX s + dx) (playerGridY s + dy)] \<and>
      isMoving (movePlayer dx dy s) \<and>
      pendingTweens (movePlayer dx dy s) = Suc (pendingTweens s) \<and>
      (\<exists>rest. trace (completeMoveTween (movePlayer dx dy s)) =
            trace s @ [TweenAdded (playerGridX s + dx) (playerGridY s + dy),
                       TriggersChecked False (playerGridX s + dx) (playerGridY s + dy)] @ rest \<and>
            \<not> list_ex isTriggerEvaluation rest) \<and>
      \<not> isMoving (completeMoveTween (movePlayer dx dy s)) \<and>
      pendingTweens (completeMoveTween (movePlayer dx dy s)) = pendingTweens s) \<and>
   (\<not> tv_isMoving t \<and> \<not> tv_isInDialogue t \<and>
    tv_isPassable t (tv_playerGridX t + dx) (tv_playerGridY t + dy) \<and>
    \<not> enteringBlocked t (tv_playerGridX t + dx) (tv_playerGridY t + dy) \<longrightarrow>
      tv_trace (tv_movePlayer dx dy t) =
        tv_trace t @ [TweenAdded (tv_playerGridX t + dx) (tv_playerGridY t + dy)] \<and>
      tv_isMoving (tv_movePlayer dx dy t) \<and>
      tv_pendingTweens (tv_movePlayer dx dy t) = Suc (tv_pendingTweens t) \<and>
      (\<exists>fired. tv_trace (tv_completeMoveTween (tv_movePlayer dx dy t)) =
            tv_trace t @ [TweenAdded (tv_playerGridX t + dx) (tv_playerGridY t + dy),
              SpecialTriggersChecked False (tv_playerGridX t + dx) (tv_playerGridY t + dy) fired]
            @ (if fired then []
               else [LocationProximityChecked False (tv_playerGridX t + dx)
                       (tv_playerGridY t + dy)])) \<and>
      \<not> tv_isMoving (tv_completeMoveTween (tv_movePlayer dx dy t)) \<and>
      tv_pendingTweens (tv_completeMoveTween (tv_movePlayer dx dy t)) = tv_pendingTweens t)"
proof -
  have a: "settled s \<longrightarrow> settled (run s es)"
    using run_settled by blast
  have b: "tv_settled t \<longrightarrow> tv_settled (tv_run t tes)"
    using tv_run_settled by blast
  have c: "\<not> isMoving s \<and> \<not> isInDialogue s \<and>
    isPassable s (playerGridX s + dx) (playerGridY s + dy) \<longrightarrow>
      trace (movePlayer dx dy s) =
        trace s @ [TweenAdded (playerGridX s + dx) (playerGridY s + dy)] \<and>
      isMoving (movePlayer dx dy s) \<and>
      pendingTweens (movePlayer dx dy s) = Suc (pendingTweens s) \<and>
      (\<exists>rest. trace (completeMoveTween (movePlayer dx dy s)) =
            trace s @ [TweenAdded (playerGridX s + dx) (playerGridY s + dy),
                       TriggersChecked False (playerGridX s + dx) (playerGridY s + dy)] @ rest \<and>
            \<not> list_ex isTriggerEvaluation rest) \<and>
      \<not> isMoving (completeMoveTween (movePlayer dx dy s)) \<and>
      pendingTweens (completeMoveTween (movePlayer dx dy s)) = pendingTweens s"
    using accepted_move_then_completion[of s dx dy] by blast
  have d: "\<not> tv_isMoving t \<and> \<not> tv_isInDialogue t \<and>
    tv_isPassable t (tv_playerGridX t + dx) (tv_playerGridY t + dy) \<and>
    \<not> enteringBlocked t (tv_playerGridX t + dx) (tv_playerGridY t + dy) \<longrightarrow>
      tv_trace (tv_movePlayer dx dy t) =
        tv_trace t @ [TweenAdded (tv_playerGridX t + dx) (tv_playerGridY t + dy)] \<and>
      tv_isMoving (tv_movePlayer dx dy t) \<and>
      tv_pendingTweens (tv_movePlayer dx dy t) = Suc (tv_pendingTweens t) \<and>
      (\<exists>fired. tv_trace (tv_completeMoveTween (tv_movePlayer dx dy t)) =
            tv_trace t @ [TweenAdded (tv_playerGridX t + dx) (tv_playerGridY t + dy),
              SpecialTriggersChecked False (tv_playerGridX t + dx) (tv_playerGridY t + dy) fired]
            @ (if fired then []
               else [LocationProximityChecked False (tv_playerGridX t + dx)
                       (tv_playerGridY t + dy)])) \<and>
      \<not> tv_isMoving (tv_completeMoveTween (tv_movePlayer dx dy t)) \<and>
      tv_pendingTweens (tv_completeMoveTween (tv_movePlayer dx dy t)) = tv_pendingTweens t"
  proof (intro impI)
    assume h: "\<not> tv_isMoving t \<and> \<not> tv_isInDialogue t \<and>
      tv_isPassable t (tv_playerGridX t + dx) (tv_playerGridY t + dy) \<and>
      \<not> enteringBlocked t (tv_playerGridX t + dx) (tv_playerGridY t + dy)"
    then have m: "tv_movePlayer dx dy t =
       tv_startMove (tv_playerGridX t + dx) (tv_playerGridY t + dy)
        (t\<lparr>tv_playerFacing := facingAfter dx dy (tv_playerFacing t)\<rparr>)"
      by (simp add: tv_accepted_move)
    show "tv_trace (tv_movePlayer dx dy t) =
        tv_trace t @ [TweenAdded (tv_playerGridX t + dx) (tv_playerGridY t + dy)] \<and>
      tv_isMoving (tv_movePlayer dx dy t) \<and>
      tv_pendingTweens (tv_movePlayer dx dy t) = Suc (tv_pendingTweens t) \<and>
      (\<exists>fired. tv_trace (tv_completeMoveTween (tv_movePlayer dx dy t)) =
            tv_trace t @ [TweenAdded (tv_playerGridX t + dx) (tv_playerGridY t + dy),
              SpecialTriggersChecked False (tv_playerGridX t + dx) (tv_playerGridY t + dy) fired]
            @ (if fired then []
               else [LocationProximityChecked False (tv_playerGridX t + dx)
                       (tv_playerGridY t + dy)])) \<and>
      \<not> tv_isMoving (tv_completeMoveTween (tv_movePlayer dx dy t)) \<and>
      tv_pendingTweens (tv_completeMoveTween (tv_movePlayer dx dy t)) = tv_pendingTweens t"
      unfolding m
      by (simp add: tv_startMove_def tv_completeMoveTween_def tv_moveTweenOnComplete_trace)
         blast
  qed
  show ?thesis using a b c d by blast
qed


lemma demoTravel_passable:
  "tv_isPassable demoTravel 2 19" "\<not> enteringBlocked demoTravel 2 19"
  "tv_isPassable demoTravel 4 18" "enteringBlocked demoTravel 4 18"
  "tv_isPassable demoTravel 3 18" "\<not> enteringBlocked demoTravel 3 18"
  by (simp_all add: tv_isPassable_def enteringBlocked_def getLocationAtPosition_def
      demoTravel_fields tv_terrainAt_def js_index_def mkLocation_def isWithinBounds_def)

theorem trigger_evaluation_once_after_commit_witness:
  "settled (demoTownAt 13 3) \<and> tv_settled demoTravel \<and>
   \<not> isMoving (demoTownAt 13 3) \<and> \<not> isInDialogue (demoTownAt 13 3) \<and>
   isPassable (demoTownAt 13 3) (playerGridX (demoTownAt 13 3) + 0)
     (playerGridY (demoTownAt 13 3) + (- 1)) \<and>
   \<not> tv_isMoving demoTravel \<and> \<not> tv_isInDialogue demoTravel \<and>
   tv_isPassable demoTravel (tv_playerGridX demoTravel + 0) (tv_playerGridY demoTravel + 1) \<and>
   \<not> enteringBlocked demoTravel (tv_playerGridX demoTravel + 0) (tv_playerGridY demoTravel + 1) \<and>
   settled (run (demoTownAt 13 3) [MovePlayerCall 0 (- 1), MoveTweenDone]) \<and>
   tv_settled (tv_run demoTravel [TvMovePlayerCall 0 1, TvMoveTweenDone]) \<and>
   trace (movePlayer 0 (- 1) (demoTownAt 13 3)) = [TweenAdded 13 2] \<and>
   take 2 (trace (completeMoveTween (movePlayer 0 (- 1) (demoTownAt 13 3)))) =
     [TweenAdded 13 2, TriggersChecked False 13 2] \<and>
   tv_trace (tv_completeMoveTween (tv_movePlayer 0 1 demoTravel)) =
     [TweenAdded 2 19, SpecialTriggersChecked False 2 19 True] \<and>
   tv_trace (tv_completeMoveTween (tv_movePlayer 1 0 demoTravel)) =
     [TweenAdded 3 18, SpecialTriggersChecked False 3 18 False,
      LocationProximityChecked False 3 18]"
proof -
  have h1: "settled (demoTownAt 13 3)"
    by (simp add: settled_def demo_flags acceptedMoves_def triggerEvaluations_def)
  have h2: "tv_settled demoTravel"
    by (simp add: tv_settled_def demoTravel_fields acceptedMoves_def triggerEvaluations_def)
  have h3: "\<not> isMoving (demoTownAt 13 3)" "\<not> isInDialogue (demoTownAt 13 3)"
    "isPassable (demoTownAt 13 3) (playerGridX (demoTownAt 13 3) + 0)
       (playerGridY (demoTownAt 13 3) + (- 1))"
    by (simp_all add: demo_flags demo_isPassable)
  have h4: "\<not> tv_isMoving demoTravel" "\<not> tv_isInDialogue demoTravel"
    "tv_isPassable demoTravel (tv_playerGridX demoTravel + 0) (tv_playerGridY demoTravel + 1)"
    "\<not> enteringBlocked demoTravel (tv_playerGridX demoTravel + 0) (tv_playerGridY demoTravel + 1)"
    by (simp_all add: demoTravel_fields demoTravel_passable)
  have e1: "trace (movePlayer 0 (- 1) (demoTownAt 13 3)) = [TweenAdded 13 2]"
    using h3 by (simp add: movePlayer_shape demo_flags)
  have e2: "take 2 (trace (completeMoveTween (movePlayer 0 (- 1) (demoTownAt 13 3)))) =
     [TweenAdded 13 2, TriggersChecked False 13 2]"
    using h3 by (simp add: movePlayer_shape demo_flags completeMoveTween_def
        moveTweenOnComplete_def checkTriggers_trace)
  have e3: "tv_trace (tv_completeMoveTween (tv_movePlayer 0 1 demoTravel)) =
     [TweenAdded 2 19, SpecialTriggersChecked False 2 19 True]"
    using h4 by (simp add: tv_accepted_move tv_startMove_def tv_completeMoveTween_def
        tv_moveTweenOnComplete_trace demoTravel_fields checkSpecialTriggers_def flag_set_def)
  have e4: "tv_trace (tv_completeMoveTween (tv_movePlayer 1 0 demoTravel)) =
     [TweenAdded 3 18, SpecialTriggersChecked False 3 18 False,
      LocationProximityChecked False 3 18]"
    using h4 demoTravel_passable
    by (simp add: tv_accepted_move tv_startMove_def tv_completeMoveTween_def
        tv_moveTweenOnComplete_trace demoTravel_fields checkSpecialTriggers_def flag_set_def)
  show ?thesis
    using h1 h2 h3 h4 e1 e2 e3 e4
      trigger_evaluation_once_after_commit[of "demoTownAt 13 3"
        "[MovePlayerCall 0 (- 1), MoveTweenDone]" demoTravel
        "[TvMovePlayerCall 0 1, TvMoveTweenDone]" 0 1]
    by simp
qed

subsection \<open>Story flags, shown warnings and ambushes\<close>

text \<open>
  \<open>tv_lore\<close> is what persists of the story while the scene runs: the game flags and the
  set of blocked locations whose warning was shown. \<open>ambushes\<close> are the trace entries
  of the special-trigger checks that fired the hellhound ambush.
\<close>

definition tv_lore :: "travel \<Rightarrow> game_flags \<times> string set" where
  "tv_lore s = (tv_gameFlags s, tv_shownBlockedDialogue s)"

definition ambushes :: "travel \<Rightarrow> effect list" where
  "ambushes s = filter isAmbush (tv_trace s)"

lemma ambushes_tally: "tv_tally s' = tv_tally s \<Longrightarrow> ambushes s' = ambushes s"
  by (simp add: tv_tally_def ambushes_def)

lemma tv_lore_startDialogue [simp]: "tv_lore (tv_startDialogue ls n cb s) = tv_lore s"
  by (simp add: tv_lore_def tv_startDialogue_def)

lemma tv_lore_updates [simp]:
  "tv_lore (s\<lparr>tv_playerFacing := a\<rparr>) = tv_lore s"
  "tv_lore (s\<lparr>tv_isInDialogue := b\<rparr>) = tv_lore s"
  "tv_lore (s\<lparr>tv_dialogueRenderer := d\<rparr>) = tv_lore s"
  "tv_lore (s\<lparr>tv_choiceMenuSelectedIndex := e\<rparr>) = tv_lore s"
  "tv_lore (s\<lparr>tv_choiceMenuVisible := g\<rparr>) = tv_lore s"
  "tv_lore (s\<lparr>tv_levelUpOverlay := h\<rparr>) = tv_lore s"
  "tv_lore (s\<lparr>tv_pendingTimers := j\<rparr>) = tv_lore s"
  "tv_lore (s\<lparr>tv_trace := k\<rparr>) = tv_lore s"
  "tv_lore (s\<lparr>tv_isMoving := l\<rparr>) = tv_lore s"
  "tv_lore (s\<lparr>tv_pendingTweens := m\<rparr>) = tv_lore s"
  by (simp_all add: tv_lore_def)

lemma tv_lore_travelToLocation [simp]: "tv_lore (travelToLocation l s) = tv_lore s"
  by (simp add: travelToLocation_def Let_def)

lemma tv_lore_promptLocationInteraction [simp]:
  "tv_lore (promptLocationInteraction l s) = tv_lore s"
  by (simp add: promptLocationInteraction_def Let_def)

lemma tv_lore_runDialogueCallback [simp]: "tv_lore (tv_runDialogueCallback cb s) = tv_lore s"
  by (cases cb) (simp_all add: tv_runDialogueCallback_def)

lemma tv_lore_advance [simp]: "tv_lore (tv_advance s) = tv_lore s"
  by (simp add: tv_advance_def split: option.splits)

lemma tv_lore_tryInteract [simp]: "tv_lore (tv_tryInteract s) = tv_lore s"
  by (simp add: tv_tryInteract_def split: option.splits)

lemma tv_lore_fireTimer [simp]: "tv_lore (tv_fireTimer i s) = tv_lore s"
  by (simp add: tv_fireTimer_def tv_lore_def)

lemma tv_lore_checkLocationProximity [simp]: "tv_lore (checkLocationProximity s) = tv_lore s"
  by (simp add: checkLocationProximity_def Let_def split: option.splits)

lemma tv_lore_startMove [simp]: "tv_lore (tv_startMove x y s) = tv_lore s"
  by (simp add: tv_startMove_def tv_lore_def)

lemma ambushes_startMove [simp]: "ambushes (tv_startMove x y s) = ambushes s"
  by (simp add: tv_startMove_def ambushes_def)

lemma ambushes_updates [simp]:
  "ambushes (s\<lparr>tv_playerFacing := a\<rparr>) = ambushes s"
  "ambushes (tv_startDialogue ls n cb s) = ambushes s"
  "ambushes (s\<lparr>tv_shownBlockedDialogue := c\<rparr>) = ambushes s"
  "ambushes (s\<lparr>tv_isInDialogue := b\<rparr>) = ambushes s"
  by (simp_all add: ambushes_def tv_startDialogue_def)

text \<open>\<open>tv_movePlayer\<close> touches neither the flags nor the ambush entries; it can only add to the set of shown warnings.\<close>

lemma tv_movePlayer_story:
  "tv_gameFlags (tv_movePlayer dx dy s) = tv_gameFlags s \<and>
   ambushes (tv_movePlayer dx dy s) = ambushes s \<and>
   tv_shownBlockedDialogue s \<subseteq> tv_shownBlockedDialogue (tv_movePlayer dx dy s)"
proof -
  have g: "\<And>x y fc. tv_gameFlags (tv_startMove x y (s\<lparr>tv_playerFacing := fc\<rparr>)) = tv_gameFlags s"
    "\<And>x y fc. tv_shownBlockedDialogue (tv_startMove x y (s\<lparr>tv_playerFacing := fc\<rparr>)) =
        tv_shownBlockedDialogue s"
    by (simp_all add: tv_startMove_def)
  show ?thesis
    unfolding tv_movePlayer_shape
    by (auto simp: g tv_startDialogue_def ambushes_def tv_startMove_def split: option.splits)
qed


text \<open>The completion of a move tween: the ambush fires under its three conditions only, and sets its flag.\<close>

lemma checkSpecialTriggers_fires_iff:
  "fst (checkSpecialTriggers s) \<longleftrightarrow>
     flag_set (tv_gameFlags s) ''quetzi_shrine_battle_complete'' \<and>
     \<not> flag_set (tv_gameFlags s) ''hellhound_ambush_triggered'' \<and>
     tv_playerGridY s = 19"
  by (simp add: checkSpecialTriggers_def)

lemma checkSpecialTriggers_flags:
  "tv_gameFlags (snd (checkSpecialTriggers s)) =
     (if fst (checkSpecialTriggers s)
      then (tv_gameFlags s)(''hellhound_ambush_triggered'' \<mapsto> True)
      else tv_gameFlags s)"
  "tv_shownBlockedDialogue (snd (checkSpecialTriggers s)) = tv_shownBlockedDialogue s"
  by (simp_all add: checkSpecialTriggers_def triggerHellhoundAmbush_def tv_startDialogue_def)

lemma tv_moveTweenOnComplete_flags:
  "tv_gameFlags (tv_moveTweenOnComplete s) =
     (if fst (checkSpecialTriggers (s\<lparr>tv_isMoving := False\<rparr>))
      then (tv_gameFlags s)(''hellhound_ambush_triggered'' \<mapsto> True)
      else tv_gameFlags s)"
  "tv_shownBlockedDialogue (tv_moveTweenOnComplete s) = tv_shownBlockedDialogue s"
proof -
  obtain fired s1 where c: "checkSpecialTriggers (s\<lparr>tv_isMoving := False\<rparr>) = (fired, s1)"
    by (cases "checkSpecialTriggers (s\<lparr>tv_isMoving := False\<rparr>)")
  have l: "tv_lore (checkLocationProximity s1) = tv_lore s1" by simp
  have f: "tv_gameFlags s1 = (if fired then (tv_gameFlags s)(''hellhound_ambush_triggered'' \<mapsto> True)
      else tv_gameFlags s)" "tv_shownBlockedDialogue s1 = tv_shownBlockedDialogue s"
    using checkSpecialTriggers_flags[of "s\<lparr>tv_isMoving := False\<rparr>"] by (simp_all add: c)
  show "tv_gameFlags (tv_moveTweenOnComplete s) =
     (if fst (checkSpecialTriggers (s\<lparr>tv_isMoving := False\<rparr>))
      then (tv_gameFlags s)(''hellhound_ambush_triggered'' \<mapsto> True)
      else tv_gameFlags s)"
    "tv_shownBlockedDialogue (tv_moveTweenOnComplete s) = tv_shownBlockedDialogue s"
    using l f by (simp_all add: tv_moveTweenOnComplete_def c tv_lore_def)
qed

definition ambushSpent :: "travel \<Rightarrow> bool" where
  "ambushSpent s = flag_set (tv_gameFlags s) ''hellhound_ambush_triggered''"

lemma tv_completeMoveTween_story:
  "tv_shownBlockedDialogue (tv_completeMoveTween s) = tv_shownBlockedDialogue s \<and>
   (if tv_pendingTweens s \<noteq> 0 \<and>
       flag_set (tv_gameFlags s) ''quetzi_shrine_battle_complete'' \<and>
       \<not> ambushSpent s \<and> tv_playerGridY s = 19
    then ambushSpent (tv_completeMoveTween s) \<and>
         ambushes (tv_completeMoveTween s) =
           ambushes s @ [SpecialTriggersChecked False (tv_playerGridX s) (tv_playerGridY s) True]
    else tv_gameFlags (tv_completeMoveTween s) = tv_gameFlags s \<and>
         ambushes (tv_completeMoveTween s) = ambushes s)"
  by (simp add: tv_completeMoveTween_def tv_moveTweenOnComplete_flags ambushes_def
      tv_moveTweenOnComplete_trace checkSpecialTriggers_fires_iff ambushSpent_def flag_set_def)

definition quiet :: "travel \<Rightarrow> travel \<Rightarrow> bool" where
  "quiet s s' =
     (tv_gameFlags s' = tv_gameFlags s \<and> ambushes s' = ambushes s \<and>
      tv_shownBlockedDialogue s \<subseteq> tv_shownBlockedDialogue s')"

lemma quiet_same: "tv_tally s' = tv_tally s \<Longrightarrow> tv_lore s' = tv_lore s \<Longrightarrow> quiet s s'"
  using ambushes_tally[of s' s] by (simp add: quiet_def tv_lore_def)

lemma quiet_trans:
  assumes "quiet s s1" and "quiet s1 s2"
  shows "quiet s s2"
proof -
  have "tv_shownBlockedDialogue s \<subseteq> tv_shownBlockedDialogue s1"
    and "tv_shownBlockedDialogue s1 \<subseteq> tv_shownBlockedDialogue s2"
    using assms by (simp_all add: quiet_def)
  then have "tv_shownBlockedDialogue s \<subseteq> tv_shownBlockedDialogue s2"
    by (rule subset_trans)
  moreover have "tv_gameFlags s2 = tv_gameFlags s" "ambushes s2 = ambushes s"
    using assms by (simp_all add: quiet_def)
  ultimately show ?thesis by (simp add: quiet_def)
qed

lemma tv_update_quiet: "quiet s (tv_update f s)"
proof -
  define s1 where "s1 = (if enterJustDown f then tv_tryInteract s else s)"
  have q1: "quiet s s1" by (rule quiet_same) (simp_all add: s1_def)
  have "\<And>dx dy. quiet s1 (tv_movePlayer dx dy s1)"
    using tv_movePlayer_story[of _ _ s1] by (simp add: quiet_def)
  then have qm: "\<And>dx dy. quiet s (tv_movePlayer dx dy s1)"
    using q1 quiet_trans by blast
  show ?thesis
  proof (cases rule: tv_update_branches[of s f])
    case overlay
    show ?thesis by (rule quiet_same) (simp_all add: tv_update_overlay[OF overlay])
  next
    case esc
    show ?thesis by (rule quiet_same) (simp_all add: tv_update_esc[OF esc])
  next
    case menu
    show ?thesis
      by (rule quiet_same) (simp_all add: tv_update_menu[OF menu] tv_selectChoiceMenuOption_def)
  next
    case world
    show ?thesis
      unfolding tv_update_world[OF world s1_def] by (simp add: q1 qm)
  qed
qed

lemma tv_step_story:
  "tv_shownBlockedDialogue s \<subseteq> tv_shownBlockedDialogue (tv_step e s) \<and>
   (ambushSpent s \<longrightarrow> ambushSpent (tv_step e s)) \<and>
   (ambushes (tv_step e s) = ambushes s \<or>
    (\<not> ambushSpent s \<and> ambushSpent (tv_step e s) \<and>
     flag_set (tv_gameFlags s) ''quetzi_shrine_battle_complete'' \<and> tv_playerGridY s = 19 \<and>
     ambushes (tv_step e s) =
       ambushes s @ [SpecialTriggersChecked False (tv_playerGridX s) (tv_playerGridY s) True]))"
proof (cases e)
  case (TvFrame f)
  then show ?thesis using tv_update_quiet[of s f]
    by (simp add: tv_step_def quiet_def ambushSpent_def)
next
  case TvMoveTweenDone
  then show ?thesis using tv_completeMoveTween_story[of s]
    by (auto simp: tv_step_def ambushSpent_def split: if_splits)
next
  case (TvTimerFired i)
  have "quiet s (tv_fireTimer i s)" by (rule quiet_same) simp_all
  then show ?thesis using TvTimerFired by (simp add: tv_step_def quiet_def ambushSpent_def)
next
  case (TvMovePlayerCall dx dy)
  then show ?thesis using tv_movePlayer_story[of dx dy s]
    by (simp add: tv_step_def ambushSpent_def)
qed

lemma tv_run_story:
  "tv_shownBlockedDialogue s \<subseteq> tv_shownBlockedDialogue (tv_run s es) \<and>
   (ambushSpent s \<longrightarrow> ambushSpent (tv_run s es) \<and> ambushes (tv_run s es) = ambushes s) \<and>
   length (ambushes (tv_run s es)) \<le> Suc (length (ambushes s))"
proof (induction es arbitrary: s)
  case Nil
  then show ?case by simp
next
  case (Cons e es)
  show ?case using Cons.IH[of "tv_step e s"] tv_step_story[of s e] by auto
qed

text \<open>The example travel scene created again after the ambush battle.\<close>

definition returnedTravel :: travel where
  "returnedTravel =
     (case tv_create
             (no_data\<lparr>d_gameFlags := Some [''quetzi_shrine_battle_complete'' \<mapsto> True,
                                           ''hellhound_ambush_triggered'' \<mapsto> True],
                      d_playerPosition := Some (2, 18)\<rparr>)
             (Some demoTravelMap) demoTravel of
        Inr s \<Rightarrow> s | Inl e \<Rightarrow> newTravelScene)"

lemma returnedTravel_fields:
  "tv_isMoving returnedTravel = False" "tv_isInDialogue returnedTravel = False"
  "tv_playerGridX returnedTravel = 2" "tv_playerGridY returnedTravel = 18"
  "tv_mapGridWidth returnedTravel = 8" "tv_mapGridHeight returnedTravel = 21"
  "tv_trace returnedTravel = []" "tv_pendingTweens returnedTravel = 0"
  "tv_terrain returnedTravel = replicate 21 [0, 0, 0, 0, 0, 0, 0, 2]"
  "tv_gameFlags returnedTravel = [''quetzi_shrine_battle_complete'' \<mapsto> True,
                                  ''hellhound_ambush_triggered'' \<mapsto> True]"
  "tv_locations returnedTravel =
     [mkLocation ''ishetar'' Town (0, 0) (1, 1) [''The town of Ishetar.''],
      mkLocation ''red_vale'' Blocked (4, 17) (6, 18) [''The Red Vale is too dangerous.'']]"
  by (simp_all add: returnedTravel_def tv_create_def demoTravelMap_def no_data_def
      demoTravel_fields or_string_def or_number_def Let_def)

text \<open>
  Claim C5. \<open>checkSpecialTriggers\<close> fires the hellhound ambush exactly when
  \<open>quetzi_shrine_battle_complete\<close> is set, \<open>hellhound_ambush_triggered\<close> is not, and
  the player's row is 19. Firing sets \<open>hellhound_ambush_triggered\<close>. Once that flag is
  set it stays set over every sequence of events of the scene, no further ambush is
  recorded, and \<open>checkSpecialTriggers\<close> does not fire. So along any sequence of events
  the ambush fires at most once.
\<close>

theorem hellhound_ambush_fires_at_most_once:
  "(fst (checkSpecialTriggers s) \<longleftrightarrow>
      flag_set (tv_gameFlags s) ''quetzi_shrine_battle_complete'' \<and>
      \<not> flag_set (tv_gameFlags s) ''hellhound_ambush_triggered'' \<and>
      tv_playerGridY s = 19) \<and>
   (fst (checkSpecialTriggers s) \<longrightarrow>
      flag_set (tv_gameFlags (snd (checkSpecialTriggers s))) ''hellhound_ambush_triggered'') \<and>
   (flag_set (tv_gameFlags s) ''hellhound_ambush_triggered'' \<longrightarrow>
      flag_set (tv_gameFlags (tv_run s es)) ''hellhound_ambush_triggered'' \<and>
      ambushes (tv_run s es) = ambushes s \<and>
      \<not> fst (checkSpecialTriggers (tv_run s es))) \<and>
   length (ambushes (tv_run s es)) \<le> Suc (length (ambushes s))"
proof -
  have a: "fst (checkSpecialTriggers s) \<longleftrightarrow>
      flag_set (tv_gameFlags s) ''quetzi_shrine_battle_complete'' \<and>
      \<not> flag_set (tv_gameFlags s) ''hellhound_ambush_triggered'' \<and>
      tv_playerGridY s = 19"
    by (rule checkSpecialTriggers_fires_iff)
  have b: "fst (checkSpecialTriggers s) \<longrightarrow>
      flag_set (tv_gameFlags (snd (checkSpecialTriggers s))) ''hellhound_ambush_triggered''"
    by (simp add: checkSpecialTriggers_flags flag_set_def)
  have c: "flag_set (tv_gameFlags s) ''hellhound_ambush_triggered'' \<longrightarrow>
      flag_set (tv_gameFlags (tv_run s es)) ''hellhound_ambush_triggered'' \<and>
      ambushes (tv_run s es) = ambushes s \<and>
      \<not> fst (checkSpecialTriggers (tv_run s es))"
    using tv_run_story[of s es]
    by (simp add: ambushSpent_def checkSpecialTriggers_fires_iff)
  have d: "length (ambushes (tv_run s es)) \<le> Suc (length (ambushes s))"
    using tv_run_story[of s es] by simp
  show ?thesis using a b c d by blast
qed

theorem hellhound_ambush_fires_at_most_once_witness:
  "fst (checkSpecialTriggers (demoTravel\<lparr>tv_playerGridY := 19\<rparr>)) \<and>
   flag_set (tv_gameFlags (snd (checkSpecialTriggers (demoTravel\<lparr>tv_playerGridY := 19\<rparr>))))
     ''hellhound_ambush_triggered'' \<and>
   ambushes (tv_run demoTravel [TvMovePlayerCall 0 1, TvMoveTweenDone]) =
     [SpecialTriggersChecked False 2 19 True] \<and>
   flag_set (tv_gameFlags returnedTravel) ''hellhound_ambush_triggered'' \<and>
   tv_playerGridY (tv_run returnedTravel [TvMovePlayerCall 0 1, TvMoveTweenDone]) = 19 \<and>
   ambushes (tv_run returnedTravel [TvMovePlayerCall 0 1, TvMoveTweenDone]) = []"
proof -
  have h1: "fst (checkSpecialTriggers (demoTravel\<lparr>tv_playerGridY := 19\<rparr>))"
    by (simp add: checkSpecialTriggers_fires_iff demoTravel_fields flag_set_def)
  have h2: "flag_set (tv_gameFlags returnedTravel) ''hellhound_ambush_triggered''"
    by (simp add: returnedTravel_fields flag_set_def)
  have e1: "ambushes (tv_run demoTravel [TvMovePlayerCall 0 1, TvMoveTweenDone]) =
     [SpecialTriggersChecked False 2 19 True]"
    using demoTravel_passable
    by (simp add: tv_step_def tv_accepted_move demoTravel_fields tv_startMove_def
        tv_completeMoveTween_def tv_moveTweenOnComplete_trace checkSpecialTriggers_def
        flag_set_def ambushes_def)
  have p: "tv_isPassable returnedTravel 2 19" "\<not> enteringBlocked returnedTravel 2 19"
    by (simp_all add: tv_isPassable_def enteringBlocked_def getLocationAtPosition_def
      returnedTravel_fields tv_terrainAt_def js_index_def mkLocation_def isWithinBounds_def)
  have e2: "tv_playerGridY (tv_run returnedTravel [TvMovePlayerCall 0 1, TvMoveTweenDone]) = 19"
    using p
    by (simp add: tv_step_def tv_accepted_move returnedTravel_fields tv_startMove_def
        tv_completeMoveTween_def)
  have e3: "ambushes returnedTravel = []"
    by (simp add: ambushes_def returnedTravel_fields)
  show ?thesis
    using h1 h2 e1 e2 e3
      hellhound_ambush_fires_at_most_once[of "demoTravel\<lparr>tv_playerGridY := 19\<rparr>" "[]"]
      hellhound_ambush_fires_at_most_once[of returnedTravel
        "[TvMovePlayerCall 0 1, TvMoveTweenDone]"]
    by simp
qed

subsection \<open>Blocked locations\<close>

text \<open>
  A travel map on which a battle location, listed first, overlaps a blocked location.
\<close>

definition overlapTravelMap :: travel_map where
  "overlapTravelMap =
     demoTravelMap\<lparr>tm_locations :=
       [mkLocation ''hunting_paths'' Battle (4, 17) (6, 18) [''The old hunting paths.''],
        mkLocation ''red_vale'' Blocked (5, 18) (7, 19) [''The Red Vale is too dangerous.'']]\<rparr>"

definition overlapTravel :: travel where
  "overlapTravel =
     (case tv_create (no_data\<lparr>d_playerPosition := Some (4, 18)\<rparr>) (Some overlapTravelMap)
             newTravelScene of
        Inr s \<Rightarrow> s | Inl e \<Rightarrow> newTravelScene)"

lemma overlapTravel_fields:
  "tv_isMoving overlapTravel = False" "tv_isInDialogue overlapTravel = False"
  "tv_playerGridX overlapTravel = 4" "tv_playerGridY overlapTravel = 18"
  "tv_mapGridWidth overlapTravel = 8" "tv_mapGridHeight overlapTravel = 21"
  "tv_terrain overlapTravel = replicate 21 [0, 0, 0, 0, 0, 0, 0, 2]"
  "tv_locations overlapTravel =
     [mkLocation ''hunting_paths'' Battle (4, 17) (6, 18) [''The old hunting paths.''],
      mkLocation ''red_vale'' Blocked (5, 18) (7, 19) [''The Red Vale is too dangerous.'']]"
  by (simp_all add: overlapTravel_def overlapTravelMap_def tv_create_def demoTravelMap_def
      no_data_def newTravelScene_def or_string_def or_number_def Let_def)

text \<open>
  Claim C9 as stated fails where locations overlap: the tile \<open>(5, 18)\<close> lies inside the
  bounds of the blocked location, but \<open>getLocationAtPosition\<close> returns the battle
  location listed before it, and the move is accepted.
\<close>

theorem blocked_bounds_entered_counterexample:
  "loc_type (tv_locations overlapTravel ! 1) = Blocked \<and>
   isWithinBounds 5 18 (bounds (tv_locations overlapTravel ! 1)) \<and>
   tv_playerGridX overlapTravel = 4 \<and> tv_playerGridY overlapTravel = 18 \<and>
   tv_playerGridX (tv_movePlayer 1 0 overlapTravel) = 5 \<and>
   tv_playerGridY (tv_movePlayer 1 0 overlapTravel) = 18"
proof -
  have p: "tv_isPassable overlapTravel 5 18" "\<not> enteringBlocked overlapTravel 5 18"
    by (simp_all add: tv_isPassable_def enteringBlocked_def getLocationAtPosition_def
      overlapTravel_fields tv_terrainAt_def js_index_def mkLocation_def isWithinBounds_def)
  have l: "loc_type (tv_locations overlapTravel ! 1) = Blocked"
    "isWithinBounds 5 18 (bounds (tv_locations overlapTravel ! 1))"
    by (simp_all add: overlapTravel_fields mkLocation_def isWithinBounds_def)
  show ?thesis
    using p l by (simp add: tv_accepted_move overlapTravel_fields tv_startMove_def)
qed

text \<open>
  The trace entries of the warnings handed to the dialogue renderer, and how many of them
  are for the blocked location with a given id. \<open>warnedAtMostOnce i s s'\<close> relates a state
  to a later one: no id has left the set of shown warnings, and the warning of \<open>i\<close> has
  either not started in between, or started once, with \<open>i\<close> absent from the set before
  and recorded in it after.
\<close>

fun isBlockedWarning :: "effect \<Rightarrow> bool" where
  "isBlockedWarning (BlockedWarningStarted i) = True"
| "isBlockedWarning e = False"

definition warnings :: "travel \<Rightarrow> effect list" where
  "warnings s = filter isBlockedWarning (tv_trace s)"

definition warningStarts :: "string \<Rightarrow> travel \<Rightarrow> nat" where
  "warningStarts i s = count_list (warnings s) (BlockedWarningStarted i)"

lemma warnings_updates [simp]:
  "warnings (s\<lparr>tv_playerFacing := a\<rparr>) = warnings s"
  "warnings (s\<lparr>tv_isInDialogue := b\<rparr>) = warnings s"
  "warnings (s\<lparr>tv_shownBlockedDialogue := c\<rparr>) = warnings s"
  "warnings (s\<lparr>tv_dialogueRenderer := d\<rparr>) = warnings s"
  "warnings (s\<lparr>tv_choiceMenuSelectedIndex := e\<rparr>) = warnings s"
  "warnings (s\<lparr>tv_choiceMenuVisible := g\<rparr>) = warnings s"
  "warnings (s\<lparr>tv_levelUpOverlay := h\<rparr>) = warnings s"
  "warnings (s\<lparr>tv_gameFlags := j\<rparr>) = warnings s"
  "warnings (s\<lparr>tv_pendingTimers := k\<rparr>) = warnings s"
  "warnings (s\<lparr>tv_isMoving := l\<rparr>) = warnings s"
  "warnings (s\<lparr>tv_pendingTweens := m\<rparr>) = warnings s"
  "warnings (s\<lparr>tv_trace := tv_trace s @ [SceneStart n p]\<rparr>) = warnings s"
  "warnings (s\<lparr>tv_trace := tv_trace s @ [ScenePause, SceneLaunch n p]\<rparr>) = warnings s"
  by (simp_all add: warnings_def)

lemma warnings_startDialogue [simp]: "warnings (tv_startDialogue ls n cb s) = warnings s"
  by (simp add: warnings_def tv_startDialogue_def)

lemma warnings_startMove [simp]: "warnings (tv_startMove x y s) = warnings s"
  by (simp add: warnings_def tv_startMove_def)

lemma shown_startMove [simp]:
  "tv_shownBlockedDialogue (tv_startMove x y s) = tv_shownBlockedDialogue s"
  by (simp add: tv_startMove_def)

lemma warnings_travelToLocation [simp]: "warnings (travelToLocation l s) = warnings s"
  by (simp add: travelToLocation_def Let_def)

lemma warnings_promptLocationInteraction [simp]:
  "warnings (promptLocationInteraction l s) = warnings s"
  by (simp add: promptLocationInteraction_def Let_def)

lemma warnings_runDialogueCallback [simp]: "warnings (tv_runDialogueCallback cb s) = warnings s"
  by (cases cb) (simp_all add: tv_runDialogueCallback_def)

lemma warnings_advance [simp]: "warnings (tv_advance s) = warnings s"
  by (simp add: tv_advance_def split: option.splits)

lemma warnings_tryInteract [simp]: "warnings (tv_tryInteract s) = warnings s"
  by (simp add: tv_tryInteract_def split: option.splits)

lemma warnings_fireTimer [simp]: "warnings (tv_fireTimer i s) = warnings s"
  by (simp add: tv_fireTimer_def warnings_def)

lemma warnings_completeMoveTween [simp]: "warnings (tv_completeMoveTween s) = warnings s"
  by (simp add: tv_completeMoveTween_def warnings_def tv_moveTweenOnComplete_trace)

definition warnedAtMostOnce :: "string \<Rightarrow> travel \<Rightarrow> travel \<Rightarrow> bool" where
  "warnedAtMostOnce i s s' =
     (tv_shownBlockedDialogue s \<subseteq> tv_shownBlockedDialogue s' \<and>
      (warningStarts i s' = warningStarts i s \<or>
       (i \<notin> tv_shownBlockedDialogue s \<and> i \<in> tv_shownBlockedDialogue s' \<and>
        warningStarts i s' = Suc (warningStarts i s))))"

lemma warnedAtMostOnce_same:
  "warnings s' = warnings s \<Longrightarrow> tv_shownBlockedDialogue s' = tv_shownBlockedDialogue s \<Longrightarrow>
   warnedAtMostOnce i s s'"
  by (simp add: warnedAtMostOnce_def warningStarts_def)

lemma warnedAtMostOnce_trans:
  assumes "warnings s1 = warnings s" and "tv_shownBlockedDialogue s1 = tv_shownBlockedDialogue s"
    and "warnedAtMostOnce i s1 s2"
  shows "warnedAtMostOnce i s s2"
  using assms by (simp add: warnedAtMostOnce_def warningStarts_def)

lemma tv_movePlayer_warnedAtMostOnce: "warnedAtMostOnce i s (tv_movePlayer dx dy s)"
proof -
  have a: "\<And>fc. warnedAtMostOnce i s (s\<lparr>tv_playerFacing := fc\<rparr>)"
    by (rule warnedAtMostOnce_same) simp_all
  have b: "\<And>x y fc. warnedAtMostOnce i s (tv_startMove x y (s\<lparr>tv_playerFacing := fc\<rparr>))"
    by (rule warnedAtMostOnce_same) simp_all
  have c: "\<And>l fc. loc_id l \<notin> tv_shownBlockedDialogue s \<Longrightarrow>
      warnedAtMostOnce i s
        (tv_startDialogue (description l) (loc_name l) TvEndDialogue
           (s\<lparr>tv_playerFacing := fc,
              tv_shownBlockedDialogue := insert (loc_id l) (tv_shownBlockedDialogue s),
              tv_isInDialogue := True,
              tv_trace := tv_trace s @ [BlockedWarningStarted (loc_id l)]\<rparr>))"
    by (auto simp: warnedAtMostOnce_def warningStarts_def warnings_def tv_startDialogue_def)
  show ?thesis
    unfolding tv_movePlayer_shape
    by (simp add: a b c warnedAtMostOnce_same split: option.splits)
qed

lemma tv_update_warnedAtMostOnce: "warnedAtMostOnce i s (tv_update f s)"
proof -
  define s1 where "s1 = (if enterJustDown f then tv_tryInteract s else s)"
  have w1: "warnings s1 = warnings s" by (simp add: s1_def)
  have "tv_lore s1 = tv_lore s" by (simp add: s1_def)
  then have l1: "tv_shownBlockedDialogue s1 = tv_shownBlockedDialogue s"
    by (simp add: tv_lore_def)
  have q1: "warnedAtMostOnce i s s1" using w1 l1 by (rule warnedAtMostOnce_same)
  have qm: "\<And>dx dy. warnedAtMostOnce i s (tv_movePlayer dx dy s1)"
    using warnedAtMostOnce_trans[OF w1 l1 tv_movePlayer_warnedAtMostOnce] .
  show ?thesis
  proof (cases rule: tv_update_branches[of s f])
    case overlay
    show ?thesis by (rule warnedAtMostOnce_same) (simp_all add: tv_update_overlay[OF overlay])
  next
    case esc
    show ?thesis by (rule warnedAtMostOnce_same) (simp_all add: tv_update_esc[OF esc])
  next
    case menu
    show ?thesis
      by (rule warnedAtMostOnce_same)
         (simp_all add: tv_update_menu[OF menu] tv_selectChoiceMenuOption_def)
  next
    case world
    show ?thesis
      unfolding tv_update_world[OF world s1_def] by (simp add: q1 qm)
  qed
qed

lemma tv_step_warnedAtMostOnce: "warnedAtMostOnce i s (tv_step e s)"
proof (cases e)
  case (TvFrame f)
  then show ?thesis by (simp add: tv_step_def tv_update_warnedAtMostOnce)
next
  case TvMoveTweenDone
  have "warnedAtMostOnce i s (tv_completeMoveTween s)"
    using tv_completeMoveTween_story[of s] by (intro warnedAtMostOnce_same) simp_all
  then show ?thesis using TvMoveTweenDone by (simp add: tv_step_def)
next
  case (TvTimerFired k)
  have "tv_lore (tv_fireTimer k s) = tv_lore s" by simp
  then have "warnedAtMostOnce i s (tv_fireTimer k s)"
    by (intro warnedAtMostOnce_same) (simp_all add: tv_lore_def)
  then show ?thesis using TvTimerFired by (simp add: tv_step_def)
next
  case (TvMovePlayerCall dx dy)
  then show ?thesis by (simp add: tv_step_def tv_movePlayer_warnedAtMostOnce)
qed

lemma tv_run_warningStarts:
  "warningStarts i (tv_run s es) \<le>
     warningStarts i s + (if i \<in> tv_shownBlockedDialogue s then 0 else 1)"
proof (induction es arbitrary: s)
  case Nil
  then show ?case by simp
next
  case (Cons e es)
  show ?case
    using Cons.IH[of "tv_step e s"] tv_step_warnedAtMostOnce[of i s e]
    by (auto simp: warnedAtMostOnce_def split: if_splits)
qed

lemma tv_create_clears_warnings:
  assumes "tv_create data mapData s0 = Inr s1"
  shows "tv_shownBlockedDialogue s1 = {}"
  using assms
  by (auto simp: tv_create_def Let_def split: option.splits if_splits)

lemma shown_warning_silences:
  assumes "getLocationAtPosition s (tv_playerGridX s + dx) (tv_playerGridY s + dy) = Some l"
    and "loc_type l = Blocked" and "loc_id l \<in> tv_shownBlockedDialogue s"
  shows "tv_movePlayer dx dy s = s\<lparr>tv_playerFacing := tv_playerFacing (tv_movePlayer dx dy s)\<rparr>"
  using assms by (simp add: tv_movePlayer_shape)

text \<open>
  The example travel scene after the first warning of the Red Vale, created again as on
  the return from another scene.
\<close>

definition reenteredTravel :: travel where
  "reenteredTravel =
     (case tv_create (no_data\<lparr>d_playerPosition := Some (3, 18)\<rparr>) (Some demoTravelMap)
             (tv_movePlayer 1 0 (demoTravel\<lparr>tv_playerGridX := 3\<rparr>)) of
        Inr s \<Rightarrow> s | Inl e \<Rightarrow> newTravelScene)"

lemma demoTravel_warned:
  "tv_movePlayer 1 0 (demoTravel\<lparr>tv_playerGridX := 3\<rparr>) =
     demoTravel\<lparr>tv_playerGridX := 3, tv_playerFacing := Right,
       tv_shownBlockedDialogue := {''red_vale''}, tv_isInDialogue := True,
       tv_trace := [BlockedWarningStarted ''red_vale''],
       tv_dialogueRenderer :=
         Some \<lparr>ds_lines = [''The Red Vale is too dangerous.''], ds_speaker = ''red_vale'',
               ds_onComplete = TvEndDialogue\<rparr>\<rparr>"
  by (simp add: tv_movePlayer_shape demoTravel_fields tv_isPassable_def tv_terrainAt_def
      js_index_def getLocationAtPosition_def isWithinBounds_def mkLocation_def facingAfter_def
      tv_startDialogue_def)

lemma reenteredTravel_fields:
  "tv_isMoving reenteredTravel = False" "tv_isInDialogue reenteredTravel = False"
  "tv_playerGridX reenteredTravel = 3" "tv_playerGridY reenteredTravel = 18"
  "tv_mapGridWidth reenteredTravel = 8" "tv_mapGridHeight reenteredTravel = 21"
  "tv_trace reenteredTravel = [BlockedWarningStarted ''red_vale'']"
  "tv_shownBlockedDialogue reenteredTravel = {}"
  "tv_terrain reenteredTravel = replicate 21 [0, 0, 0, 0, 0, 0, 0, 2]"
  "tv_locations reenteredTravel =
     [mkLocation ''ishetar'' Town (0, 0) (1, 1) [''The town of Ishetar.''],
      mkLocation ''red_vale'' Blocked (4, 17) (6, 18) [''The Red Vale is too dangerous.'']]"
  by (simp_all add: reenteredTravel_def demoTravel_warned tv_create_def demoTravelMap_def
      no_data_def or_string_def or_number_def Let_def)

lemma tv_movePlayer_facing:
  "\<not> tv_isMoving s \<Longrightarrow> \<not> tv_isInDialogue s \<Longrightarrow>
   tv_playerFacing (tv_movePlayer dx dy s) = facingAfter dx dy (tv_playerFacing s)"
  by (simp add: tv_movePlayer_shape tv_startDialogue_def tv_startMove_def split: option.splits)

text \<open>
  Claim C9, amended. A move onto a tile whose first location in declared order (the one
  \<open>getLocationAtPosition\<close> returns) is of type blocked never changes the player's
  position and starts no move. When such a move is attempted with no animation and no
  dialogue running, onto a tile inside the grid and not of impassable terrain, the warning
  dialogue of that location starts exactly when its id is not yet in
  \<open>shownBlockedDialogue\<close>, and the id is then recorded; if the id is recorded already,
  nothing but the facing direction changes. A target outside the grid or of impassable
  terrain is rejected before any location is looked up, with only the facing direction
  changed. Over every sequence of \<open>movePlayer\<close> calls, frames, tween completions and
  delayed calls between one \<open>create\<close> and the next, the set of recorded ids only grows,
  the warning of a location id starts at most once, and not at all when the id is
  recorded at the start, and once an id is recorded every later attempt on a blocked
  location of that id changes nothing but the facing direction. \<open>create\<close> empties the
  set, so after the scene is created again the warning can start once more.
\<close>

theorem blocked_location_rejects_move:
  "(enteringBlocked s (tv_playerGridX s + dx) (tv_playerGridY s + dy) \<longrightarrow>
      tv_playerGridX (tv_movePlayer dx dy s) = tv_playerGridX s \<and>
      tv_playerGridY (tv_movePlayer dx dy s) = tv_playerGridY s \<and>
      tv_isMoving (tv_movePlayer dx dy s) = tv_isMoving s \<and>
      tv_pendingTweens (tv_movePlayer dx dy s) = tv_pendingTweens s \<and>
      acceptedMoves (tv_trace (tv_movePlayer dx dy s)) = acceptedMoves (tv_trace s)) \<and>
   (\<not> tv_isMoving s \<and> \<not> tv_isInDialogue s \<and>
    tv_isPassable s (tv_playerGridX s + dx) (tv_playerGridY s + dy) \<and>
    getLocationAtPosition s (tv_playerGridX s + dx) (tv_playerGridY s + dy) = Some l \<and>
    loc_type l = Blocked \<longrightarrow>
      (if loc_id l \<in> tv_shownBlockedDialogue s
       then tv_movePlayer dx dy s =
              s\<lparr>tv_playerFacing := tv_playerFacing (tv_movePlayer dx dy s)\<rparr>
       else tv_movePlayer dx dy s =
              s\<lparr>tv_playerFacing := tv_playerFacing (tv_movePlayer dx dy s),
                tv_shownBlockedDialogue := insert (loc_id l) (tv_shownBlockedDialogue s),
                tv_isInDialogue := True,
                tv_trace := tv_trace s @ [BlockedWarningStarted (loc_id l)],
                tv_dialogueRenderer :=
                  Some \<lparr>ds_lines = description l, ds_speaker = loc_name l,
                        ds_onComplete = TvEndDialogue\<rparr>\<rparr>)) \<and>
   (\<not> tv_isMoving s \<and> \<not> tv_isInDialogue s \<and>
    \<not> tv_isPassable s (tv_playerGridX s + dx) (tv_playerGridY s + dy) \<longrightarrow>
      tv_movePlayer dx dy s = s\<lparr>tv_playerFacing := tv_playerFacing (tv_movePlayer dx dy s)\<rparr>) \<and>
   tv_shownBlockedDialogue s \<subseteq> tv_shownBlockedDialogue (tv_run s es) \<and>
   warningStarts i (tv_run s es) \<le>
     warningStarts i s + (if i \<in> tv_shownBlockedDialogue s then 0 else 1) \<and>
   (i \<in> tv_shownBlockedDialogue s \<and>
    getLocationAtPosition (tv_run s es) (tv_playerGridX (tv_run s es) + dx')
      (tv_playerGridY (tv_run s es) + dy') = Some l' \<and>
    loc_type l' = Blocked \<and> loc_id l' = i \<longrightarrow>
      tv_movePlayer dx' dy' (tv_run s es) =
        (tv_run s es)\<lparr>tv_playerFacing := tv_playerFacing (tv_movePlayer dx' dy' (tv_run s es))\<rparr>) \<and>
   (tv_create data mapData s0 = Inr s1 \<longrightarrow> tv_shownBlockedDialogue s1 = {})"
proof -
  have a: "enteringBlocked s (tv_playerGridX s + dx) (tv_playerGridY s + dy) \<longrightarrow>
      tv_playerGridX (tv_movePlayer dx dy s) = tv_playerGridX s \<and>
      tv_playerGridY (tv_movePlayer dx dy s) = tv_playerGridY s \<and>
      tv_isMoving (tv_movePlayer dx dy s) = tv_isMoving s \<and>
      tv_pendingTweens (tv_movePlayer dx dy s) = tv_pendingTweens s \<and>
      acceptedMoves (tv_trace (tv_movePlayer dx dy s)) = acceptedMoves (tv_trace s)"
    by (simp add: tv_movePlayer_shape enteringBlocked_def tv_startDialogue_def acceptedMoves_def
        split: option.splits)
  have b: "\<not> tv_isMoving s \<and> \<not> tv_isInDialogue s \<and>
    tv_isPassable s (tv_playerGridX s + dx) (tv_playerGridY s + dy) \<and>
    getLocationAtPosition s (tv_playerGridX s + dx) (tv_playerGridY s + dy) = Some l \<and>
    loc_type l = Blocked \<longrightarrow>
      (if loc_id l \<in> tv_shownBlockedDialogue s
       then tv_movePlayer dx dy s =
              s\<lparr>tv_playerFacing := tv_playerFacing (tv_movePlayer dx dy s)\<rparr>
       else tv_movePlayer dx dy s =
              s\<lparr>tv_playerFacing := tv_playerFacing (tv_movePlayer dx dy s),
                tv_shownBlockedDialogue := insert (loc_id l) (tv_shownBlockedDialogue s),
                tv_isInDialogue := True,
                tv_trace := tv_trace s @ [BlockedWarningStarted (loc_id l)],
                tv_dialogueRenderer :=
                  Some \<lparr>ds_lines = description l, ds_speaker = loc_name l,
                        ds_onComplete = TvEndDialogue\<rparr>\<rparr>)"
    by (simp add: tv_movePlayer_shape tv_startDialogue_def)
  have b2: "\<not> tv_isMoving s \<and> \<not> tv_isInDialogue s \<and>
    \<not> tv_isPassable s (tv_playerGridX s + dx) (tv_playerGridY s + dy) \<longrightarrow>
      tv_movePlayer dx dy s = s\<lparr>tv_playerFacing := tv_playerFacing (tv_movePlayer dx dy s)\<rparr>"
    by (simp add: tv_movePlayer_shape)
  have c: "tv_shownBlockedDialogue s \<subseteq> tv_shownBlockedDialogue (tv_run s es)"
    using tv_run_story[of s es] by simp
  have d: "warningStarts i (tv_run s es) \<le>
     warningStarts i s + (if i \<in> tv_shownBlockedDialogue s then 0 else 1)"
    by (rule tv_run_warningStarts)
  have e: "i \<in> tv_shownBlockedDialogue s \<and>
    getLocationAtPosition (tv_run s es) (tv_playerGridX (tv_run s es) + dx')
      (tv_playerGridY (tv_run s es) + dy') = Some l' \<and>
    loc_type l' = Blocked \<and> loc_id l' = i \<longrightarrow>
      tv_movePlayer dx' dy' (tv_run s es) =
        (tv_run s es)\<lparr>tv_playerFacing := tv_playerFacing (tv_movePlayer dx' dy' (tv_run s es))\<rparr>"
  proof (intro impI)
    assume h: "i \<in> tv_shownBlockedDialogue s \<and>
      getLocationAtPosition (tv_run s es) (tv_playerGridX (tv_run s es) + dx')
        (tv_playerGridY (tv_run s es) + dy') = Some l' \<and>
      loc_type l' = Blocked \<and> loc_id l' = i"
    then have "loc_id l' \<in> tv_shownBlockedDialogue (tv_run s es)" using c by blast
    then show "tv_movePlayer dx' dy' (tv_run s es) =
        (tv_run s es)\<lparr>tv_playerFacing := tv_playerFacing (tv_movePlayer dx' dy' (tv_run s es))\<rparr>"
      using h shown_warning_silences[of "tv_run s es" dx' dy' l'] by blast
  qed
  have f: "tv_create data mapData s0 = Inr s1 \<longrightarrow> tv_shownBlockedDialogue s1 = {}"
    using tv_create_clears_warnings by blast
  show ?thesis using a b b2 c d e f by blast
qed

theorem blocked_location_rejects_move_witness:
  "enteringBlocked (demoTravel\<lparr>tv_playerGridX := 3\<rparr>) 4 18 \<and>
   \<not> tv_isMoving (demoTravel\<lparr>tv_playerGridX := 3\<rparr>) \<and>
   \<not> tv_isInDialogue (demoTravel\<lparr>tv_playerGridX := 3\<rparr>) \<and>
   tv_isPassable (demoTravel\<lparr>tv_playerGridX := 3\<rparr>) 4 18 \<and>
   tv_shownBlockedDialogue (demoTravel\<lparr>tv_playerGridX := 3\<rparr>) = {} \<and>
   tv_playerGridX (tv_movePlayer 1 0 (demoTravel\<lparr>tv_playerGridX := 3\<rparr>)) = 3 \<and>
   tv_shownBlockedDialogue (tv_movePlayer 1 0 (demoTravel\<lparr>tv_playerGridX := 3\<rparr>)) = {''red_vale''} \<and>
   tv_isInDialogue (tv_movePlayer 1 0 (demoTravel\<lparr>tv_playerGridX := 3\<rparr>)) \<and>
   tv_trace (tv_movePlayer 1 0 (demoTravel\<lparr>tv_playerGridX := 3\<rparr>)) =
     [BlockedWarningStarted ''red_vale''] \<and>
   tv_movePlayer 1 0 (demoTravel\<lparr>tv_playerGridX := 3, tv_shownBlockedDialogue := {''red_vale''}\<rparr>) =
     demoTravel\<lparr>tv_playerGridX := 3, tv_shownBlockedDialogue := {''red_vale''},
       tv_playerFacing := Right\<rparr> \<and>
   tv_movePlayer 1 0
     (tv_run (demoTravel\<lparr>tv_playerGridX := 3, tv_shownBlockedDialogue := {''red_vale''}\<rparr>)
        [TvMovePlayerCall 1 0]) =
     demoTravel\<lparr>tv_playerGridX := 3, tv_shownBlockedDialogue := {''red_vale''},
       tv_playerFacing := Right\<rparr> \<and>
   warningStarts ''red_vale'' (tv_movePlayer 1 0 (demoTravel\<lparr>tv_playerGridX := 3\<rparr>)) = 1 \<and>
   warningStarts ''red_vale''
     (tv_run (tv_movePlayer 1 0 (demoTravel\<lparr>tv_playerGridX := 3\<rparr>))
        [TvFrame (idleFrame\<lparr>enterJustDown := True\<rparr>), TvMovePlayerCall 1 0,
         TvFrame (idleFrame\<lparr>rightIsDown := True\<rparr>)]) \<le> 1 \<and>
   \<not> tv_isPassable (demoTravel\<lparr>tv_playerGridX := 6\<rparr>) 7 18 \<and>
   tv_movePlayer 1 0 (demoTravel\<lparr>tv_playerGridX := 6\<rparr>) =
     demoTravel\<lparr>tv_playerGridX := 6, tv_playerFacing := Right\<rparr> \<and>
   tv_create (no_data\<lparr>d_playerPosition := Some (3, 18)\<rparr>) (Some demoTravelMap)
     (tv_movePlayer 1 0 (demoTravel\<lparr>tv_playerGridX := 3\<rparr>)) = Inr reenteredTravel \<and>
   tv_shownBlockedDialogue reenteredTravel = {} \<and>
   tv_trace (tv_movePlayer 1 0 reenteredTravel) =
     [BlockedWarningStarted ''red_vale'', BlockedWarningStarted ''red_vale'']"
proof -
  let ?s = "demoTravel\<lparr>tv_playerGridX := 3\<rparr>"
  let ?s2 = "demoTravel\<lparr>tv_playerGridX := 3, tv_shownBlockedDialogue := {''red_vale''}\<rparr>"
  let ?s6 = "demoTravel\<lparr>tv_playerGridX := 6\<rparr>"
  let ?l = "mkLocation ''red_vale'' Blocked (4, 17) (6, 18) [''The Red Vale is too dangerous.'']"
  let ?es = "[TvFrame (idleFrame\<lparr>enterJustDown := True\<rparr>), TvMovePlayerCall 1 0,
         TvFrame (idleFrame\<lparr>rightIsDown := True\<rparr>)]"
  have h: "\<not> tv_isMoving ?s" "\<not> tv_isInDialogue ?s" "tv_isPassable ?s 4 18"
    "enteringBlocked ?s 4 18" "tv_shownBlockedDialogue ?s = {}"
    "tv_playerGridX ?s + 1 = 4" "tv_playerGridY ?s + 0 = 18"
    "getLocationAtPosition ?s 4 18 = Some ?l" "loc_type ?l = Blocked" "loc_id ?l = ''red_vale''"
    "tv_trace ?s = []"
    by (simp_all add: demoTravel_fields tv_isPassable_def tv_terrainAt_def enteringBlocked_def
        js_index_def getLocationAtPosition_def isWithinBounds_def mkLocation_def)
  have h2: "\<not> tv_isMoving ?s2" "\<not> tv_isInDialogue ?s2" "tv_isPassable ?s2 4 18"
    "tv_playerGridX ?s2 + 1 = 4" "tv_playerGridY ?s2 + 0 = 18"
    "getLocationAtPosition ?s2 4 18 = Some ?l" "tv_shownBlockedDialogue ?s2 = {''red_vale''}"
    by (simp_all add: demoTravel_fields tv_isPassable_def tv_terrainAt_def
        js_index_def getLocationAtPosition_def isWithinBounds_def mkLocation_def)
  have h6: "\<not> tv_isMoving ?s6" "\<not> tv_isInDialogue ?s6" "\<not> tv_isPassable ?s6 7 18"
    "tv_playerGridX ?s6 + 1 = 7" "tv_playerGridY ?s6 + 0 = 18"
    by (simp_all add: demoTravel_fields tv_isPassable_def tv_terrainAt_def js_index_def)
  have f2: "tv_playerFacing (tv_movePlayer 1 0 ?s2) = Right"
    using h2 by (simp add: tv_movePlayer_shape facingAfter_def mkLocation_def)
  have f6: "tv_playerFacing (tv_movePlayer 1 0 ?s6) = Right"
    using h6 by (simp add: tv_movePlayer_shape facingAfter_def)
  have r1: "tv_movePlayer 1 0 ?s =
              ?s\<lparr>tv_playerFacing := tv_playerFacing (tv_movePlayer 1 0 ?s),
                tv_shownBlockedDialogue := insert (loc_id ?l) (tv_shownBlockedDialogue ?s),
                tv_isInDialogue := True,
                tv_trace := tv_trace ?s @ [BlockedWarningStarted (loc_id ?l)],
                tv_dialogueRenderer :=
                  Some \<lparr>ds_lines = description ?l, ds_speaker = loc_name ?l,
                        ds_onComplete = TvEndDialogue\<rparr>\<rparr>"
    using h blocked_location_rejects_move[where s = ?s and dx = 1 and dy = 0 and l = ?l] by simp
  have x: "tv_playerGridX (tv_movePlayer 1 0 ?s) = 3"
    "tv_shownBlockedDialogue (tv_movePlayer 1 0 ?s) = {''red_vale''}"
    "tv_isInDialogue (tv_movePlayer 1 0 ?s)"
    "tv_trace (tv_movePlayer 1 0 ?s) = [BlockedWarningStarted ''red_vale'']"
    by (subst r1, simp add: h demoTravel_fields)+
  have r2: "tv_movePlayer 1 0 ?s2 = ?s2\<lparr>tv_playerFacing := tv_playerFacing (tv_movePlayer 1 0 ?s2)\<rparr>"
    using h2 h(9,10)
      blocked_location_rejects_move[where s = ?s2 and dx = 1 and dy = 0 and l = ?l] by simp
  have y: "tv_movePlayer 1 0 ?s2 = ?s2\<lparr>tv_playerFacing := Right\<rparr>"
    using r2 f2 by simp
  have k: "tv_run ?s2 [TvMovePlayerCall 1 0] = ?s2\<lparr>tv_playerFacing := Right\<rparr>"
    by (simp add: tv_step_def y)
  have k2: "getLocationAtPosition (tv_run ?s2 [TvMovePlayerCall 1 0])
      (tv_playerGridX (tv_run ?s2 [TvMovePlayerCall 1 0]) + 1)
      (tv_playerGridY (tv_run ?s2 [TvMovePlayerCall 1 0]) + 0) = Some ?l"
    unfolding k using h2(6) by (simp add: demoTravel_fields getLocationAtPosition_def)
  have f3: "tv_playerFacing (tv_movePlayer 1 0 (?s2\<lparr>tv_playerFacing := Right\<rparr>)) = Right"
    by (simp add: tv_movePlayer_facing demoTravel_fields facingAfter_def)
  have r3: "tv_movePlayer 1 0 (tv_run ?s2 [TvMovePlayerCall 1 0]) =
      (tv_run ?s2 [TvMovePlayerCall 1 0])\<lparr>tv_playerFacing :=
         tv_playerFacing (tv_movePlayer 1 0 (tv_run ?s2 [TvMovePlayerCall 1 0]))\<rparr>"
    using k2 h2(7) h(9,10)
      blocked_location_rejects_move[where s = ?s2 and es = "[TvMovePlayerCall 1 0]"
        and i = "''red_vale''" and dx' = 1 and dy' = 0 and l' = ?l]
    by simp
  have z: "tv_movePlayer 1 0 (tv_run ?s2 [TvMovePlayerCall 1 0]) = ?s2\<lparr>tv_playerFacing := Right\<rparr>"
    using r3 f3 unfolding k by simp
  have n1: "warningStarts ''red_vale'' (tv_movePlayer 1 0 ?s) = 1"
    by (simp add: warningStarts_def warnings_def x)
  have n2: "warningStarts ''red_vale'' (tv_run (tv_movePlayer 1 0 ?s) ?es) \<le> 1"
    using blocked_location_rejects_move[where s = "tv_movePlayer 1 0 ?s" and es = ?es
        and i = "''red_vale''"] n1 x(2)
    by simp
  have r6: "tv_movePlayer 1 0 ?s6 = ?s6\<lparr>tv_playerFacing := tv_playerFacing (tv_movePlayer 1 0 ?s6)\<rparr>"
    using h6 blocked_location_rejects_move[where s = ?s6 and dx = 1 and dy = 0] by simp
  have y6: "tv_movePlayer 1 0 ?s6 = ?s6\<lparr>tv_playerFacing := Right\<rparr>"
    using r6 f6 by simp
  have c: "tv_create (no_data\<lparr>d_playerPosition := Some (3, 18)\<rparr>) (Some demoTravelMap)
     (tv_movePlayer 1 0 ?s) = Inr reenteredTravel"
    by (simp add: reenteredTravel_def tv_create_def no_data_def Let_def)
  have c1: "tv_shownBlockedDialogue reenteredTravel = {}"
    using c blocked_location_rejects_move[where data = "no_data\<lparr>d_playerPosition := Some (3, 18)\<rparr>"
        and mapData = "Some demoTravelMap" and ?s0.0 = "tv_movePlayer 1 0 ?s"
        and ?s1.0 = reenteredTravel]
    by blast
  have c2: "tv_trace (tv_movePlayer 1 0 reenteredTravel) =
     [BlockedWarningStarted ''red_vale'', BlockedWarningStarted ''red_vale'']"
    by (simp add: tv_movePlayer_shape reenteredTravel_fields tv_isPassable_def tv_terrainAt_def
      js_index_def getLocationAtPosition_def isWithinBounds_def mkLocation_def
      tv_startDialogue_def)
  show ?thesis using h(1-5) x y z n1 n2 h6(3) y6 c c1 c2 by simp
qed

section \<open>More properties of IshetarScene2\<close>

subsection \<open>The north gate\<close>

text \<open>
  \<open>town\<close> is the part of the scene that \<open>create\<close> sets up and nothing changes
  afterwards: the grid size, the terrain and the NPCs.
\<close>

definition town :: "scene2 \<Rightarrow> int \<times> int \<times> int option list list \<times> npc list" where
  "town s = (mapGridWidth s, mapGridHeight s, terrain s, npcs s)"

lemma town_grid: "grid s' = grid s \<Longrightarrow> town s' = town s"
  by (simp add: grid_def town_def)

lemma town_movePlayer [simp]: "town (movePlayer dx dy s) = town s"
  by (simp add: movePlayer_shape town_def)

lemma town_update [simp]: "town (update f s) = town s"
proof -
  define s1 where "s1 = (if enterJustDown f then tryInteract f s else s)"
  have t1: "town s1 = town s" by (rule town_grid) (simp add: s1_def)
  show ?thesis
  proof (cases rule: update_branches[of s f])
    case overlay
    show ?thesis by (rule town_grid) (simp add: update_overlay[OF overlay])
  next
    case esc
    show ?thesis by (rule town_grid) (simp add: update_esc[OF esc])
  next
    case menu
    show ?thesis by (rule town_grid) (simp add: update_menu[OF menu])
  next
    case world
    show ?thesis
      unfolding update_world[OF world s1_def] by (simp add: t1)
  qed
qed

lemma town_step [simp]: "town (step e s) = town s"
proof (cases e)
  case (Frame f)
  then show ?thesis by (simp add: step_def)
next
  case MoveTweenDone
  have "town (completeMoveTween s) = town s" by (rule town_grid) simp
  then show ?thesis using MoveTweenDone by (simp add: step_def)
next
  case Resumed
  have "town (onResume s) = town s" by (rule town_grid) simp
  then show ?thesis using Resumed by (simp add: step_def)
next
  case (TimerFired i)
  have "town (fireTimer i s) = town s" by (rule town_grid) simp
  then show ?thesis using TimerFired by (simp add: step_def)
next
  case (MovePlayerCall dx dy)
  then show ?thesis by (simp add: step_def)
qed

lemma town_run [simp]: "town (run s es) = town s"
  by (induction es arbitrary: s) simp_all

lemma isPassable_town: "town s' = town s \<Longrightarrow> isPassable s' x y = isPassable s x y"
  by (rule isPassable_cong) (simp_all add: town_def)

text \<open>After \<open>create\<close> with a cached map, the gate tile \<open>(13, 2)\<close> is walkable and free.\<close>

lemma js_store_length: "length (js_store xs i v) = max (length xs) (Suc i)"
  by (simp add: js_store_def)

lemma js_store_same: "js_store xs i v ! i = Some v"
  by (simp add: js_store_def nth_append)

lemma js_store_before: "j < i \<Longrightarrow> j < length xs \<Longrightarrow> js_store xs i v ! j = xs ! j"
  by (simp add: js_store_def nth_append)

lemma gate_row:
  fixes row :: "int option list"
  shows "js_index (js_store (js_store row 13 0) 14 0) 13 = Some (Some 0)"
proof -
  have "length (js_store row 13 0) \<ge> 14" by (simp add: js_store_length)
  then have "js_store (js_store row 13 0) 14 0 ! 13 = js_store row 13 0 ! 13"
    by (intro js_store_before) simp_all
  then show ?thesis
    by (simp add: js_index_def js_store_length js_store_same)
qed

lemma openNorthGate_gate:
  assumes "openNorthGate t0 = Inr t"
  shows "terrainAt t 13 2 = Some 0"
proof -
  have l: "2 < length t0"
  proof (rule ccontr)
    assume "\<not> 2 < length t0"
    then have "openNorthGate t0 = Inl TypeError"
      by (simp add: openNorthGate_def storeWalkable_def)
    then show False using assms by simp
  qed
  then have "openNorthGate t0 = Inr (t0[1 := js_store (js_store (t0 ! 1) 13 0) 14 0,
                    2 := js_store (js_store (t0 ! 2) 13 0) 14 0])"
    by (simp add: openNorthGate_def storeWalkable_def)
  then have "t = t0[1 := js_store (js_store (t0 ! 1) 13 0) 14 0,
                    2 := js_store (js_store (t0 ! 2) 13 0) 14 0]"
    using assms by simp
  then have "js_index t 2 = Some (js_store (js_store (t0 ! 2) 13 0) 14 0)"
    using l by (simp add: js_index_def)
  then show ?thesis by (simp add: terrainAt_def gate_row)
qed

lemma heroes_off_gate:
  "\<not> list_ex (\<lambda>n. gridX n = 13 \<and> gridY n = 2)
       (map (\<lambda>(h, pos). mkNpc h (heroNames h) (fst pos) (snd pos) (heroDialogues h))
          (zip hs heroPositions))"
proof
  assume "list_ex (\<lambda>n. gridX n = 13 \<and> gridY n = 2)
       (map (\<lambda>(h, pos). mkNpc h (heroNames h) (fst pos) (snd pos) (heroDialogues h))
          (zip hs heroPositions))"
  then obtain h pos where z: "(h, pos) \<in> set (zip hs heroPositions)"
    and g: "gridX (mkNpc h (heroNames h) (fst pos) (snd pos) (heroDialogues h)) = 13"
      "gridY (mkNpc h (heroNames h) (fst pos) (snd pos) (heroDialogues h)) = 2"
    by (auto simp: list_ex_iff)
  from z have "pos \<in> set heroPositions" by (rule set_zip_rightD)
  then have "fst pos \<noteq> 13" by (auto simp: heroPositions_def)
  then show False using g(1) by (simp add: mkNpc_def)
qed

lemma placeNPCs_gate:
  assumes "npcs s = []"
  shows "\<not> list_ex (\<lambda>n. gridX n = 13 \<and> gridY n = 2) (npcs (placeNPCs s))"
proof -
  have "\<not> list_ex (\<lambda>n. gridX n = 13 \<and> gridY n = 2) npcData"
    by (simp add: npcData_def mkNpc_def)
  then show ?thesis
    using assms heroes_off_gate[of "filter (\<lambda>h. h \<noteq> heroId s) allHeroes"]
    by (simp add: placeNPCs_def Let_def)
qed

lemma create_town:
  assumes "create data mapData now prev = Inr s0"
  shows "\<exists>s. loadTerrain mapData (loadState data now prev) = Inr s \<and>
             town s0 = town (placeNPCs s)"
proof (cases "loadTerrain mapData (loadState data now prev)")
  case (Inl e)
  then show ?thesis using assms by (simp add: create_def)
next
  case (Inr s)
  have "town s0 = town (placeNPCs s)"
  proof (cases "d_levelUps data")
    case None
    then have "s0 = (placeNPCs s)\<lparr>dialogueRenderer := None\<rparr>"
      using assms Inr by (simp add: create_def Let_def)
    then show ?thesis by (simp add: town_def)
  next
    case (Some ls)
    then have "s0 = (placeNPCs s)\<lparr>dialogueRenderer := None\<rparr> \<or>
       s0 = (placeNPCs s)\<lparr>dialogueRenderer := None,
              pendingTimers := pendingTimers (placeNPCs s) @ [LevelUpScreenTimer ls]\<rparr>"
      using assms Inr by (simp add: create_def Let_def split: if_splits)
    then show ?thesis by (auto simp: town_def)
  qed
  then show ?thesis using Inr by simp
qed

lemma create_gate:
  assumes "create data (Some m) now prev = Inr s0"
  shows "terrainAt (terrain s0) 13 2 = Some 0"
    and "\<not> list_ex (\<lambda>n. gridX n = 13 \<and> gridY n = 2) (npcs s0)"
    and "mapGridWidth s0 = md_gridWidth m" and "mapGridHeight s0 = md_gridHeight m"
proof -
  obtain s where l: "loadTerrain (Some m) (loadState data now prev) = Inr s"
    and s0: "town s0 = town (placeNPCs s)"
    using create_town[OF assms] by blast
  obtain t where t: "openNorthGate (map (map Some) (md_terrain m)) = Inr t"
    using l by (cases "openNorthGate (map (map Some) (md_terrain m))")
      (simp_all add: loadTerrain_def)
  have s: "s = (loadState data now prev)\<lparr>terrain := t, mapGridWidth := md_gridWidth m,
                             mapGridHeight := md_gridHeight m\<rparr>"
    using l t by (simp add: loadTerrain_def)
  have n: "npcs s = []"
    by (simp add: s loadState_def Let_def split: option.splits)
  have p: "terrain (placeNPCs s) = t" "mapGridWidth (placeNPCs s) = md_gridWidth m"
    "mapGridHeight (placeNPCs s) = md_gridHeight m"
    by (simp_all add: placeNPCs_def Let_def s)
  show "terrainAt (terrain s0) 13 2 = Some 0"
    using s0 p openNorthGate_gate[OF t] by (simp add: town_def)
  show "\<not> list_ex (\<lambda>n. gridX n = 13 \<and> gridY n = 2) (npcs s0)"
    using s0 placeNPCs_gate[OF n] by (simp add: town_def)
  show "mapGridWidth s0 = md_gridWidth m" "mapGridHeight s0 = md_gridHeight m"
    using s0 p by (simp_all add: town_def)
qed

lemma create_demo:
  "create no_data (Some demoMap) 0 (newIshetarScene2\<lparr>playerGridX := x, playerGridY := y\<rparr>) =
     Inr (demoTownAt x y)"
  by (simp add: demoTownAt_def create_def loadTerrain_def openNorthGate_def storeWalkable_def
      demoMap_def no_data_def Let_def)

text \<open>
  Claim C7. In a scene that \<open>create\<close> has set up from a cached map whose grid holds the
  tile \<open>(13, 2)\<close>, and after any sequence of events: when the player stands at
  \<open>(13, 1)\<close>, no move animation, dialogue, choice menu or level-up overlay is active, and
  a frame has only the down key held, the update commits the position \<open>(13, 2)\<close>; the
  completion of the move tween checks the triggers there, and starts TravelScene with a
  payload whose \<open>gameFlags\<close> is the scene's \<open>gameFlags\<close>, which the scene itself keeps
  unchanged.
\<close>

theorem north_gate_exit_forwards_flags:
  assumes "create data (Some m) now prev = Inr s0"
    and "13 < md_gridWidth m" and "2 < md_gridHeight m"
    and "s = run s0 es"
    and "playerGridX s = 13" and "playerGridY s = 1"
    and "\<not> isMoving s" and "\<not> isInDialogue s" and "\<not> choiceMenuVisible s"
    and "\<not> (levelUpOverlay s \<noteq> None \<and> overlayWaiting f)"
    and "downIsDown f" and "\<not> leftIsDown f" and "\<not> rightIsDown f" and "\<not> upIsDown f"
    and "\<not> enterJustDown f" and "\<not> escJustDown f"
  shows "playerGridX (update f s) = 13 \<and> playerGridY (update f s) = 2 \<and>
         isMoving (update f s) \<and>
         playerGridX (completeMoveTween (update f s)) = 13 \<and>
         playerGridY (completeMoveTween (update f s)) = 2 \<and>
         \<not> isMoving (completeMoveTween (update f s)) \<and>
         gameFlags (completeMoveTween (update f s)) = gameFlags s \<and>
         trace (completeMoveTween (update f s)) =
           trace s @
             [TweenAdded 13 2, TriggersChecked False 13 2,
              SceneStart ''TravelScene''
                (no_data\<lparr>d_heroId := Some (heroId s), d_heroState := Some (heroState s),
                   d_gameFlags := Some (gameFlags s), d_playTime := Some (playTime s),
                   d_inventory := Some (inventory s), d_chests := Some (chestStates s),
                   d_devMode := Some (devMode s)\<rparr>)]"
proof -
  have t: "town s = town s0" using assms(4) by simp
  have "isPassable s0 13 2"
    using create_gate[OF assms(1)] assms(2,3) by (simp add: isPassable_def)
  then have p: "isPassable s (playerGridX s + 0) (playerGridY s + 1)"
    using isPassable_town[OF t] assms(5,6) by simp
  have s1: "s = (if enterJustDown f then tryInteract f s else s)"
    using assms(15) by simp
  have u: "update f s = movePlayer 0 1 s"
    using assms(7,8,11,12,13,14)
    by (simp add: update_world[OF assms(10) assms(16) assms(9) s1])
  have m: "movePlayer 0 1 s =
      s\<lparr>playerFacing := Front, isMoving := True, playerGridX := 13, playerGridY := 2,
        pendingTweens := Suc (pendingTweens s),
        trace := trace s @ [TweenAdded 13 2]\<rparr>"
    using p assms(5,6,7,8) by (simp add: movePlayer_shape)
  show ?thesis
    unfolding u m
    by (simp add: completeMoveTween_def moveTweenOnComplete_def checkTriggers_def
        goToTravelMap_def northGateTiles_def Let_def)
qed

theorem north_gate_exit_forwards_flags_witness:
  "create no_data (Some demoMap) 0 (newIshetarScene2\<lparr>playerGridX := 13, playerGridY := 1\<rparr>) =
     Inr (demoTownAt 13 1) \<and>
   13 < md_gridWidth demoMap \<and> 2 < md_gridHeight demoMap \<and>
   playerGridX (run (demoTownAt 13 1) []) = 13 \<and>
   playerGridY (run (demoTownAt 13 1) []) = 1 \<and>
   \<not> isMoving (demoTownAt 13 1) \<and> \<not> isInDialogue (demoTownAt 13 1) \<and>
   \<not> choiceMenuVisible (demoTownAt 13 1) \<and>
   playerGridY (update \<lparr>escJustDown = False, enterJustDown = False, upJustDown = False,
         downJustDown = False, leftIsDown = False, rightIsDown = False, upIsDown = False,
         downIsDown = True, overlayWaiting = False, overlayCompletes = False, dateNow = 0,
         isoTimestamp = [], saveSucceeds = True, allSlotPreviews = [],
         restoreAllResources = (\<lambda>h. h)\<rparr> (demoTownAt 13 1)) = 2 \<and>
   trace (completeMoveTween (update \<lparr>escJustDown = False, enterJustDown = False,
         upJustDown = False,
         downJustDown = False, leftIsDown = False, rightIsDown = False, upIsDown = False,
         downIsDown = True, overlayWaiting = False, overlayCompletes = False, dateNow = 0,
         isoTimestamp = [], saveSucceeds = True, allSlotPreviews = [],
         restoreAllResources = (\<lambda>h. h)\<rparr> (demoTownAt 13 1))) =
     [TweenAdded 13 2, TriggersChecked False 13 2,
      SceneStart ''TravelScene''
        (no_data\<lparr>d_heroId := Some ''vicas'', d_heroState := Some Map.empty,
           d_gameFlags := Some Map.empty, d_playTime := Some 0,
           d_inventory := Some DefaultInventory, d_chests := Some Map.empty,
           d_devMode := Some False\<rparr>)]"
proof -
  let ?f = "\<lparr>escJustDown = False, enterJustDown = False, upJustDown = False,
         downJustDown = False, leftIsDown = False, rightIsDown = False, upIsDown = False,
         downIsDown = True, overlayWaiting = False, overlayCompletes = False, dateNow = 0,
         isoTimestamp = [], saveSucceeds = True, allSlotPreviews = [],
         restoreAllResources = (\<lambda>h. h)\<rparr>"
  have c: "create no_data (Some demoMap) 0 (newIshetarScene2\<lparr>playerGridX := 13, playerGridY := 1\<rparr>) =
     Inr (demoTownAt 13 1)" by (rule create_demo)
  have d: "13 < md_gridWidth demoMap" "2 < md_gridHeight demoMap"
    by (simp_all add: demoMap_def)
  have h: "playerGridX (demoTownAt 13 1) = 13" "playerGridY (demoTownAt 13 1) = 1"
    "\<not> isMoving (demoTownAt 13 1)" "\<not> isInDialogue (demoTownAt 13 1)"
    "\<not> choiceMenuVisible (demoTownAt 13 1)"
    by (simp_all add: demo_flags)
  have v: "heroId (demoTownAt 13 1) = ''vicas''" "heroState (demoTownAt 13 1) = Map.empty"
    "gameFlags (demoTownAt 13 1) = Map.empty" "playTime (demoTownAt 13 1) = 0"
    "inventory (demoTownAt 13 1) = DefaultInventory" "chestStates (demoTownAt 13 1) = Map.empty"
    "devMode (demoTownAt 13 1) = False" "trace (demoTownAt 13 1) = []"
    by (simp_all add: demoTownAt_def create_def loadTerrain_def loadState_def demoMap_def
      no_data_def openNorthGate_def storeWalkable_def js_store_def placeNPCs_def
      newIshetarScene2_def or_string_def or_number_def Let_def createDefaultInventory_def)
  show ?thesis
    using c d h v
      north_gate_exit_forwards_flags[OF c d, of "demoTownAt 13 1" "[]" ?f]
    by simp
qed

subsection \<open>The choice menu\<close>

text \<open>
  The three fields of the choice menu, and what every visible menu satisfies: its
  option list is not empty and the highlighted index lies inside it.
\<close>

definition menu :: "scene2 \<Rightarrow> bool \<times> string list \<times> int" where
  "menu s = (choiceMenuVisible s, choiceMenuOptions s, choiceMenuSelectedIndex s)"

definition menuIndexValid :: "scene2 \<Rightarrow> bool" where
  "menuIndexValid s =
     (choiceMenuVisible s \<longrightarrow>
        choiceMenuOptions s \<noteq> [] \<and> 0 \<le> choiceMenuSelectedIndex s \<and>
        choiceMenuSelectedIndex s < int (length (choiceMenuOptions s)))"

lemma menuIndexValid_menu: "menuIndexValid s \<Longrightarrow> menu s' = menu s \<Longrightarrow> menuIndexValid s'"
  by (simp add: menuIndexValid_def menu_def)

lemma menuIndexValid_hidden: "\<not> choiceMenuVisible s \<Longrightarrow> menuIndexValid s"
  by (simp add: menuIndexValid_def)

lemma menuIndexValid_showChoiceMenu:
  "options \<noteq> [] \<Longrightarrow> menuIndexValid (showChoiceMenu options cb s)"
  by (simp add: menuIndexValid_def showChoiceMenu_def)

lemma menu_startDialogue [simp]: "menu (startDialogue ls n cb s) = menu s"
  by (simp add: menu_def startDialogue_def)

lemma menu_updates [simp]:
  "menu (s\<lparr>trace := a\<rparr>) = menu s"
  "menu (s\<lparr>isInDialogue := b\<rparr>) = menu s"
  "menu (s\<lparr>selectedSaveSlot := c\<rparr>) = menu s"
  "menu (s\<lparr>dialogueRenderer := d\<rparr>) = menu s"
  "menu (s\<lparr>isMoving := e\<rparr>) = menu s"
  "menu (s\<lparr>pendingTweens := g\<rparr>) = menu s"
  "menu (s\<lparr>heroState := h\<rparr>) = menu s"
  by (simp_all add: menu_def)

lemma menu_saveGame [simp]: "menu (saveGame f slot s) = menu s"
  by (simp add: saveGame_def Let_def) (simp add: menu_def)

lemma menu_showOverwriteConfirmation [simp]: "menu (showOverwriteConfirmation s) = menu s"
  by (simp add: showOverwriteConfirmation_def Let_def)

lemma menu_movePlayer [simp]: "menu (movePlayer dx dy s) = menu s"
  by (simp add: movePlayer_shape menu_def)

lemma menu_completeMoveTween [simp]: "menu (completeMoveTween s) = menu s"
  by (simp add: completeMoveTween_def moveTweenOnComplete_def checkTriggers_def
      goToTravelMap_def Let_def menu_def)

lemma menu_overlayHandleInput [simp]: "menu (overlayHandleInput f s) = menu s"
  by (simp add: overlayHandleInput_def menu_def)

lemma menu_onResume [simp]: "menu (onResume s) = menu s"
  by (simp add: onResume_def menu_def)

lemma menu_fireTimer [simp]: "menu (fireTimer i s) = menu s"
  by (simp add: fireTimer_def Let_def showLevelUpScreen_def showHrothgarEndingDialogue_def
      split: timer.splits) (simp add: menu_def)

lemma menu_startNPCDialogue [simp]: "menu (startNPCDialogue f n s) = menu s"
  by (simp add: startNPCDialogue_def handleShrineInteraction_def Let_def)

lemma menuIndexValid_showSaveSlotSelection: "menuIndexValid (showSaveSlotSelection f s)"
  by (simp add: showSaveSlotSelection_def Let_def menuIndexValid_showChoiceMenu)

lemma menuIndexValid_runChoiceCallback:
  assumes "menuIndexValid s"
  shows "menuIndexValid (runChoiceCallback f cb c s)"
proof -
  have k: "\<And>s'. menu s' = menu s \<Longrightarrow> menuIndexValid s'"
    using assms menuIndexValid_menu by blast
  show ?thesis
    by (simp add: runChoiceCallback_def Let_def menuIndexValid_showSaveSlotSelection assms k
        split: choice_callback.splits option.splits)
qed

lemma menuIndexValid_selectChoiceMenuOption: "menuIndexValid (selectChoiceMenuOption f s)"
proof -
  have "menuIndexValid (hideChoiceMenu s)"
    by (rule menuIndexValid_hidden) (simp add: hideChoiceMenu_def)
  then show ?thesis
    by (simp add: selectChoiceMenuOption_def Let_def menuIndexValid_runChoiceCallback
        split: option.splits)
qed

lemma menuIndexValid_runDialogueCallback:
  assumes "menuIndexValid s"
  shows "menuIndexValid (runDialogueCallback cb s)"
proof (cases cb)
  case EndDialogue
  then show ?thesis using menuIndexValid_menu[OF assms] by (simp add: runDialogueCallback_def)
next
  case OpenShrineSaveMenu
  then show ?thesis
    by (simp add: runDialogueCallback_def showShrineSaveMenu_def menuIndexValid_showChoiceMenu)
next
  case OpenOverwriteMenu
  then show ?thesis by (simp add: runDialogueCallback_def menuIndexValid_showChoiceMenu)
next
  case OpenHrothgarMenu
  have "menu (s\<lparr>isInDialogue := False, pendingHrothgarDialogue := True,
            trace := trace s @ [ScenePause, SceneLaunch ''MenuScene''
              ((menuSceneData s)\<lparr>d_initialView := Some ''hrothgar''\<rparr>)]\<rparr>) = menu s"
    by (simp add: menu_def)
  then show ?thesis
    using OpenHrothgarMenu menuIndexValid_menu[OF assms] by (simp add: runDialogueCallback_def)
qed

lemma menuIndexValid_advance:
  assumes "menuIndexValid s"
  shows "menuIndexValid (advance s)"
proof -
  have k: "\<And>s'. menu s' = menu s \<Longrightarrow> menuIndexValid s'"
    using assms menuIndexValid_menu by blast
  show ?thesis
    by (simp add: advance_def k menuIndexValid_runDialogueCallback assms split: option.splits)
qed

lemma menuIndexValid_tryInteract:
  assumes "menuIndexValid s"
  shows "menuIndexValid (tryInteract f s)"
proof -
  have k: "\<And>s'. menu s' = menu s \<Longrightarrow> menuIndexValid s'"
    using assms menuIndexValid_menu by blast
  show ?thesis
    by (simp add: tryInteract_def Let_def k menuIndexValid_advance assms split: option.splits)
qed

lemma menuIndexValid_update:
  assumes inv: "menuIndexValid s"
  shows "menuIndexValid (update f s)"
proof -
  define s1 where "s1 = (if enterJustDown f then tryInteract f s else s)"
  have p1: "menuIndexValid s1"
    using inv by (simp add: s1_def menuIndexValid_tryInteract)
  have pm: "\<And>dx dy. menuIndexValid (movePlayer dx dy s1)"
    using menuIndexValid_menu[OF p1] by simp
  have k: "\<And>s'. menu s' = menu s \<Longrightarrow> menuIndexValid s'"
    using inv menuIndexValid_menu by blast
  show ?thesis
  proof (cases rule: update_branches[of s f])
    case overlay
    show ?thesis by (rule k) (simp add: update_overlay[OF overlay])
  next
    case esc
    show ?thesis by (rule k) (simp add: update_esc[OF esc])
  next
    case menu
    have r: "choiceMenuOptions s \<noteq> []" "0 \<le> choiceMenuSelectedIndex s"
      "choiceMenuSelectedIndex s < int (length (choiceMenuOptions s))"
      using inv menu(3) by (simp_all add: menuIndexValid_def)
    have a: "menuIndexValid (s\<lparr>choiceMenuSelectedIndex := max 0 (choiceMenuSelectedIndex s - 1)\<rparr>)"
      using r by (simp add: menuIndexValid_def)
    have b: "menuIndexValid (s\<lparr>choiceMenuSelectedIndex :=
               min (int (length (choiceMenuOptions s)) - 1) (choiceMenuSelectedIndex s + 1)\<rparr>)"
      using r by (simp add: menuIndexValid_def min_def)
    show ?thesis
      unfolding update_menu[OF menu]
      by (simp add: a b inv menuIndexValid_selectChoiceMenuOption)
  next
    case world
    show ?thesis
      unfolding update_world[OF world s1_def] by (simp add: p1 pm)
  qed
qed

lemma menuIndexValid_step: "menuIndexValid s \<Longrightarrow> menuIndexValid (step e s)"
proof (cases e)
  case (Frame f)
  assume "menuIndexValid s"
  then show ?thesis using Frame by (simp add: step_def menuIndexValid_update)
next
  case MoveTweenDone
  assume "menuIndexValid s"
  then show ?thesis using MoveTweenDone menuIndexValid_menu[of s "completeMoveTween s"]
    by (simp add: step_def)
next
  case Resumed
  assume "menuIndexValid s"
  then show ?thesis using Resumed menuIndexValid_menu[of s "onResume s"] by (simp add: step_def)
next
  case (TimerFired i)
  assume "menuIndexValid s"
  then show ?thesis using TimerFired menuIndexValid_menu[of s "fireTimer i s"]
    by (simp add: step_def)
next
  case (MovePlayerCall dx dy)
  assume "menuIndexValid s"
  then show ?thesis using MovePlayerCall menuIndexValid_menu[of s "movePlayer dx dy s"]
    by (simp add: step_def)
qed

lemma menuIndexValid_run: "menuIndexValid s \<Longrightarrow> menuIndexValid (run s es)"
  by (induction es arbitrary: s) (simp_all add: menuIndexValid_step)

lemma menuIndexValid_create:
  assumes "create data mapData now prev = Inr s0"
  shows "menuIndexValid s0"
proof -
  have "\<not> choiceMenuVisible (loadState data now prev)"
    by (simp add: loadState_def Let_def split: option.splits)
  then have "\<And>s. loadTerrain mapData (loadState data now prev) = Inr s \<Longrightarrow> \<not> choiceMenuVisible s"
    by (auto simp: loadTerrain_def split: option.splits sum.splits)
  then have "\<not> choiceMenuVisible s0"
    using assms
    by (auto simp: create_def Let_def placeNPCs_def split: sum.splits option.splits if_splits)
  then show ?thesis by (rule menuIndexValid_hidden)
qed

text \<open>
  Claim C6. \<open>showChoiceMenu\<close> sets the highlighted index to 0. While the menu is
  visible with a non-empty option list and the index inside it, the up key moves the
  index down by one but not below 0, the down key moves it up by one but not above
  \<open>length - 1\<close>, and neither changes the options or the callback. The confirm key hides
  the menu and invokes the callback with exactly the label at the highlighted index.
  In every state that a created scene reaches, a visible menu has a non-empty option
  list and its highlighted index inside it.
\<close>

theorem choice_menu_selection:
  "(choiceMenuSelectedIndex (showChoiceMenu options cb s0) = 0 \<and>
    choiceMenuVisible (showChoiceMenu options cb s0) \<and>
    choiceMenuOptions (showChoiceMenu options cb s0) = options \<and>
    choiceMenuCallback (showChoiceMenu options cb s0) = Some cb) \<and>
   (choiceMenuVisible s \<and> \<not> (levelUpOverlay s \<noteq> None \<and> overlayWaiting f) \<and>
    \<not> escJustDown f \<and> choiceMenuOptions s \<noteq> [] \<and>
    0 \<le> choiceMenuSelectedIndex s \<and>
    choiceMenuSelectedIndex s < int (length (choiceMenuOptions s)) \<longrightarrow>
      (upJustDown f \<longrightarrow>
         choiceMenuSelectedIndex (update f s) =
           (if choiceMenuSelectedIndex s = 0 then 0 else choiceMenuSelectedIndex s - 1)) \<and>
      (\<not> upJustDown f \<and> downJustDown f \<longrightarrow>
         choiceMenuSelectedIndex (update f s) =
           (if choiceMenuSelectedIndex s = int (length (choiceMenuOptions s)) - 1
            then choiceMenuSelectedIndex s else choiceMenuSelectedIndex s + 1)) \<and>
      (upJustDown f \<or> downJustDown f \<longrightarrow>
         0 \<le> choiceMenuSelectedIndex (update f s) \<and>
         choiceMenuSelectedIndex (update f s) < int (length (choiceMenuOptions s)) \<and>
         choiceMenuOptions (update f s) = choiceMenuOptions s \<and>
         choiceMenuCallback (update f s) = choiceMenuCallback s \<and>
         choiceMenuVisible (update f s)) \<and>
      (\<not> upJustDown f \<and> \<not> downJustDown f \<and> enterJustDown f \<and>
       choiceMenuCallback s = Some cb \<longrightarrow>
         update f s =
           runChoiceCallback f cb
             (Some (choiceMenuOptions s ! nat (choiceMenuSelectedIndex s)))
             (hideChoiceMenu s))) \<and>
   (create data mapData now prev = Inr s1 \<longrightarrow> menuIndexValid (run s1 es))"
proof -
  have a: "choiceMenuSelectedIndex (showChoiceMenu options cb s0) = 0 \<and>
    choiceMenuVisible (showChoiceMenu options cb s0) \<and>
    choiceMenuOptions (showChoiceMenu options cb s0) = options \<and>
    choiceMenuCallback (showChoiceMenu options cb s0) = Some cb"
    by (simp add: showChoiceMenu_def)
  have b: "choiceMenuVisible s \<and> \<not> (levelUpOverlay s \<noteq> None \<and> overlayWaiting f) \<and>
    \<not> escJustDown f \<and> choiceMenuOptions s \<noteq> [] \<and>
    0 \<le> choiceMenuSelectedIndex s \<and>
    choiceMenuSelectedIndex s < int (length (choiceMenuOptions s)) \<longrightarrow>
      (upJustDown f \<longrightarrow>
         choiceMenuSelectedIndex (update f s) =
           (if choiceMenuSelectedIndex s = 0 then 0 else choiceMenuSelectedIndex s - 1)) \<and>
      (\<not> upJustDown f \<and> downJustDown f \<longrightarrow>
         choiceMenuSelectedIndex (update f s) =
           (if choiceMenuSelectedIndex s = int (length (choiceMenuOptions s)) - 1
            then choiceMenuSelectedIndex s else choiceMenuSelectedIndex s + 1)) \<and>
      (upJustDown f \<or> downJustDown f \<longrightarrow>
         0 \<le> choiceMenuSelectedIndex (update f s) \<and>
         choiceMenuSelectedIndex (update f s) < int (length (choiceMenuOptions s)) \<and>
         choiceMenuOptions (update f s) = choiceMenuOptions s \<and>
         choiceMenuCallback (update f s) = choiceMenuCallback s \<and>
         choiceMenuVisible (update f s)) \<and>
      (\<not> upJustDown f \<and> \<not> downJustDown f \<and> enterJustDown f \<and>
       choiceMenuCallback s = Some cb \<longrightarrow>
         update f s =
           runChoiceCallback f cb
             (Some (choiceMenuOptions s ! nat (choiceMenuSelectedIndex s)))
             (hideChoiceMenu s))"
  proof (intro impI)
    assume h: "choiceMenuVisible s \<and> \<not> (levelUpOverlay s \<noteq> None \<and> overlayWaiting f) \<and>
      \<not> escJustDown f \<and> choiceMenuOptions s \<noteq> [] \<and>
      0 \<le> choiceMenuSelectedIndex s \<and>
      choiceMenuSelectedIndex s < int (length (choiceMenuOptions s))"
    then have m1: "\<not> (levelUpOverlay s \<noteq> None \<and> overlayWaiting f)" and m2: "\<not> escJustDown f"
      and m3: "choiceMenuVisible s" by blast+
    note u = update_menu[OF m1 m2 m3]
    have r: "0 \<le> choiceMenuSelectedIndex s"
      "choiceMenuSelectedIndex s < int (length (choiceMenuOptions s))"
      using h by blast+
    have sel: "js_index (choiceMenuOptions s) (choiceMenuSelectedIndex s) =
        Some (choiceMenuOptions s ! nat (choiceMenuSelectedIndex s))"
      using r by (simp add: js_index_def)
    have c1: "upJustDown f \<longrightarrow>
         choiceMenuSelectedIndex (update f s) =
           (if choiceMenuSelectedIndex s = 0 then 0 else choiceMenuSelectedIndex s - 1)"
      using r by (simp add: u)
    have c2: "\<not> upJustDown f \<and> downJustDown f \<longrightarrow>
         choiceMenuSelectedIndex (update f s) =
           (if choiceMenuSelectedIndex s = int (length (choiceMenuOptions s)) - 1
            then choiceMenuSelectedIndex s else choiceMenuSelectedIndex s + 1)"
      using r by (simp add: u)
    have c3: "upJustDown f \<or> downJustDown f \<longrightarrow>
         0 \<le> choiceMenuSelectedIndex (update f s) \<and>
         choiceMenuSelectedIndex (update f s) < int (length (choiceMenuOptions s)) \<and>
         choiceMenuOptions (update f s) = choiceMenuOptions s \<and>
         choiceMenuCallback (update f s) = choiceMenuCallback s \<and>
         choiceMenuVisible (update f s)"
      using r m3 by (auto simp: u)
    have c4: "\<not> upJustDown f \<and> \<not> downJustDown f \<and> enterJustDown f \<and>
       choiceMenuCallback s = Some cb \<longrightarrow>
         update f s =
           runChoiceCallback f cb
             (Some (choiceMenuOptions s ! nat (choiceMenuSelectedIndex s)))
             (hideChoiceMenu s)"
      by (simp add: u selectChoiceMenuOption_def sel hideChoiceMenu_def Let_def)
    show "(upJustDown f \<longrightarrow>
         choiceMenuSelectedIndex (update f s) =
           (if choiceMenuSelectedIndex s = 0 then 0 else choiceMenuSelectedIndex s - 1)) \<and>
      (\<not> upJustDown f \<and> downJustDown f \<longrightarrow>
         choiceMenuSelectedIndex (update f s) =
           (if choiceMenuSelectedIndex s = int (length (choiceMenuOptions s)) - 1
            then choiceMenuSelectedIndex s else choiceMenuSelectedIndex s + 1)) \<and>
      (upJustDown f \<or> downJustDown f \<longrightarrow>
         0 \<le> choiceMenuSelectedIndex (update f s) \<and>
         choiceMenuSelectedIndex (update f s) < int (length (choiceMenuOptions s)) \<and>
         choiceMenuOptions (update f s) = choiceMenuOptions s \<and>
         choiceMenuCallback (update f s) = choiceMenuCallback s \<and>
         choiceMenuVisible (update f s)) \<and>
      (\<not> upJustDown f \<and> \<not> downJustDown f \<and> enterJustDown f \<and>
       choiceMenuCallback s = Some cb \<longrightarrow>
         update f s =
           runChoiceCallback f cb
             (Some (choiceMenuOptions s ! nat (choiceMenuSelectedIndex s)))
             (hideChoiceMenu s))"
      using c1 c2 c3 c4 by blast
  qed
  have c: "create data mapData now prev = Inr s1 \<longrightarrow> menuIndexValid (run s1 es)"
    using menuIndexValid_create[of data mapData now prev s1] menuIndexValid_run[of s1 es]
    by blast
  show ?thesis using a b c by blast
qed


theorem choice_menu_selection_witness:
  "choiceMenuOptions (showShrineSaveMenu (demoTownAt 8 5)) = [''Yes'', ''No''] \<and>
   choiceMenuSelectedIndex (showShrineSaveMenu (demoTownAt 8 5)) = 0 \<and>
   choiceMenuSelectedIndex
     (update (idleFrame\<lparr>upJustDown := True\<rparr>) (showShrineSaveMenu (demoTownAt 8 5))) = 0 \<and>
   choiceMenuSelectedIndex
     (update (idleFrame\<lparr>downJustDown := True\<rparr>) (showShrineSaveMenu (demoTownAt 8 5))) = 1 \<and>
   choiceMenuSelectedIndex
     (update (idleFrame\<lparr>downJustDown := True\<rparr>)
        ((showShrineSaveMenu (demoTownAt 8 5))\<lparr>choiceMenuSelectedIndex := 1\<rparr>)) = 1 \<and>
   update (idleFrame\<lparr>enterJustDown := True\<rparr>)
        ((showShrineSaveMenu (demoTownAt 8 5))\<lparr>choiceMenuSelectedIndex := 1\<rparr>) =
     runChoiceCallback (idleFrame\<lparr>enterJustDown := True\<rparr>) ShrineSaveChoice (Some ''No'')
       (hideChoiceMenu ((showShrineSaveMenu (demoTownAt 8 5))\<lparr>choiceMenuSelectedIndex := 1\<rparr>)) \<and>
   menuIndexValid
     (run (demoTownAt 8 5) [Frame (idleFrame\<lparr>enterJustDown := True\<rparr>), Frame idleFrame])"
proof -
  let ?m = "showShrineSaveMenu (demoTownAt 8 5)"
  let ?m1 = "?m\<lparr>choiceMenuSelectedIndex := 1\<rparr>"
  have o: "levelUpOverlay (demoTownAt 8 5) = None"
    by (simp add: demoTownAt_def create_def loadTerrain_def loadState_def demoMap_def
      no_data_def openNorthGate_def storeWalkable_def js_store_def placeNPCs_def
      newIshetarScene2_def or_string_def or_number_def Let_def)
  have h: "choiceMenuVisible ?m" "levelUpOverlay ?m = None" "choiceMenuOptions ?m = [''Yes'', ''No'']"
    "choiceMenuSelectedIndex ?m = 0" "choiceMenuCallback ?m = Some ShrineSaveChoice"
    by (simp_all add: showShrineSaveMenu_def showChoiceMenu_def o)
  have h1: "choiceMenuVisible ?m1" "levelUpOverlay ?m1 = None"
    "choiceMenuOptions ?m1 = [''Yes'', ''No'']"
    "choiceMenuSelectedIndex ?m1 = 1" "choiceMenuCallback ?m1 = Some ShrineSaveChoice"
    by (simp_all add: h)
  note t1 = choice_menu_selection[where s = "?m" and f = "idleFrame\<lparr>upJustDown := True\<rparr>" and cb = ShrineSaveChoice]
  note t2 = choice_menu_selection[where s = "?m" and f = "idleFrame\<lparr>downJustDown := True\<rparr>" and cb = ShrineSaveChoice]
  note t3 = choice_menu_selection[where s = "?m1" and f = "idleFrame\<lparr>downJustDown := True\<rparr>" and cb = ShrineSaveChoice]
  note t4 = choice_menu_selection[where s = "?m1" and f = "idleFrame\<lparr>enterJustDown := True\<rparr>" and cb = ShrineSaveChoice]
  have v: "menuIndexValid
     (run (demoTownAt 8 5) [Frame (idleFrame\<lparr>enterJustDown := True\<rparr>), Frame idleFrame])"
    using choice_menu_selection[where data = no_data and mapData = "Some demoMap" and now = 0
        and prev = "newIshetarScene2\<lparr>playerGridX := 8, playerGridY := 5\<rparr>"
        and ?s1.0 = "demoTownAt 8 5"
        and es = "[Frame (idleFrame\<lparr>enterJustDown := True\<rparr>), Frame idleFrame]"]
      create_demo[where x = 8 and y = 5]
    by blast
  have w: "choiceMenuOptions (showShrineSaveMenu (demoTownAt 8 5)) = [''Yes'', ''No''] \<and>
   choiceMenuSelectedIndex (showShrineSaveMenu (demoTownAt 8 5)) = 0 \<and>
   choiceMenuSelectedIndex
     (update (idleFrame\<lparr>upJustDown := True\<rparr>) (showShrineSaveMenu (demoTownAt 8 5))) = 0 \<and>
   choiceMenuSelectedIndex
     (update (idleFrame\<lparr>downJustDown := True\<rparr>) (showShrineSaveMenu (demoTownAt 8 5))) = 1 \<and>
   choiceMenuSelectedIndex
     (update (idleFrame\<lparr>downJustDown := True\<rparr>)
        ((showShrineSaveMenu (demoTownAt 8 5))\<lparr>choiceMenuSelectedIndex := 1\<rparr>)) = 1 \<and>
   update (idleFrame\<lparr>enterJustDown := True\<rparr>)
        ((showShrineSaveMenu (demoTownAt 8 5))\<lparr>choiceMenuSelectedIndex := 1\<rparr>) =
     runChoiceCallback (idleFrame\<lparr>enterJustDown := True\<rparr>) ShrineSaveChoice (Some ''No'')
       (hideChoiceMenu ((showShrineSaveMenu (demoTownAt 8 5))\<lparr>choiceMenuSelectedIndex := 1\<rparr>))"
    using h h1 t1[THEN conjunct1] t1[THEN conjunct2, THEN conjunct1]
      t2[THEN conjunct2, THEN conjunct1] t3[THEN conjunct2, THEN conjunct1]
      t4[THEN conjunct2, THEN conjunct1]
    by (simp add: idleFrame_def)
  show ?thesis using v w by blast
qed

text \<open>The confirm key on a visible menu, and on an open dialogue.\<close>

lemma enter_on_menu:
  assumes "choiceMenuVisible s" and "\<not> (levelUpOverlay s \<noteq> None \<and> overlayWaiting f)"
    and "\<not> escJustDown f" and "\<not> upJustDown f" and "\<not> downJustDown f" and "enterJustDown f"
  shows "update f s = selectChoiceMenuOption f s"
  using assms(4,5,6) by (simp add: update_menu[OF assms(2) assms(3) assms(1)])

lemma enter_on_dialogue:
  assumes "\<not> choiceMenuVisible s" and "\<not> (levelUpOverlay s \<noteq> None \<and> overlayWaiting f)"
    and "\<not> escJustDown f" and "enterJustDown f"
    and "isInDialogue s" and "isInDialogue (advance s)" and "dialogueRenderer s \<noteq> None"
  shows "update f s = advance s"
proof -
  have s1: "advance s = (if enterJustDown f then tryInteract f s else s)"
    using assms(4,5,7) by (simp add: tryInteract_def isDialogueActive_def)
  show ?thesis
    using assms(6) by (simp add: update_world[OF assms(2) assms(3) assms(1) s1])
qed

subsection \<open>Overwriting a save\<close>

text \<open>
  Slot previews with the first slot occupied, and the save-slot menu that
  \<open>showSaveSlotSelection\<close> builds from them.
\<close>

definition demoPreviews :: "save_slot_preview list" where
  "demoPreviews =
     [\<lparr> p_slot = 1, p_isEmpty = False, p_mainHero = Some ''vicas'', p_heroLevels = Some [2],
        p_playTime = Some 300, p_location = Some ''ishetar_town_post_battle'' \<rparr>,
      \<lparr> p_slot = 2, p_isEmpty = True, p_mainHero = None, p_heroLevels = None,
        p_playTime = None, p_location = None \<rparr>,
      \<lparr> p_slot = 3, p_isEmpty = True, p_mainHero = None, p_heroLevels = None,
        p_playTime = None, p_location = None \<rparr>]"

definition demoSlotMenu :: scene2 where
  "demoSlotMenu =
     showSaveSlotSelection (idleFrame\<lparr>allSlotPreviews := demoPreviews\<rparr>) (demoTownAt 8 5)"

text \<open>
  Claim C8. When the save-slot menu is confirmed on a label naming a slot whose preview
  is not empty, the overwrite prompt opens as a dialogue and nothing is saved. Advancing
  the prompt opens a choice menu with exactly the options \<open>['Yes', 'No']\<close>. Moving to
  \<open>'No'\<close> and confirming hides the menu and leaves the scene idle, with no call of
  \<open>SaveManager.save\<close> in the trace and \<open>playTime\<close> and \<open>sessionStartTime\<close> as they
  were. Confirming \<open>'Yes'\<close> instead calls \<open>SaveManager.save\<close> for that slot once. The
  callback of the confirmation does nothing at all for any choice other than \<open>'Yes'\<close>.
\<close>

theorem overwrite_needs_yes:
  assumes "choiceMenuVisible s" and "choiceMenuCallback s = Some SaveSlotChoice"
    and "js_index (choiceMenuOptions s) (choiceMenuSelectedIndex s) = Some choice"
    and "slotMatch choice = Some ds"
    and "find (\<lambda>p. p_slot p = parseInt ds) (saveSlotPreviews s) = Some p"
    and "\<not> p_isEmpty p"
    and "levelUpOverlay s = None"
    and "enterJustDown f1 \<and> \<not> escJustDown f1 \<and> \<not> upJustDown f1 \<and> \<not> downJustDown f1"
    and "enterJustDown f2 \<and> \<not> escJustDown f2"
    and "downJustDown f3 \<and> \<not> escJustDown f3 \<and> \<not> upJustDown f3"
    and "enterJustDown f4 \<and> \<not> escJustDown f4 \<and> \<not> upJustDown f4 \<and> \<not> downJustDown f4"
  shows
    "isInDialogue (update f1 s) \<and> \<not> choiceMenuVisible (update f1 s) \<and>
     dialogueRenderer (update f1 s) =
       Some \<lparr>ds_lines = [''Overwrite '' @ getHeroDisplayName (or_string (p_mainHero p) ''unknown'')
                           @ [CHR 0x27] @ ''s tale in Slot '' @ show_int (parseInt ds) @ ''?''],
             ds_speaker = ''Shrine'', ds_onComplete = OpenOverwriteMenu\<rparr> \<and>
     trace (update f1 s) = trace s \<and>
     choiceMenuVisible (update f2 (update f1 s)) \<and>
     choiceMenuOptions (update f2 (update f1 s)) = [''Yes'', ''No''] \<and>
     choiceMenuSelectedIndex (update f2 (update f1 s)) = 0 \<and>
     choiceMenuCallback (update f2 (update f1 s)) = Some OverwriteChoice \<and>
     trace (update f2 (update f1 s)) = trace s \<and>
     choiceMenuSelectedIndex (update f3 (update f2 (update f1 s))) = 1 \<and>
     \<not> choiceMenuVisible (update f4 (update f3 (update f2 (update f1 s)))) \<and>
     \<not> isInDialogue (update f4 (update f3 (update f2 (update f1 s)))) \<and>
     dialogueRenderer (update f4 (update f3 (update f2 (update f1 s)))) = None \<and>
     trace (update f4 (update f3 (update f2 (update f1 s)))) = trace s \<and>
     playTime (update f4 (update f3 (update f2 (update f1 s)))) = playTime s \<and>
     sessionStartTime (update f4 (update f3 (update f2 (update f1 s)))) = sessionStartTime s \<and>
     (\<exists>saveData. trace (update f4 (update f2 (update f1 s))) =
        trace s @ [SaveManagerSave saveData (saveSucceeds f4)] \<and>
        sv_slot saveData = parseInt ds) \<and>
     (c \<noteq> Some ''Yes'' \<longrightarrow> runChoiceCallback f OverwriteChoice c s' = s')"
proof -
  define line where "line = ''Overwrite '' @ getHeroDisplayName (or_string (p_mainHero p) ''unknown'')
                           @ [CHR 0x27] @ ''s tale in Slot '' @ show_int (parseInt ds) @ ''?''"
  define s1 where "s1 = s\<lparr>choiceMenuVisible := False, selectedSaveSlot := parseInt ds,
      isInDialogue := True,
      dialogueRenderer := Some \<lparr>ds_lines = [line], ds_speaker = ''Shrine'',
                                 ds_onComplete = OpenOverwriteMenu\<rparr>\<rparr>"
  define s2 where "s2 = s1\<lparr>dialogueRenderer := None, choiceMenuOptions := [''Yes'', ''No''],
      choiceMenuCallback := Some OverwriteChoice, choiceMenuSelectedIndex := 0,
      choiceMenuVisible := True\<rparr>"
  define s3 where "s3 = s2\<lparr>choiceMenuSelectedIndex := 1\<rparr>"
  define s4 where "s4 = s3\<lparr>choiceMenuVisible := False, isInDialogue := False\<rparr>"
  have nc: "choice \<noteq> ''Cancel''"
    using assms(4) by (auto simp: slotMatch_def)
  have u1: "update f1 s = s1"
  proof -
    have "update f1 s = selectChoiceMenuOption f1 s"
      using assms(1,7,8) by (intro enter_on_menu) simp_all
    also have "\<dots> = s1"
      using assms(2,3,4,5,6) nc
      by (simp add: selectChoiceMenuOption_def hideChoiceMenu_def runChoiceCallback_def
          showOverwriteConfirmation_def startDialogue_def Let_def s1_def line_def)
    finally show ?thesis .
  qed
  have a2: "advance s1 = s2"
    by (simp add: advance_def s1_def runDialogueCallback_def showChoiceMenu_def s2_def)
  have u2: "update f2 s1 = s2"
  proof -
    have "update f2 s1 = advance s1"
      using assms(7,9) by (intro enter_on_dialogue) (simp_all add: a2, simp_all add: s1_def s2_def)
    then show ?thesis by (simp add: a2)
  qed
  have u3: "update f3 s2 = s3"
  proof -
    have "\<not> (levelUpOverlay s2 \<noteq> None \<and> overlayWaiting f3)" "\<not> escJustDown f3"
      "choiceMenuVisible s2"
      using assms(7,10) by (simp_all add: s2_def s1_def)
    from update_menu[OF this] show ?thesis
      using assms(10) by (simp add: s2_def s3_def)
  qed
  have u4: "update f4 s3 = s4"
  proof -
    have "update f4 s3 = selectChoiceMenuOption f4 s3"
      using assms(7,11) by (intro enter_on_menu) (simp_all add: s3_def s2_def s1_def)
    also have "\<dots> = s4"
      by (simp add: selectChoiceMenuOption_def hideChoiceMenu_def runChoiceCallback_def
          Let_def s4_def s3_def s2_def js_index_def)
    finally show ?thesis .
  qed
  have yes: "\<exists>saveData. trace (update f4 s2) =
        trace s @ [SaveManagerSave saveData (saveSucceeds f4)] \<and>
        sv_slot saveData = parseInt ds"
  proof -
    have "update f4 s2 = selectChoiceMenuOption f4 s2"
      using assms(7,11) by (intro enter_on_menu) (simp_all add: s2_def s1_def)
    then show ?thesis
      by (simp add: selectChoiceMenuOption_def hideChoiceMenu_def runChoiceCallback_def
          Let_def s2_def s1_def js_index_def saveGame_def startDialogue_def)
  qed
  have no: "c \<noteq> Some ''Yes'' \<longrightarrow> runChoiceCallback f OverwriteChoice c s' = s'"
    by (simp add: runChoiceCallback_def)
  show ?thesis
    unfolding u1 u2 u3 u4 line_def[symmetric]
    using yes no
    by (simp add: s1_def s2_def s3_def s4_def)
qed


lemma demoSlotMenu_fields:
  "choiceMenuVisible demoSlotMenu" "choiceMenuCallback demoSlotMenu = Some SaveSlotChoice"
  "choiceMenuSelectedIndex demoSlotMenu = 0" "levelUpOverlay demoSlotMenu = None"
  "saveSlotPreviews demoSlotMenu = demoPreviews"
  "trace demoSlotMenu = []" "playTime demoSlotMenu = 0"
  "choiceMenuOptions demoSlotMenu =
     [''Slot 1: Vicas Lv2 5m'', ''Slot 2: [Empty]'', ''Slot 3: [Empty]'', ''Cancel'']"
  by (simp_all add: demoSlotMenu_def showSaveSlotSelection_def showChoiceMenu_def Let_def
      idleFrame_def demo_flags demoPreviews_def slotLabel_def show_int_def digits.simps
      getHeroDisplayName_def or_string_def or_number_def js_index_def formatPlayTime_def
      js_rem_def demoTownAt_def create_def loadTerrain_def loadState_def demoMap_def
      no_data_def openNorthGate_def storeWalkable_def js_store_def placeNPCs_def
      newIshetarScene2_def)

theorem overwrite_needs_yes_witness:
  "choiceMenuVisible demoSlotMenu \<and> choiceMenuCallback demoSlotMenu = Some SaveSlotChoice \<and>
   js_index (choiceMenuOptions demoSlotMenu) (choiceMenuSelectedIndex demoSlotMenu) =
     Some ''Slot 1: Vicas Lv2 5m'' \<and>
   slotMatch ''Slot 1: Vicas Lv2 5m'' = Some ''1'' \<and> parseInt ''1'' = 1 \<and>
   find (\<lambda>p. p_slot p = 1) (saveSlotPreviews demoSlotMenu) = Some (hd demoPreviews) \<and>
   \<not> p_isEmpty (hd demoPreviews) \<and>
   choiceMenuOptions
     (update (idleFrame\<lparr>enterJustDown := True\<rparr>)
        (update (idleFrame\<lparr>enterJustDown := True\<rparr>) demoSlotMenu)) = [''Yes'', ''No''] \<and>
   \<not> isInDialogue
     (update (idleFrame\<lparr>enterJustDown := True\<rparr>)
        (update (idleFrame\<lparr>downJustDown := True\<rparr>)
           (update (idleFrame\<lparr>enterJustDown := True\<rparr>)
              (update (idleFrame\<lparr>enterJustDown := True\<rparr>) demoSlotMenu)))) \<and>
   trace
     (update (idleFrame\<lparr>enterJustDown := True\<rparr>)
        (update (idleFrame\<lparr>downJustDown := True\<rparr>)
           (update (idleFrame\<lparr>enterJustDown := True\<rparr>)
              (update (idleFrame\<lparr>enterJustDown := True\<rparr>) demoSlotMenu)))) = [] \<and>
   playTime
     (update (idleFrame\<lparr>enterJustDown := True\<rparr>)
        (update (idleFrame\<lparr>downJustDown := True\<rparr>)
           (update (idleFrame\<lparr>enterJustDown := True\<rparr>)
              (update (idleFrame\<lparr>enterJustDown := True\<rparr>) demoSlotMenu)))) = 0"
proof -
  let ?e = "idleFrame\<lparr>enterJustDown := True\<rparr>"
  let ?d = "idleFrame\<lparr>downJustDown := True\<rparr>"
  have h1: "choiceMenuVisible demoSlotMenu" "choiceMenuCallback demoSlotMenu = Some SaveSlotChoice"
    "levelUpOverlay demoSlotMenu = None"
    by (simp_all add: demoSlotMenu_fields)
  have h2: "js_index (choiceMenuOptions demoSlotMenu) (choiceMenuSelectedIndex demoSlotMenu) =
     Some ''Slot 1: Vicas Lv2 5m''"
    by (simp add: demoSlotMenu_fields js_index_def)
  have h3: "slotMatch ''Slot 1: Vicas Lv2 5m'' = Some ''1''"
    by (simp add: slotMatch_def is_digit_def Let_def)
  have h4: "parseInt ''1'' = 1"
    by (simp add: parseInt_def digit_value_def)
  have h5: "find (\<lambda>p. p_slot p = parseInt ''1'') (saveSlotPreviews demoSlotMenu) = Some (hd demoPreviews)"
    "\<not> p_isEmpty (hd demoPreviews)"
    by (simp_all add: h4 demoSlotMenu_fields demoPreviews_def)
  have k: "enterJustDown ?e \<and> \<not> escJustDown ?e \<and> \<not> upJustDown ?e \<and> \<not> downJustDown ?e"
    "enterJustDown ?e \<and> \<not> escJustDown ?e"
    "downJustDown ?d \<and> \<not> escJustDown ?d \<and> \<not> upJustDown ?d"
    by (simp_all add: idleFrame_def)
  show ?thesis
    using h1 h2 h3 h4 h5
      overwrite_needs_yes[OF h1(1) h1(2) h2 h3 h5(1) h5(2) h1(3) k(1) k(2) k(3) k(1)]
    by (simp add: demoSlotMenu_fields)
qed

section \<open>Properties of NarratorScene\<close>

text \<open>The save-slot list of the narrator scene, opened on the example previews.\<close>

definition demoNarrator :: narrator where
  "demoNarrator =
     nr_showSaveSlotSelection
       \<lparr> nr_currentPhase = Menu, nr_menuSelection = 1, nr_saveSlotPreviews = demoPreviews,
         nr_saveSlotSelection = 0, nr_saveSlotContainerVisible = False,
         nr_deleteConfirmTexts = [], nr_deleteConfirmSelection = 0, nr_slotToDelete = 0,
         nr_staticDialogue = None, nr_trace = [] \<rparr>"

text \<open>
  Claim C10. \<open>showDeleteConfirmation\<close> on an occupied slot sets the selected index to 1.
  The texts are \<open>'No'\<close> at index 0 and \<open>'Yes'\<close> at index 1, so the selected and
  highlighted option is \<open>'Yes'\<close>. A frame in which the confirm key is pressed and
  neither left nor right is calls \<open>SaveManager.delete\<close> on that slot.
\<close>

theorem delete_confirmation_defaults_to_yes:
  assumes "js_index (nr_saveSlotPreviews s) (nr_saveSlotSelection s) = Some p"
    and "\<not> p_isEmpty p"
    and "nf_enterJustDown f" and "\<not> nf_leftJustDown f" and "\<not> nf_rightJustDown f"
  shows "nr_currentPhase (showDeleteConfirmation s) = DeleteConfirm \<and>
         nr_deleteConfirmSelection (showDeleteConfirmation s) = 1 \<and>
         nr_slotToDelete (showDeleteConfirmation s) = p_slot p \<and>
         nr_deleteConfirmTexts (showDeleteConfirmation s) =
           [(''No'', ''#ffffff''), (''Yes'', ''#ffff00'')] \<and>
         js_index (map fst (nr_deleteConfirmTexts (showDeleteConfirmation s)))
           (nr_deleteConfirmSelection (showDeleteConfirmation s)) = Some ''Yes'' \<and>
         js_index (map fst (nr_deleteConfirmTexts (showDeleteConfirmation s))) 0 = Some ''No'' \<and>
         nr_trace (updateDeleteConfirm f (showDeleteConfirmation s)) =
           nr_trace s @ [SaveManagerDelete (p_slot p)]"
proof -
  define s1 where "s1 = s\<lparr>nr_slotToDelete := p_slot p,
                 nr_currentPhase := DeleteConfirm,
                 nr_deleteConfirmSelection := 1,
                 nr_staticDialogue :=
                   Some (''Delete Slot '' @ show_int (p_slot p) @
                         ''? This cannot be undone.'', ''Miss Tibbets''),
                 nr_deleteConfirmTexts := [(''No'', ''#ffffff''), (''Yes'', ''#ffff00'')]\<rparr>"
  have d: "showDeleteConfirmation s = s1"
    using assms(1,2)
    by (simp add: showDeleteConfirmation_def updateDeleteConfirmSelection_def s1_def)
  have t: "nr_trace (confirmDelete f s1) = nr_trace s @ [SaveManagerDelete (p_slot p)]"
    by (simp add: confirmDelete_def Let_def s1_def showMainMenu_def nr_showSaveSlotSelection_def)
  have t2: "nr_trace (nr_showSaveSlotSelection ((confirmDelete f s1)\<lparr>nr_deleteConfirmTexts := []\<rparr>)) =
       nr_trace s @ [SaveManagerDelete (p_slot p)]"
    using t by (simp add: nr_showSaveSlotSelection_def)
  have u: "nr_trace (updateDeleteConfirm f s1) = nr_trace s @ [SaveManagerDelete (p_slot p)]"
    using assms(3,4,5) t t2 by (simp add: updateDeleteConfirm_def Let_def)
  show ?thesis
    unfolding d using u by (simp add: s1_def js_index_def)
qed

theorem delete_confirmation_defaults_to_yes_witness:
  "js_index (nr_saveSlotPreviews demoNarrator) (nr_saveSlotSelection demoNarrator) =
     Some (hd demoPreviews) \<and>
   \<not> p_isEmpty (hd demoPreviews) \<and>
   nr_deleteConfirmSelection (showDeleteConfirmation demoNarrator) = 1 \<and>
   nr_deleteConfirmTexts (showDeleteConfirmation demoNarrator) =
     [(''No'', ''#ffffff''), (''Yes'', ''#ffff00'')] \<and>
   nr_trace (updateDeleteConfirm
      \<lparr>nf_leftJustDown = False, nf_rightJustDown = False, nf_enterJustDown = True,
        nf_escJustDown = False, nf_allSlotPreviews = []\<rparr>
      (showDeleteConfirmation demoNarrator)) = [SaveManagerDelete 1]"
proof -
  let ?f = "\<lparr>nf_leftJustDown = False, nf_rightJustDown = False, nf_enterJustDown = True,
        nf_escJustDown = False, nf_allSlotPreviews = []\<rparr>"
  have h1: "js_index (nr_saveSlotPreviews demoNarrator) (nr_saveSlotSelection demoNarrator) =
     Some (hd demoPreviews)"
    by (simp add: demoNarrator_def nr_showSaveSlotSelection_def js_index_def demoPreviews_def)
  have h2: "\<not> p_isEmpty (hd demoPreviews)"
    by (simp add: demoPreviews_def)
  have k: "nf_enterJustDown ?f" "\<not> nf_leftJustDown ?f" "\<not> nf_rightJustDown ?f"
    by simp_all
  have v: "nr_trace demoNarrator = []" "p_slot (hd demoPreviews) = 1"
    by (simp_all add: demoNarrator_def nr_showSaveSlotSelection_def demoPreviews_def)
  show ?thesis
    using h1 h2 v delete_confirmation_defaults_to_yes[OF h1 h2 k]
    by simp
qed

end
